theory Spec2Isabelle
  imports Main "HOL-Library.Word" "HOL-Library.Signed_Division"
begin

unbundle bit_operations_syntax

section \<open>The statistics cache handle of tinysql (statistics/handle/handle.go)\<close>

text \<open>
  A shallow embedding of \<^verbatim>\<open>statistics/handle/handle.go\<close>. Go's \<^verbatim>\<open>int64\<close> and
  \<^verbatim>\<open>uint64\<close> are both 64-bit words; which of the two a value is shows in the comparison
  used on it (\<open><s\<close>, \<open>\<le>s\<close> for signed values, \<open><\<close>, \<open>\<le>\<close> for unsigned ones).
  Arithmetic wraps around, as Go's does. A pointer that may be nil is an \<open>option\<close>, a Go
  map is a partial function, a returned \<^verbatim>\<open>error\<close> is the left summand of a sum or an
  \<open>error option\<close>. The handle is used by one thread at a time in this model, so the
  mutexes and the atomic load and store of the snapshot pointer are plain reads and writes.
\<close>

subsection \<open>Data model\<close>

type_synonym int64 = "64 word"
type_synonym uint64 = "64 word"
type_synonym bytes = "8 word list"

datatype error = Error string

datatype float64 = Float64 "64 word"

datatype datum = NullDatum | BytesDatum bytes | Int64Datum int64

record fieldType =
  ft_Tp :: "8 word"

record columnInfo =
  ci_ID :: int64
  ci_Name :: string
  ci_FieldType :: fieldType
  ci_Flag :: "64 word"

record indexInfo =
  ii_ID :: int64
  ii_Name :: string

text \<open>\<open>ti_PartitionInfo\<close> is what \<^verbatim>\<open>GetPartitionInfo()\<close> returns: the IDs of the
  partition definitions, or nil.\<close>

record tableInfo =
  ti_ID :: int64
  ti_Name :: string
  ti_Columns :: "columnInfo list"
  ti_Indices :: "indexInfo list"
  ti_PKIsHandle :: bool
  ti_PartitionInfo :: "int64 list option"

record dbInfo =
  db_Name :: string
  db_Tables :: "tableInfo list"

text \<open>The schema catalog is an interface in the source; here it is the record of the
  four methods the handle calls.\<close>

record infoSchema =
  SchemaMetaVersion :: int64
  AllSchemas :: "dbInfo list"
  TableByID :: "int64 \<Rightarrow> tableInfo option"
  TableByName :: "string \<Rightarrow> string \<Rightarrow> tableInfo option"

record bucket =
  bk_lower :: datum
  bk_upper :: datum
  bk_Count :: int64
  bk_Repeat :: int64

record histogram =
  hg_ID :: int64
  hg_NDV :: int64
  hg_NullCount :: int64
  hg_LastUpdateVersion :: uint64
  hg_Tp :: fieldType
  hg_Buckets :: "bucket list"
  hg_TotColSize :: int64
  hg_Correlation :: float64

datatype cmSketch = CMSketch bytes

record column =
  col_PhysicalID :: int64
  col_Histogram :: histogram
  col_Info :: columnInfo
  col_CMSketch :: "cmSketch option"
  col_Count :: int64
  col_IsHandle :: bool

record index =
  idx_Histogram :: histogram
  idx_CMSketch :: "cmSketch option"
  idx_Info :: indexInfo

text \<open>\<^verbatim>\<open>statistics.Table\<close> with its embedded \<^verbatim>\<open>HistColl\<close> flattened.\<close>

record statsTable =
  tbl_PhysicalID :: int64
  tbl_HavePhysicalID :: bool
  tbl_Columns :: "int64 \<rightharpoonup> column"
  tbl_Indices :: "int64 \<rightharpoonup> index"
  tbl_Count :: int64
  tbl_ModifyCount :: int64
  tbl_Pseudo :: bool
  tbl_Version :: uint64
  tbl_Name :: string

record statsCache =
  tables :: "int64 \<rightharpoonup> statsTable"
  version :: uint64

record Handle =
  mu_pid2tid :: "int64 \<rightharpoonup> int64"
  mu_schemaVersion :: int64
  h_statsCache :: statsCache
  lease :: int64

subsection \<open>Collaborators that are not in this file\<close>

text \<open>The rows of the three catalog tables, as the queries of this file read them.\<close>

record metaRow =
  mr_version :: uint64
  mr_table_id :: int64
  mr_modify_count :: int64
  mr_count :: int64

record histRow =
  hr_table_id :: int64
  hr_is_index :: int64
  hr_hist_id :: int64
  hr_distinct_count :: int64
  hr_version :: uint64
  hr_null_count :: int64
  hr_tot_col_size :: int64
  hr_correlation :: float64

record bucketRow =
  br_count :: int64
  br_repeats :: int64
  br_lower_bound :: bytes
  br_upper_bound :: bytes

text \<open>
  The restricted SQL executor, as the five SELECT statements this file sends through
  \<^verbatim>\<open>ExecRestrictedSQL\<close> (or \<^verbatim>\<open>ExecRestrictedSQLWithSnapshot\<close>), each with the
  arguments its format string takes and with the columns the file reads from the rows:
  \<^item> \<open>selectStatsMeta v\<close>:
    \<^verbatim>\<open>SELECT version, table_id, modify_count, count from mysql.stats_meta where version > v order by version\<close>;
  \<^item> \<open>selectStatsHistograms t\<close>:
    \<^verbatim>\<open>select table_id, is_index, hist_id, distinct_count, version, null_count, tot_col_size, stats_ver, flag, correlation, last_analyze_pos from mysql.stats_histograms where table_id = t\<close>;
  \<^item> \<open>selectCMSketch t i h\<close>:
    \<^verbatim>\<open>select cm_sketch from mysql.stats_histograms where table_id = t and is_index = i and hist_id = h\<close>;
  \<^item> \<open>selectStatsBuckets t i h\<close>:
    \<^verbatim>\<open>select count, repeats, lower_bound, upper_bound from mysql.stats_buckets where table_id = t and is_index = i and hist_id = h order by bucket_id\<close>;
  \<^item> \<open>selectSumCount t h\<close>:
    \<^verbatim>\<open>select sum(count) from mysql.stats_buckets where table_id = t and is_index = 0 and hist_id = h\<close>.
    An aggregate without GROUP BY returns exactly one row, so the answer is the one value
    that \<^verbatim>\<open>rows[0]\<close> reads: SQL NULL (\<open>None\<close>) or a decimal with an integer value.
\<close>

record restrictedExec =
  selectStatsMeta :: "uint64 \<Rightarrow> error + metaRow list"
  selectStatsHistograms :: "int64 \<Rightarrow> error + histRow list"
  selectCMSketch :: "int64 \<Rightarrow> int64 \<Rightarrow> int64 \<Rightarrow> error + bytes list"
  selectStatsBuckets :: "int64 \<Rightarrow> int64 \<Rightarrow> int64 \<Rightarrow> error + bucketRow list"
  selectSumCount :: "int64 \<Rightarrow> int64 \<Rightarrow> error + int option"

text \<open>
  Functions of other packages that the handle calls and whose code is not in this file:
  the count-min sketch codec, the datum conversion \<^verbatim>\<open>Datum.ConvertTo\<close> (to the blob
  type on the save path, to the column's type on the load path), the histogram's
  \<^verbatim>\<open>TotalRowCount\<close> with Go's conversion of its float64 result to int64, and the
  defaults that \<^verbatim>\<open>statistics.PseudoTable\<close> fills in.
\<close>

record deps =
  DecodeCMSketch :: "bytes \<Rightarrow> error + cmSketch option"
  EncodeCMSketch :: "cmSketch option \<Rightarrow> error + bytes"
  ConvertToBlob :: "datum \<Rightarrow> error + datum"
  ConvertTo :: "fieldType \<Rightarrow> datum \<Rightarrow> error + datum"
  TotalRowCount :: "histogram \<Rightarrow> float64"
  int64_of_float64 :: "float64 \<Rightarrow> int64"
  pseudoDefaults :: "tableInfo \<Rightarrow> statsTable"

definition GetBytes :: "datum \<Rightarrow> bytes" where
  "GetBytes d = (case d of BytesDatum b \<Rightarrow> b | _ \<Rightarrow> [])"

text \<open>Modelled from the spec: \<^verbatim>\<open>statistics.PseudoTable\<close> is not in this file. The spec
  says it synthesizes default statistics from the table metadata and that \<open>Pseudo\<close> is
  true for them; the defaults themselves are the parameter \<open>pseudoDefaults\<close>.\<close>

definition PseudoTable :: "deps \<Rightarrow> tableInfo \<Rightarrow> statsTable" where
  "PseudoTable d tblInfo = (pseudoDefaults d tblInfo)\<lparr>tbl_Pseudo := True\<rparr>"

text \<open>Modelled from the spec: \<^verbatim>\<open>oracle.ComposeTS\<close> is not in this file. The spec gives
  \<^verbatim>\<open>composeTS(physicalMillis, logical) = (physicalMillis << 18) | logical\<close>.\<close>

definition ComposeTS :: "int64 \<Rightarrow> int64 \<Rightarrow> uint64" where
  "ComposeTS physical logical = (push_bit 18 physical) OR logical"

text \<open>Go's \<^verbatim>\<open>/\<close> on int64 truncates towards zero; the quotient wraps around in the one
  case where it does not fit. The divisor is never zero where the handle divides.\<close>

definition int64_div :: "int64 \<Rightarrow> int64 \<Rightarrow> int64" where
  "int64_div a b = word_of_int (sint a sdiv sint b)"

text \<open>Modelled from the spec: \<^verbatim>\<open>mysql.HasPriKeyFlag\<close> is not in this file; the flag is
  bit 1 of the column's flag word.\<close>

definition HasPriKeyFlag :: "64 word \<Rightarrow> bool" where
  "HasPriKeyFlag flag = (flag AND 2 \<noteq> 0)"

text \<open>Modelled from the spec: \<^verbatim>\<open>statistics.NewHistogram\<close> is not in this file. It
  returns a histogram with the given aggregates and no buckets (the bucket size is only
  a capacity).\<close>

definition NewHistogram ::
  "int64 \<Rightarrow> int64 \<Rightarrow> int64 \<Rightarrow> uint64 \<Rightarrow> fieldType \<Rightarrow> nat \<Rightarrow> int64 \<Rightarrow> histogram" where
  "NewHistogram hid ndv nullCount ver tp bucketSize totColSize =
     \<lparr>hg_ID = hid, hg_NDV = ndv, hg_NullCount = nullCount, hg_LastUpdateVersion = ver,
      hg_Tp = tp, hg_Buckets = [], hg_TotColSize = totColSize,
      hg_Correlation = Float64 0\<rparr>"

definition AppendBucket :: "histogram \<Rightarrow> datum \<Rightarrow> datum \<Rightarrow> int64 \<Rightarrow> int64 \<Rightarrow> histogram" where
  "AppendBucket hg lower upper count repeat =
     hg\<lparr>hg_Buckets := hg_Buckets hg @
        [\<lparr>bk_lower = lower, bk_upper = upper, bk_Count = count, bk_Repeat = repeat\<rparr>]\<rparr>"

definition hg_Len :: "histogram \<Rightarrow> nat" where
  "hg_Len hg = length (hg_Buckets hg)"

subsection \<open>The cache snapshot\<close>

text \<open>\<^verbatim>\<open>statsCache.update\<close>: copy on write; the tables are stored under their physical
  ID in list order, then the deleted IDs are removed.\<close>

fun putTables :: "(int64 \<rightharpoonup> statsTable) \<Rightarrow> statsTable list \<Rightarrow> (int64 \<rightharpoonup> statsTable)" where
  "putTables m [] = m"
| "putTables m (tbl # tbls) = putTables (m(tbl_PhysicalID tbl \<mapsto> tbl)) tbls"

fun deleteIDs :: "(int64 \<rightharpoonup> statsTable) \<Rightarrow> int64 list \<Rightarrow> (int64 \<rightharpoonup> statsTable)" where
  "deleteIDs m [] = m"
| "deleteIDs m (i # ids) = deleteIDs (m(i := None)) ids"

definition update :: "statsCache \<Rightarrow> statsTable list \<Rightarrow> int64 list \<Rightarrow> uint64 \<Rightarrow> statsCache" where
  "update sc tbls deletedIDs newVersion =
     \<lparr>tables = deleteIDs (putTables (tables sc) tbls) deletedIDs, version = newVersion\<rparr>"

definition updateStatsCache :: "Handle \<Rightarrow> statsCache \<Rightarrow> Handle" where
  "updateStatsCache h newCache =
     (let oldCache = h_statsCache h
      in if version oldCache \<le> version newCache then h\<lparr>h_statsCache := newCache\<rparr> else h)"

definition LastUpdateVersion :: "Handle \<Rightarrow> uint64" where
  "LastUpdateVersion h = version (h_statsCache h)"

definition SetLastUpdateVersion :: "Handle \<Rightarrow> uint64 \<Rightarrow> Handle" where
  "SetLastUpdateVersion h v =
     (let sc = h_statsCache h in updateStatsCache h (update sc [] [] v))"

definition GetPartitionStats :: "deps \<Rightarrow> Handle \<Rightarrow> tableInfo \<Rightarrow> int64 \<Rightarrow> statsTable \<times> Handle" where
  "GetPartitionStats d h tblInfo pid =
     (let sc = h_statsCache h
      in case tables sc pid of
           None \<Rightarrow>
             (let tbl = (PseudoTable d tblInfo)\<lparr>tbl_PhysicalID := pid\<rparr>
              in (tbl, updateStatsCache h (update sc [tbl] [] (version sc))))
         | Some tbl \<Rightarrow> (tbl, h))"

definition GetTableStats :: "deps \<Rightarrow> Handle \<Rightarrow> tableInfo \<Rightarrow> statsTable \<times> Handle" where
  "GetTableStats d h tblInfo = GetPartitionStats d h tblInfo (ti_ID tblInfo)"

text \<open>A run of publications: each candidate in turn goes through \<open>updateStatsCache\<close>.\<close>

definition publishAll :: "Handle \<Rightarrow> statsCache list \<Rightarrow> Handle" where
  "publishAll h cs = foldl updateStatsCache h cs"

subsection \<open>The handle\<close>

definition emptyCache :: statsCache where
  "emptyCache = \<lparr>tables = Map.empty, version = 0\<rparr>"

definition NewHandle :: "int64 \<Rightarrow> Handle" where
  "NewHandle l = \<lparr>mu_pid2tid = Map.empty, mu_schemaVersion = 0,
                   h_statsCache = emptyCache, lease = l\<rparr>"

text \<open>\<^verbatim>\<open>Clear\<close> also resets four session variables, which this model does not have.\<close>

definition Clear :: "Handle \<Rightarrow> Handle" where
  "Clear h = h\<lparr>h_statsCache := emptyCache\<rparr>"

definition Lease :: "Handle \<Rightarrow> int64" where
  "Lease h = lease h"

definition SetLease :: "Handle \<Rightarrow> int64 \<Rightarrow> Handle" where
  "SetLease h l = h\<lparr>lease := l\<rparr>"

text \<open>\<^verbatim>\<open>time.Millisecond\<close> is 1000000 nanoseconds.\<close>

definition DurationToTS :: "int64 \<Rightarrow> uint64" where
  "DurationToTS d = ComposeTS (int64_div d 1000000) 0"

subsection \<open>The partition resolver\<close>

fun putDefinitions :: "(int64 \<rightharpoonup> int64) \<Rightarrow> int64 list \<Rightarrow> int64 \<Rightarrow> (int64 \<rightharpoonup> int64)" where
  "putDefinitions mapper [] tid = mapper"
| "putDefinitions mapper (def # defs) tid = putDefinitions (mapper(def \<mapsto> tid)) defs tid"

fun putPartitions :: "(int64 \<rightharpoonup> int64) \<Rightarrow> tableInfo list \<Rightarrow> (int64 \<rightharpoonup> int64)" where
  "putPartitions mapper [] = mapper"
| "putPartitions mapper (tbl # tbls) =
     (case ti_PartitionInfo tbl of
        None \<Rightarrow> putPartitions mapper tbls
      | Some defs \<Rightarrow> putPartitions (putDefinitions mapper defs (ti_ID tbl)) tbls)"

fun putSchemas :: "(int64 \<rightharpoonup> int64) \<Rightarrow> dbInfo list \<Rightarrow> (int64 \<rightharpoonup> int64)" where
  "putSchemas mapper [] = mapper"
| "putSchemas mapper (db # dbs) = putSchemas (putPartitions mapper (db_Tables db)) dbs"

definition buildPartitionID2TableID :: "infoSchema \<Rightarrow> (int64 \<rightharpoonup> int64)" where
  "buildPartitionID2TableID isch = putSchemas Map.empty (AllSchemas isch)"

definition getTableByPhysicalID ::
  "Handle \<Rightarrow> infoSchema \<Rightarrow> int64 \<Rightarrow> tableInfo option \<times> Handle" where
  "getTableByPhysicalID h isch physicalID =
     (let h1 = (if SchemaMetaVersion isch \<noteq> mu_schemaVersion h
                then h\<lparr>mu_schemaVersion := SchemaMetaVersion isch,
                       mu_pid2tid := buildPartitionID2TableID isch\<rparr>
                else h)
      in case mu_pid2tid h1 physicalID of
           Some tid \<Rightarrow> (TableByID isch tid, h1)
         | None \<Rightarrow> (TableByID isch physicalID, h1))"

text \<open>\<^verbatim>\<open>fmt.Sprintf("%d", id)\<close>: the decimal digits of a signed 64-bit value.\<close>

fun decimalDigits :: "nat \<Rightarrow> string" where
  "decimalDigits n =
     (if n < 10 then [char_of (48 + n)]
      else decimalDigits (n div 10) @ [char_of (48 + n mod 10)])"

definition formatInt64 :: "int64 \<Rightarrow> string" where
  "formatInt64 x =
     (if sint x < 0 then CHR ''-'' # decimalDigits (nat (- sint x))
      else decimalDigits (nat (sint x)))"

fun fullNameLoop :: "infoSchema \<Rightarrow> tableInfo \<Rightarrow> dbInfo list \<Rightarrow> string" where
  "fullNameLoop isch tblInfo [] = formatInt64 (ti_ID tblInfo)"
| "fullNameLoop isch tblInfo (schema # schemas) =
     (case TableByName isch (db_Name schema) (ti_Name tblInfo) of
        Some t \<Rightarrow>
          if ti_ID t = ti_ID tblInfo then db_Name schema @ ''.'' @ ti_Name tblInfo
          else fullNameLoop isch tblInfo schemas
      | None \<Rightarrow> fullNameLoop isch tblInfo schemas)"

definition getFullTableName :: "infoSchema \<Rightarrow> tableInfo \<Rightarrow> string" where
  "getFullTableName isch tblInfo = fullNameLoop isch tblInfo (AllSchemas isch)"

subsection \<open>The storage reader\<close>

text \<open>Each reader takes the handle's executor \<open>ex\<close> and the optional executor
  \<open>historyStatsExec\<close> of the source, which reads at a snapshot.\<close>

definition cmSketchFromStorage ::
  "deps \<Rightarrow> restrictedExec \<Rightarrow> int64 \<Rightarrow> int64 \<Rightarrow> int64 \<Rightarrow> restrictedExec option
     \<Rightarrow> error + cmSketch option" where
  "cmSketchFromStorage d ex tblID isIndex histID historyStatsExec =
     (case (case historyStatsExec of
              Some he \<Rightarrow> selectCMSketch he tblID isIndex histID
            | None \<Rightarrow> selectCMSketch ex tblID isIndex histID) of
        Inl err \<Rightarrow> Inl err
      | Inr [] \<Rightarrow> Inr None
      | Inr (row # _) \<Rightarrow> DecodeCMSketch d row)"

text \<open>The loop of \<^verbatim>\<open>histogramFromStorage\<close> over the bucket rows: the stored count of a
  row is added to the running total, and the total is the bucket's count. A bound read
  from the row is a blob datum; for a column it is converted to the column's type.\<close>

fun bucketsFromRows ::
  "deps \<Rightarrow> fieldType \<Rightarrow> int64 \<Rightarrow> bucketRow list \<Rightarrow> int64 \<Rightarrow> histogram \<Rightarrow> error + histogram" where
  "bucketsFromRows d tp isIndex [] totalCount hg = Inr hg"
| "bucketsFromRows d tp isIndex (row # rows) totalCount hg =
     (let count = br_count row; repeats = br_repeats row
      in if isIndex = 1 then
           (let lowerBound = BytesDatum (br_lower_bound row);
                upperBound = BytesDatum (br_upper_bound row);
                totalCount1 = totalCount + count
            in bucketsFromRows d tp isIndex rows totalCount1
                 (AppendBucket hg lowerBound upperBound totalCount1 repeats))
         else
           (case ConvertTo d tp (BytesDatum (br_lower_bound row)) of
              Inl err \<Rightarrow> Inl err
            | Inr lowerBound \<Rightarrow>
                (case ConvertTo d tp (BytesDatum (br_upper_bound row)) of
                   Inl err \<Rightarrow> Inl err
                 | Inr upperBound \<Rightarrow>
                     (let totalCount1 = totalCount + count
                      in bucketsFromRows d tp isIndex rows totalCount1
                           (AppendBucket hg lowerBound upperBound totalCount1 repeats)))))"

text \<open>\<^verbatim>\<open>PreCalculateScalar\<close> fills in the scalar values of the bounds, which this model
  of a histogram does not have; the buckets and aggregates are as the loop left them.\<close>

definition histogramFromStorage ::
  "deps \<Rightarrow> restrictedExec \<Rightarrow> int64 \<Rightarrow> int64 \<Rightarrow> fieldType \<Rightarrow> int64 \<Rightarrow> int64 \<Rightarrow> uint64
     \<Rightarrow> int64 \<Rightarrow> int64 \<Rightarrow> float64 \<Rightarrow> restrictedExec option \<Rightarrow> error + histogram" where
  "histogramFromStorage d ex tableID colID tp distinctCnt isIndex ver nullCount totColSize corr
       historyStatsExec =
     (case (case historyStatsExec of
              Some he \<Rightarrow> selectStatsBuckets he tableID isIndex colID
            | None \<Rightarrow> selectStatsBuckets ex tableID isIndex colID) of
        Inl err \<Rightarrow> Inl err
      | Inr rows \<Rightarrow>
          (let bucketSize = length rows;
               hg = (NewHistogram colID distinctCnt nullCount ver tp bucketSize totColSize)
                      \<lparr>hg_Correlation := corr\<rparr>
           in bucketsFromRows d tp isIndex rows 0 hg))"

text \<open>Modelled from the spec: \<^verbatim>\<open>MyDecimal.ToInt\<close> is not in this file. The sum of a
  64-bit integer column is a decimal with an integer value; the conversion gives that
  value when it fits int64 and an error otherwise.\<close>

definition ToInt :: "int \<Rightarrow> error + int64" where
  "ToInt dec =
     (if - (2 ^ 63) \<le> dec \<and> dec < 2 ^ 63 then Inr (word_of_int dec)
      else Inl (Error ''overflow''))"

definition columnCountFromStorage :: "restrictedExec \<Rightarrow> int64 \<Rightarrow> int64 \<Rightarrow> error + int64" where
  "columnCountFromStorage ex tableID colID =
     (case selectSumCount ex tableID colID of
        Inl err \<Rightarrow> Inl err
      | Inr None \<Rightarrow> Inr 0
      | Inr (Some dec) \<Rightarrow> ToInt dec)"

text \<open>\<^verbatim>\<open>types.NewFieldType(mysql.TypeBlob)\<close>; the type code of a blob is 252.\<close>

definition blobFieldType :: fieldType where
  "blobFieldType = \<lparr>ft_Tp = 252\<rparr>"

text \<open>The loop of \<^verbatim>\<open>indexStatsFromStorage\<close> over the indices of the table metadata: it
  stops at the first index whose ID is the row's, and returns the value of \<open>idx\<close>.\<close>

fun indexLoop ::
  "deps \<Rightarrow> restrictedExec \<Rightarrow> histRow \<Rightarrow> statsTable \<Rightarrow> restrictedExec option
     \<Rightarrow> indexInfo list \<Rightarrow> index option \<Rightarrow> error + index option" where
  "indexLoop d ex row table historyStatsExec [] idx = Inr idx"
| "indexLoop d ex row table historyStatsExec (idxInfo # idxInfos) idx =
     (let histID = hr_hist_id row; distinctCnt = hr_distinct_count row;
          histVer = hr_version row; nullCount = hr_null_count row
      in if histID \<noteq> ii_ID idxInfo then
           indexLoop d ex row table historyStatsExec idxInfos idx
         else if (case idx of None \<Rightarrow> True
                  | Some i \<Rightarrow> hg_LastUpdateVersion (idx_Histogram i) < histVer) then
           (case histogramFromStorage d ex (tbl_PhysicalID table) histID blobFieldType
                   distinctCnt 1 histVer nullCount 0 (Float64 0) historyStatsExec of
              Inl err \<Rightarrow> Inl err
            | Inr hg \<Rightarrow>
                (case cmSketchFromStorage d ex (tbl_PhysicalID table) 1 (ii_ID idxInfo)
                        historyStatsExec of
                   Inl err \<Rightarrow> Inl err
                 | Inr cms \<Rightarrow>
                     Inr (Some \<lparr>idx_Histogram = hg, idx_CMSketch = cms, idx_Info = idxInfo\<rparr>)))
         else Inr idx)"

definition indexStatsFromStorage ::
  "deps \<Rightarrow> restrictedExec \<Rightarrow> histRow \<Rightarrow> statsTable \<Rightarrow> tableInfo \<Rightarrow> restrictedExec option
     \<Rightarrow> error + statsTable" where
  "indexStatsFromStorage d ex row table tblInfo historyStatsExec =
     (let histID = hr_hist_id row;
          idx = tbl_Indices table histID
      in case indexLoop d ex row table historyStatsExec (ti_Indices tblInfo) idx of
           Inl err \<Rightarrow> Inl err
         | Inr None \<Rightarrow> Inr table
         | Inr (Some i) \<Rightarrow> Inr (table\<lparr>tbl_Indices := (tbl_Indices table)(histID \<mapsto> i)\<rparr>))"

definition col_Len :: "column \<Rightarrow> nat" where
  "col_Len c = hg_Len (col_Histogram c)"

text \<open>The condition \<^verbatim>\<open>notNeedLoad\<close> of \<^verbatim>\<open>columnStatsFromStorage\<close>: the buckets are
  not loaded if the lease is positive, the column is not the handle, the column has no
  buckets yet, and \<open>loadAll\<close> is false.\<close>

definition notNeedLoad :: "int64 \<Rightarrow> bool \<Rightarrow> column option \<Rightarrow> uint64 \<Rightarrow> bool \<Rightarrow> bool" where
  "notNeedLoad l isHandle col histVer loadAll =
     (0 <s l \<and> \<not> isHandle \<and>
      (case col of
         None \<Rightarrow> True
       | Some c \<Rightarrow> col_Len c = 0 \<and> hg_LastUpdateVersion (col_Histogram c) < histVer) \<and>
      \<not> loadAll)"

text \<open>The loop of \<^verbatim>\<open>columnStatsFromStorage\<close> over the columns of the table metadata:
  it stops at the first column whose ID is the row's, and returns the value of
  \<open>col\<close>.\<close>

fun columnLoop ::
  "deps \<Rightarrow> restrictedExec \<Rightarrow> Handle \<Rightarrow> histRow \<Rightarrow> statsTable \<Rightarrow> tableInfo \<Rightarrow> bool
     \<Rightarrow> restrictedExec option \<Rightarrow> columnInfo list \<Rightarrow> column option \<Rightarrow> error + column option" where
  "columnLoop d ex h row table tblInfo loadAll historyStatsExec [] col = Inr col"
| "columnLoop d ex h row table tblInfo loadAll historyStatsExec (colInfo # colInfos) col =
     (let histID = hr_hist_id row; distinctCnt = hr_distinct_count row;
          histVer = hr_version row; nullCount = hr_null_count row;
          totColSize = hr_tot_col_size row; correlation = hr_correlation row
      in if histID \<noteq> ci_ID colInfo then
           columnLoop d ex h row table tblInfo loadAll historyStatsExec colInfos col
         else
           (let isHandle = (ti_PKIsHandle tblInfo \<and> HasPriKeyFlag (ci_Flag colInfo))
            in if notNeedLoad (Lease h) isHandle col histVer loadAll then
                 (case columnCountFromStorage ex (tbl_PhysicalID table) histID of
                    Inl err \<Rightarrow> Inl err
                  | Inr count \<Rightarrow>
                      Inr (Some
                        \<lparr>col_PhysicalID = tbl_PhysicalID table,
                         col_Histogram =
                           (NewHistogram histID distinctCnt nullCount histVer
                              (ci_FieldType colInfo) 0 totColSize)
                             \<lparr>hg_Correlation := correlation\<rparr>,
                         col_Info = colInfo,
                         col_CMSketch = None,
                         col_Count = count + nullCount,
                         col_IsHandle =
                           (ti_PKIsHandle tblInfo \<and> HasPriKeyFlag (ci_Flag colInfo))\<rparr>))
               else if (case col of None \<Rightarrow> True
                        | Some c \<Rightarrow> hg_LastUpdateVersion (col_Histogram c) < histVer)
                       \<or> loadAll then
                 (case histogramFromStorage d ex (tbl_PhysicalID table) histID
                         (ci_FieldType colInfo) distinctCnt 0 histVer nullCount totColSize
                         correlation historyStatsExec of
                    Inl err \<Rightarrow> Inl err
                  | Inr hg \<Rightarrow>
                      (case cmSketchFromStorage d ex (tbl_PhysicalID table) 0 (ci_ID colInfo)
                              historyStatsExec of
                         Inl err \<Rightarrow> Inl err
                       | Inr cms \<Rightarrow>
                           Inr (Some
                             \<lparr>col_PhysicalID = tbl_PhysicalID table,
                              col_Histogram = hg,
                              col_Info = colInfo,
                              col_CMSketch = cms,
                              col_Count = int64_of_float64 d (TotalRowCount d hg),
                              col_IsHandle =
                                (ti_PKIsHandle tblInfo \<and> HasPriKeyFlag (ci_Flag colInfo))\<rparr>)))
               else
                 (case col of
                    None \<Rightarrow> Inr None
                  | Some c \<Rightarrow>
                      if hg_TotColSize (col_Histogram c) \<noteq> totColSize then
                        Inr (Some (c\<lparr>col_Histogram :=
                                      (col_Histogram c)\<lparr>hg_TotColSize := totColSize\<rparr>\<rparr>))
                      else Inr (Some c))))"

definition columnStatsFromStorage ::
  "deps \<Rightarrow> restrictedExec \<Rightarrow> Handle \<Rightarrow> histRow \<Rightarrow> statsTable \<Rightarrow> tableInfo \<Rightarrow> bool
     \<Rightarrow> restrictedExec option \<Rightarrow> error + statsTable" where
  "columnStatsFromStorage d ex h row table tblInfo loadAll historyStatsExec =
     (let histID = hr_hist_id row;
          col = tbl_Columns table histID
      in case columnLoop d ex h row table tblInfo loadAll historyStatsExec
                (ti_Columns tblInfo) col of
           Inl err \<Rightarrow> Inl err
         | Inr None \<Rightarrow> Inr table
         | Inr (Some c) \<Rightarrow>
             Inr (table\<lparr>tbl_Columns := (tbl_Columns table)(hg_ID (col_Histogram c) \<mapsto> c)\<rparr>))"

text \<open>The loop of \<^verbatim>\<open>tableStatsFromStorage\<close> over the rows of the histogram catalog.\<close>

fun histRowsLoop ::
  "deps \<Rightarrow> restrictedExec \<Rightarrow> Handle \<Rightarrow> tableInfo \<Rightarrow> bool \<Rightarrow> restrictedExec option
     \<Rightarrow> histRow list \<Rightarrow> statsTable \<Rightarrow> error + statsTable" where
  "histRowsLoop d ex h tblInfo loadAll historyStatsExec [] table = Inr table"
| "histRowsLoop d ex h tblInfo loadAll historyStatsExec (row # rows) table =
     (case (if 0 <s hr_is_index row
            then indexStatsFromStorage d ex row table tblInfo historyStatsExec
            else columnStatsFromStorage d ex h row table tblInfo loadAll historyStatsExec) of
        Inl err \<Rightarrow> Inl err
      | Inr table1 \<Rightarrow> histRowsLoop d ex h tblInfo loadAll historyStatsExec rows table1)"

definition newStatsTable :: "int64 \<Rightarrow> statsTable" where
  "newStatsTable physicalID =
     \<lparr>tbl_PhysicalID = physicalID, tbl_HavePhysicalID = True,
      tbl_Columns = Map.empty, tbl_Indices = Map.empty,
      tbl_Count = 0, tbl_ModifyCount = 0, tbl_Pseudo = False,
      tbl_Version = 0, tbl_Name = []\<rparr>"

text \<open>The result is \<open>Inr None\<close> where the source returns \<^verbatim>\<open>nil, nil\<close>: when the query on
  the histogram catalog fails and when it returns no rows.\<close>

definition tableStatsFromStorage ::
  "deps \<Rightarrow> restrictedExec \<Rightarrow> Handle \<Rightarrow> tableInfo \<Rightarrow> int64 \<Rightarrow> bool \<Rightarrow> restrictedExec option
     \<Rightarrow> error + statsTable option" where
  "tableStatsFromStorage d ex h tblInfo physicalID loadAll historyStatsExec =
     (let table0 = (case tables (h_statsCache h) physicalID of
                      None \<Rightarrow> newStatsTable physicalID
                    | Some t \<Rightarrow>
                        if historyStatsExec \<noteq> None then newStatsTable physicalID else t);
          table = table0\<lparr>tbl_Pseudo := False\<rparr>
      in case (case historyStatsExec of
                 Some he \<Rightarrow> selectStatsHistograms he physicalID
               | None \<Rightarrow> selectStatsHistograms ex physicalID) of
           Inl err \<Rightarrow> Inr None
         | Inr [] \<Rightarrow> Inr None
         | Inr (row # rows) \<Rightarrow>
             (case histRowsLoop d ex h tblInfo loadAll historyStatsExec (row # rows) table of
                Inl err \<Rightarrow> Inl err
              | Inr t \<Rightarrow> Inr (Some t)))"

subsection \<open>The refresh controller\<close>

text \<open>The loop of \<^verbatim>\<open>Update\<close> over the rows of \<^verbatim>\<open>stats_meta\<close>. Its state is the handle
  (whose partition index the resolver may rebuild), the slices \<open>tables\<close> and
  \<open>deletedTableIDs\<close>, and \<open>lastVersion\<close>.\<close>

fun updateRows ::
  "deps \<Rightarrow> restrictedExec \<Rightarrow> infoSchema \<Rightarrow> metaRow list
     \<Rightarrow> Handle \<times> statsTable list \<times> int64 list \<times> uint64
     \<Rightarrow> Handle \<times> statsTable list \<times> int64 list \<times> uint64" where
  "updateRows d ex isch [] st = st"
| "updateRows d ex isch (row # rows) (h, tbls, deletedTableIDs, lastVersion) =
     (let ver = mr_version row; physicalID = mr_table_id row;
          modifyCount = mr_modify_count row; count = mr_count row;
          (table, h1) = getTableByPhysicalID h isch physicalID
      in case table of
           None \<Rightarrow> updateRows d ex isch rows (h1, tbls, deletedTableIDs @ [physicalID], ver)
         | Some tblInfo \<Rightarrow>
             (case tableStatsFromStorage d ex h1 tblInfo physicalID False None of
                Inl err \<Rightarrow> updateRows d ex isch rows (h1, tbls, deletedTableIDs, ver)
              | Inr None \<Rightarrow>
                  updateRows d ex isch rows (h1, tbls, deletedTableIDs @ [physicalID], ver)
              | Inr (Some tbl) \<Rightarrow>
                  updateRows d ex isch rows
                    (h1,
                     tbls @ [tbl\<lparr>tbl_Version := ver, tbl_Count := count,
                                 tbl_ModifyCount := modifyCount,
                                 tbl_Name := getFullTableName isch tblInfo\<rparr>],
                     deletedTableIDs, ver)))"

text \<open>\<^verbatim>\<open>Update\<close>: the bound of the look-back window, the query on \<^verbatim>\<open>stats_meta\<close> with
  that bound, the loop over its rows, and the publication of the new snapshot.\<close>

definition Update :: "deps \<Rightarrow> restrictedExec \<Rightarrow> Handle \<Rightarrow> infoSchema \<Rightarrow> error option \<times> Handle" where
  "Update d ex h isch =
     (let oldCache = h_statsCache h;
          lastVersion = version oldCache;
          offset = DurationToTS (3 * Lease h);
          lastVersion = (if offset \<le> version oldCache then lastVersion - offset else 0)
      in case selectStatsMeta ex lastVersion of
           Inl err \<Rightarrow> (Some err, h)
         | Inr rows \<Rightarrow>
             (case updateRows d ex isch rows (h, [], [], lastVersion) of
                (h1, tbls, deletedTableIDs, lastVersion1) \<Rightarrow>
                  (None, updateStatsCache h1 (update oldCache tbls deletedTableIDs lastVersion1))))"

subsection \<open>The on-demand loader\<close>

record tableColumnID =
  TableID :: int64
  ColumnID :: int64

text \<open>Modelled from the spec: \<^verbatim>\<open>statistics.HistogramNeededColumns\<close> is not in this
  file. It is a process-wide set of (table ID, column ID) pairs; here it is the list of
  its members, \<^verbatim>\<open>AllCols\<close> returns them and \<^verbatim>\<open>Delete\<close> removes one.\<close>

definition AllCols :: "tableColumnID list \<Rightarrow> tableColumnID list" where
  "AllCols needed = needed"

definition Delete :: "tableColumnID list \<Rightarrow> tableColumnID \<Rightarrow> tableColumnID list" where
  "Delete needed col = removeAll col needed"

text \<open>The loop of \<^verbatim>\<open>LoadNeededHistograms\<close> over the captured requests. Its state is the
  handle and the needed-histogram set.\<close>

fun loadNeededLoop ::
  "deps \<Rightarrow> restrictedExec \<Rightarrow> tableColumnID list \<Rightarrow> Handle \<times> tableColumnID list
     \<Rightarrow> error option \<times> Handle \<times> tableColumnID list" where
  "loadNeededLoop d ex [] (h, needed) = (None, h, needed)"
| "loadNeededLoop d ex (col # cols) (h, needed) =
     (let sc = h_statsCache h
      in case tables sc (TableID col) of
           None \<Rightarrow> loadNeededLoop d ex cols (h, needed)
         | Some tbl \<Rightarrow>
             (case tbl_Columns tbl (ColumnID col) of
                None \<Rightarrow> loadNeededLoop d ex cols (h, Delete needed col)
              | Some c \<Rightarrow>
                  if 0 < col_Len c then loadNeededLoop d ex cols (h, Delete needed col)
                  else
                    (case histogramFromStorage d ex (TableID col) (hg_ID (col_Histogram c))
                            (ci_FieldType (col_Info c)) (hg_NDV (col_Histogram c)) 0
                            (hg_LastUpdateVersion (col_Histogram c))
                            (hg_NullCount (col_Histogram c))
                            (hg_TotColSize (col_Histogram c))
                            (hg_Correlation (col_Histogram c)) None of
                       Inl err \<Rightarrow> (Some err, h, needed)
                     | Inr hg \<Rightarrow>
                         (case cmSketchFromStorage d ex (TableID col) 0 (ColumnID col) None of
                            Inl err \<Rightarrow> (Some err, h, needed)
                          | Inr cms \<Rightarrow>
                              (let tbl1 = tbl\<lparr>tbl_Columns := (tbl_Columns tbl)
                                     (hg_ID (col_Histogram c) \<mapsto>
                                        \<lparr>col_PhysicalID = TableID col,
                                         col_Histogram = hg,
                                         col_Info = col_Info c,
                                         col_CMSketch = cms,
                                         col_Count = int64_of_float64 d (TotalRowCount d hg),
                                         col_IsHandle = col_IsHandle c\<rparr>)\<rparr>;
                                   h1 = updateStatsCache h (update sc [tbl1] [] (version sc))
                               in loadNeededLoop d ex cols (h1, Delete needed col))))))"

definition LoadNeededHistograms ::
  "deps \<Rightarrow> restrictedExec \<Rightarrow> Handle \<times> tableColumnID list
     \<Rightarrow> error option \<times> Handle \<times> tableColumnID list" where
  "LoadNeededHistograms d ex st = loadNeededLoop d ex (AllCols (snd st)) st"

subsection \<open>The writer path\<close>

text \<open>The statements that the writer path sends through \<^verbatim>\<open>Execute\<close>, each with the
  arguments its format string takes (the bucket number is a slice index).\<close>

datatype stmt =
    Begin
  | Commit
  | Rollback
  | ReplaceMeta uint64 int64 int64
  | UpdateMetaVersion uint64 int64
  | ReplaceMetaModify uint64 int64 int64 int64
  | ReplaceHistogram int64 int64 int64 int64 uint64 int64 bytes int64 int64 int64 float64
  | DeleteBuckets int64 int64 int64
  | InsertBucket int64 int64 int64 int int64 int64 bytes bytes

text \<open>The session context of the handle, over a session state \<open>'s\<close>: \<open>Execute\<close> runs
  a statement and returns its error, \<open>Txn\<close> gives the start timestamp of the current
  transaction or an error.\<close>

record 's sqlExecutor =
  Execute :: "'s \<Rightarrow> stmt \<Rightarrow> error option \<times> 's"
  Txn :: "'s \<Rightarrow> error + uint64"

fun execSQLs :: "'s sqlExecutor \<Rightarrow> 's \<Rightarrow> stmt list \<Rightarrow> error option \<times> 's" where
  "execSQLs X s [] = (None, s)"
| "execSQLs X s (sql # sqls) =
     (case Execute X s sql of
        (Some err, s1) \<Rightarrow> (Some err, s1)
      | (None, s1) \<Rightarrow> execSQLs X s1 sqls)"

definition finishTransaction :: "'s sqlExecutor \<Rightarrow> 's \<Rightarrow> error option \<Rightarrow> error option \<times> 's" where
  "finishTransaction X s err =
     (case err of
        None \<Rightarrow> Execute X s Commit
      | Some e \<Rightarrow> (case Execute X s Rollback of (err1, s1) \<Rightarrow> (Some e, s1)))"

definition GetUpper :: "histogram \<Rightarrow> nat \<Rightarrow> datum" where
  "GetUpper hg i = bk_upper (hg_Buckets hg ! i)"

definition GetLower :: "histogram \<Rightarrow> nat \<Rightarrow> datum" where
  "GetLower hg i = bk_lower (hg_Buckets hg ! i)"

text \<open>The loop of \<^verbatim>\<open>SaveStatsToStorage\<close> over the bucket indices, which are all within
  the slice: the count written for a bucket is its count minus that of the bucket
  before it.\<close>

fun bucketLoop ::
  "deps \<Rightarrow> int64 \<Rightarrow> int64 \<Rightarrow> histogram \<Rightarrow> nat list \<Rightarrow> stmt list \<Rightarrow> error + stmt list" where
  "bucketLoop d tableID isIndex hg [] sqls = Inr sqls"
| "bucketLoop d tableID isIndex hg (i # js) sqls =
     (let count = bk_Count (hg_Buckets hg ! i);
          count = (if 0 < i then count - bk_Count (hg_Buckets hg ! (i - 1)) else count)
      in case ConvertToBlob d (GetUpper hg i) of
           Inl err \<Rightarrow> Inl err
         | Inr upperBound \<Rightarrow>
             (case ConvertToBlob d (GetLower hg i) of
                Inl err \<Rightarrow> Inl err
              | Inr lowerBound \<Rightarrow>
                  bucketLoop d tableID isIndex hg js
                    (sqls @ [InsertBucket tableID isIndex (hg_ID hg) (int i) count
                               (bk_Repeat (hg_Buckets hg ! i))
                               (GetBytes lowerBound) (GetBytes upperBound)])))"

text \<open>The part of \<^verbatim>\<open>SaveStatsToStorage\<close> that runs after the deferred call is
  registered; it returns the value of \<open>err\<close> that the deferred call finds.\<close>

definition saveStatsBody ::
  "deps \<Rightarrow> 's sqlExecutor \<Rightarrow> 's \<Rightarrow> int64 \<Rightarrow> int64 \<Rightarrow> int64 \<Rightarrow> histogram \<Rightarrow> cmSketch option
     \<Rightarrow> error option \<times> 's" where
  "saveStatsBody d X s tableID count isIndex hg cms =
     (case Txn X s of
        Inl err \<Rightarrow> (Some err, s)
      | Inr ver \<Rightarrow>
          (let sqls = [if 0 \<le>s count then ReplaceMeta ver tableID count
                       else UpdateMetaVersion ver tableID]
           in case EncodeCMSketch d cms of
                Inl err \<Rightarrow> (Some err, s)
              | Inr data \<Rightarrow>
                  (let sqls = sqls @ [ReplaceHistogram tableID isIndex (hg_ID hg) (hg_NDV hg)
                                        ver (hg_NullCount hg) data (hg_TotColSize hg) 0 0
                                        (hg_Correlation hg)];
                       sqls = sqls @ [DeleteBuckets tableID isIndex (hg_ID hg)]
                   in case bucketLoop d tableID isIndex hg [0..<length (hg_Buckets hg)] sqls of
                        Inl err \<Rightarrow> (Some err, s)
                      | Inr sqls \<Rightarrow> execSQLs X s sqls)))"

definition SaveStatsToStorage ::
  "deps \<Rightarrow> 's sqlExecutor \<Rightarrow> 's \<Rightarrow> int64 \<Rightarrow> int64 \<Rightarrow> int64 \<Rightarrow> histogram \<Rightarrow> cmSketch option
     \<Rightarrow> error option \<times> 's" where
  "SaveStatsToStorage d X s tableID count isIndex hg cms =
     (case Execute X s Begin of
        (Some err, s1) \<Rightarrow> (Some err, s1)
      | (None, s1) \<Rightarrow>
          (case saveStatsBody d X s1 tableID count isIndex hg cms of
             (err, s2) \<Rightarrow> finishTransaction X s2 err))"

definition SaveMetaToStorage ::
  "'s sqlExecutor \<Rightarrow> 's \<Rightarrow> int64 \<Rightarrow> int64 \<Rightarrow> int64 \<Rightarrow> error option \<times> 's" where
  "SaveMetaToStorage X s tableID count modifyCount =
     (case Execute X s Begin of
        (Some err, s1) \<Rightarrow> (Some err, s1)
      | (None, s1) \<Rightarrow>
          (case (case Txn X s1 of
                   Inl err \<Rightarrow> (Some err, s1)
                 | Inr ver \<Rightarrow> Execute X s1 (ReplaceMetaModify ver tableID count modifyCount)) of
             (err, s2) \<Rightarrow> finishTransaction X s2 err))"

subsection \<open>Observing the statements a call executes\<close>

text \<open>An executor that does what \<open>X\<close> does and also records, in order, every
  statement it is given together with the error that \<open>X\<close> returned for it.\<close>

definition logging :: "'s sqlExecutor \<Rightarrow> ('s \<times> (stmt \<times> error option) list) sqlExecutor" where
  "logging X =
     \<lparr>Execute = (\<lambda>sl sql. case Execute X (fst sl) sql of
                             (err, s1) \<Rightarrow> (err, (s1, snd sl @ [(sql, err)]))),
      Txn = (\<lambda>sl. Txn X (fst sl))\<rparr>"

text \<open>The statements that open or close a transaction.\<close>

definition isControl :: "stmt \<Rightarrow> bool" where
  "isControl q = (q = Begin \<or> q = Commit \<or> q = Rollback)"

subsection \<open>The bucket catalog\<close>

text \<open>Modelled from the spec: the SQL engine is not in this file. The spec gives the
  catalog table \<^verbatim>\<open>stats_buckets(table_id, is_index, hist_id, bucket_id, count, repeats,
  lower_bound, upper_bound)\<close>. A session holds the committed rows of that table and,
  inside a transaction, the rows as the transaction sees them. DELETE removes the rows of
  one histogram and INSERT adds a row; the other statements of the writer path are on
  other tables and leave this one as it is. No statement fails.\<close>

record storedBucket =
  sb_table_id :: int64
  sb_is_index :: int64
  sb_hist_id :: int64
  sb_bucket_id :: int
  sb_count :: int64
  sb_repeats :: int64
  sb_lower_bound :: bytes
  sb_upper_bound :: bytes

record session =
  committed :: "storedBucket list"
  pending :: "storedBucket list option"
  startTS :: uint64

definition ofHistogram :: "int64 \<Rightarrow> int64 \<Rightarrow> int64 \<Rightarrow> storedBucket \<Rightarrow> bool" where
  "ofHistogram tableID isIndex histID r =
     (sb_table_id r = tableID \<and> sb_is_index r = isIndex \<and> sb_hist_id r = histID)"

fun applyStmt :: "stmt \<Rightarrow> storedBucket list \<Rightarrow> storedBucket list" where
  "applyStmt (DeleteBuckets tableID isIndex histID) rows =
     filter (\<lambda>r. \<not> ofHistogram tableID isIndex histID r) rows"
| "applyStmt (InsertBucket tableID isIndex histID bucketID count repeats lower upper) rows =
     rows @ [\<lparr>sb_table_id = tableID, sb_is_index = isIndex, sb_hist_id = histID,
              sb_bucket_id = bucketID, sb_count = count, sb_repeats = repeats,
              sb_lower_bound = lower, sb_upper_bound = upper\<rparr>]"
| "applyStmt _ rows = rows"

fun sessionExecute :: "session \<Rightarrow> stmt \<Rightarrow> error option \<times> session" where
  "sessionExecute s Begin =
     (case pending s of
        None \<Rightarrow> (None, s\<lparr>pending := Some (committed s)\<rparr>)
      | Some rows \<Rightarrow> (None, s\<lparr>committed := rows, pending := Some rows\<rparr>))"
| "sessionExecute s Commit =
     (case pending s of
        None \<Rightarrow> (None, s)
      | Some rows \<Rightarrow> (None, s\<lparr>committed := rows, pending := None\<rparr>))"
| "sessionExecute s Rollback = (None, s\<lparr>pending := None\<rparr>)"
| "sessionExecute s sql =
     (case pending s of
        None \<Rightarrow> (None, s\<lparr>committed := applyStmt sql (committed s)\<rparr>)
      | Some rows \<Rightarrow> (None, s\<lparr>pending := Some (applyStmt sql rows)\<rparr>))"

definition sessionExecutor :: "session sqlExecutor" where
  "sessionExecutor = \<lparr>Execute = sessionExecute, Txn = (\<lambda>s. Inr (startTS s))\<rparr>"

definition toBucketRow :: "storedBucket \<Rightarrow> bucketRow" where
  "toBucketRow r = \<lparr>br_count = sb_count r, br_repeats = sb_repeats r,
                    br_lower_bound = sb_lower_bound r, br_upper_bound = sb_upper_bound r\<rparr>"

text \<open>The two queries on \<^verbatim>\<open>stats_buckets\<close> over the committed rows: the rows of one
  histogram ordered by \<^verbatim>\<open>bucket_id\<close>, and the sum of the counts of a column's rows,
  which is SQL NULL when there is no row. The other three queries are on other tables and
  are answered by \<open>base\<close>.\<close>

definition catalogExec :: "restrictedExec \<Rightarrow> storedBucket list \<Rightarrow> restrictedExec" where
  "catalogExec base rows =
     base\<lparr>selectStatsBuckets := (\<lambda>tableID isIndex histID.
             Inr (map toBucketRow
                    (sort_key sb_bucket_id (filter (ofHistogram tableID isIndex histID) rows)))),
          selectSumCount := (\<lambda>tableID histID.
             (let rs = filter (ofHistogram tableID 0 histID) rows
              in if rs = [] then Inr None
                 else Inr (Some (sum_list (map (\<lambda>r. sint (sb_count r)) rs)))))\<rparr>"

subsection \<open>The bucket counts as the spec states them\<close>

text \<open>Following the spec: for cumulative counts \<open>c1, c2, ..., cn\<close> the stored counts
  are \<open>c1, c2 - c1, ..., cn - c(n-1)\<close>.\<close>

definition specDeltas :: "int64 list \<Rightarrow> int64 list" where
  "specDeltas cs = map (\<lambda>i. if i = 0 then cs ! 0 else cs ! i - cs ! (i - 1)) [0..<length cs]"

text \<open>The INSERT statement that \<open>bucketLoop\<close> builds for bucket \<open>j\<close> when both bounds
  convert, and the row that the statement adds to the catalog.\<close>

definition bucketInsert :: "deps \<Rightarrow> int64 \<Rightarrow> int64 \<Rightarrow> histogram \<Rightarrow> nat \<Rightarrow> stmt" where
  "bucketInsert d tableID isIndex hg j =
     InsertBucket tableID isIndex (hg_ID hg) (int j)
       (if 0 < j then bk_Count (hg_Buckets hg ! j) - bk_Count (hg_Buckets hg ! (j - 1))
        else bk_Count (hg_Buckets hg ! j))
       (bk_Repeat (hg_Buckets hg ! j))
       (GetBytes (projr (ConvertToBlob d (GetLower hg j))))
       (GetBytes (projr (ConvertToBlob d (GetUpper hg j))))"

definition storedOf :: "deps \<Rightarrow> int64 \<Rightarrow> int64 \<Rightarrow> histogram \<Rightarrow> nat \<Rightarrow> storedBucket" where
  "storedOf d tableID isIndex hg j =
     \<lparr>sb_table_id = tableID, sb_is_index = isIndex, sb_hist_id = hg_ID hg,
      sb_bucket_id = int j,
      sb_count = (if 0 < j then bk_Count (hg_Buckets hg ! j) - bk_Count (hg_Buckets hg ! (j - 1))
                  else bk_Count (hg_Buckets hg ! j)),
      sb_repeats = bk_Repeat (hg_Buckets hg ! j),
      sb_lower_bound = GetBytes (projr (ConvertToBlob d (GetLower hg j))),
      sb_upper_bound = GetBytes (projr (ConvertToBlob d (GetUpper hg j)))\<rparr>"

subsection \<open>Well-formed snapshots\<close>

text \<open>Every table of a snapshot is stored under its own physical ID. The empty snapshot
  is so, and \<open>update\<close>, which stores each table under its physical ID, keeps it so.\<close>

definition wfCache :: "statsCache \<Rightarrow> bool" where
  "wfCache sc = (\<forall>k t. tables sc k = Some t \<longrightarrow> tbl_PhysicalID t = k)"

subsection \<open>Concrete inputs\<close>

definition cacheAt :: "uint64 \<Rightarrow> statsCache" where
  "cacheAt v = \<lparr>tables = Map.empty, version = v\<rparr>"

definition exampleDeps :: deps where
  "exampleDeps =
     \<lparr>DecodeCMSketch = (\<lambda>b. Inr (Some (CMSketch b))),
      EncodeCMSketch = (\<lambda>c. case c of None \<Rightarrow> Inr [] | Some (CMSketch b) \<Rightarrow> Inr b),
      ConvertToBlob = (\<lambda>x. Inr x),
      ConvertTo = (\<lambda>tp x. Inr x),
      TotalRowCount = (\<lambda>hg. Float64 (hg_NullCount hg +
                         (case hg_Buckets hg of [] \<Rightarrow> 0 | b # bs \<Rightarrow> bk_Count (last (b # bs))))),
      int64_of_float64 = (\<lambda>f. case f of Float64 w \<Rightarrow> w),
      pseudoDefaults = (\<lambda>tblInfo. newStatsTable (ti_ID tblInfo))\<rparr>"

definition emptyExec :: restrictedExec where
  "emptyExec =
     \<lparr>selectStatsMeta = (\<lambda>since. Inr []),
      selectStatsHistograms = (\<lambda>tableID. Inr []),
      selectCMSketch = (\<lambda>tableID isIndex histID. Inr []),
      selectStatsBuckets = (\<lambda>tableID isIndex histID. Inr []),
      selectSumCount = (\<lambda>tableID histID. Inr None)\<rparr>"

definition exampleTableInfo :: "int64 \<Rightarrow> tableInfo" where
  "exampleTableInfo tid =
     \<lparr>ti_ID = tid, ti_Name = ''t'',
      ti_Columns = [\<lparr>ci_ID = 1, ci_Name = ''a'', ci_FieldType = \<lparr>ft_Tp = 8\<rparr>, ci_Flag = 0\<rparr>],
      ti_Indices = [], ti_PKIsHandle = False, ti_PartitionInfo = None\<rparr>"

definition leaseHandle :: Handle where
  "leaseHandle = (NewHandle 3000000)\<lparr>h_statsCache := cacheAt 10000000\<rparr>"

definition emptySchema :: infoSchema where
  "emptySchema = \<lparr>SchemaMetaVersion = 0, AllSchemas = [], TableByID = (\<lambda>i. None),
                   TableByName = (\<lambda>a b. None)\<rparr>"

definition metaRowAt :: "uint64 \<Rightarrow> int64 \<Rightarrow> metaRow" where
  "metaRowAt v tid = \<lparr>mr_version = v, mr_table_id = tid, mr_modify_count = 0, mr_count = 0\<rparr>"

definition twoTableSchema :: infoSchema where
  "twoTableSchema =
     \<lparr>SchemaMetaVersion = 1,
      AllSchemas = [\<lparr>db_Name = ''test'',
                     db_Tables = [exampleTableInfo 7, exampleTableInfo 9]\<rparr>],
      TableByID = (\<lambda>i. if i = 7 \<or> i = 9 then Some (exampleTableInfo i) else None),
      TableByName = (\<lambda>db name. None)\<rparr>"

definition coldStartExec :: restrictedExec where
  "coldStartExec =
     emptyExec\<lparr>selectStatsMeta :=
       (\<lambda>since. Inr (filter (\<lambda>r. since < mr_version r) [metaRowAt 100 7, metaRowAt 200 9]))\<rparr>"

definition warmHandle :: Handle where
  "warmHandle =
     (NewHandle 0)\<lparr>h_statsCache :=
        \<lparr>tables = [7 \<mapsto> (newStatsTable 7)\<lparr>tbl_Version := 50\<rparr>], version = 50\<rparr>\<rparr>"

definition failingCatalogExec :: restrictedExec where
  "failingCatalogExec =
     emptyExec\<lparr>selectStatsMeta :=
                 (\<lambda>since. Inr (filter (\<lambda>r. since < mr_version r) [metaRowAt 300 7])),
               selectStatsHistograms := (\<lambda>tableID. Inl (Error ''read failed''))\<rparr>"

definition failBeginExecutor :: "unit sqlExecutor" where
  "failBeginExecutor =
     \<lparr>Execute = (\<lambda>s sql. (if sql = Begin then Some (Error ''begin failed'') else None, s)),
      Txn = (\<lambda>s. Inr 1)\<rparr>"

definition exampleHistogram :: histogram where
  "exampleHistogram =
     \<lparr>hg_ID = 1, hg_NDV = 3, hg_NullCount = 0, hg_LastUpdateVersion = 0,
      hg_Tp = \<lparr>ft_Tp = 8\<rparr>,
      hg_Buckets =
        [\<lparr>bk_lower = BytesDatum [1], bk_upper = BytesDatum [2], bk_Count = 10, bk_Repeat = 1\<rparr>,
         \<lparr>bk_lower = BytesDatum [3], bk_upper = BytesDatum [4], bk_Count = 25, bk_Repeat = 2\<rparr>,
         \<lparr>bk_lower = BytesDatum [5], bk_upper = BytesDatum [6], bk_Count = 40, bk_Repeat = 3\<rparr>],
      hg_TotColSize = 0, hg_Correlation = Float64 0\<rparr>"

definition failInsertExecutor :: "unit sqlExecutor" where
  "failInsertExecutor =
     \<lparr>Execute = (\<lambda>s sql.
         (case sql of
            InsertBucket t i h b c r lo up \<Rightarrow>
              if b = 1 then Some (Error ''insert failed'') else None
          | Rollback \<Rightarrow> Some (Error ''rollback failed'')
          | _ \<Rightarrow> None, s)),
      Txn = (\<lambda>s. Inr 42)\<rparr>"

definition failTxnExecutor :: "unit sqlExecutor" where
  "failTxnExecutor =
     \<lparr>Execute = (\<lambda>s sql. (None, s)), Txn = (\<lambda>s. Inl (Error ''no transaction''))\<rparr>"

definition okExecutor :: "unit sqlExecutor" where
  "okExecutor = \<lparr>Execute = (\<lambda>s sql. (None, s)), Txn = (\<lambda>s. Inr 42)\<rparr>"

definition failEncodeDeps :: deps where
  "failEncodeDeps = exampleDeps\<lparr>EncodeCMSketch := (\<lambda>c. Inl (Error ''encode failed''))\<rparr>"

definition failConvertDeps :: deps where
  "failConvertDeps =
     exampleDeps\<lparr>ConvertToBlob :=
       (\<lambda>x. if x = BytesDatum [3] then Inl (Error ''convert failed'') else Inr x)\<rparr>"

definition staleSession :: session where
  "staleSession =
     \<lparr>committed =
        [\<lparr>sb_table_id = 5, sb_is_index = 0, sb_hist_id = 1, sb_bucket_id = 0,
          sb_count = 99, sb_repeats = 9, sb_lower_bound = [0], sb_upper_bound = [9]\<rparr>,
         \<lparr>sb_table_id = 6, sb_is_index = 0, sb_hist_id = 1, sb_bucket_id = 0,
          sb_count = 7, sb_repeats = 1, sb_lower_bound = [0], sb_upper_bound = [1]\<rparr>],
      pending = None, startTS = 42\<rparr>"


definition exampleHistRow :: histRow where
  "exampleHistRow =
     \<lparr>hr_table_id = 5, hr_is_index = 0, hr_hist_id = 1, hr_distinct_count = 3,
      hr_version = 42, hr_null_count = 2, hr_tot_col_size = 0, hr_correlation = Float64 0\<rparr>"







definition decodeErrorExec :: restrictedExec where
  "decodeErrorExec =
     emptyExec\<lparr>selectStatsMeta :=
                 (\<lambda>since. Inr (filter (\<lambda>r. since < mr_version r)
                                 [metaRowAt 300 7, metaRowAt 400 9])),
               selectStatsHistograms := (\<lambda>tableID. Inr [exampleHistRow\<lparr>hr_table_id := tableID\<rparr>]),
               selectStatsBuckets := (\<lambda>tableID isIndex histID.
                 if tableID = 7 then Inl (Error ''read failed'') else Inr [])\<rparr>"

section \<open>Properties\<close>

subsection \<open>Publication\<close>

lemma version_updateStatsCache_mono:
  "version (h_statsCache h) \<le> version (h_statsCache (updateStatsCache h c))"
  by (simp add: updateStatsCache_def Let_def)

lemma version_publishAll_mono:
  "version (h_statsCache h) \<le> version (h_statsCache (publishAll h cs))"
proof (induction cs arbitrary: h)
  case Nil
  show ?case by (simp add: publishAll_def)
next
  case (Cons c cs)
  have "version (h_statsCache h) \<le> version (h_statsCache (updateStatsCache h c))"
    by (rule version_updateStatsCache_mono)
  also have "\<dots> \<le> version (h_statsCache (publishAll (updateStatsCache h c) cs))"
    by (rule Cons.IH)
  finally show ?case by (simp add: publishAll_def)
qed

lemma publishAll_append:
  "publishAll h (xs @ ys) = publishAll (publishAll h xs) ys"
  by (simp add: publishAll_def)

lemma publishAll_take_Suc:
  "i < length cs \<Longrightarrow>
   publishAll h (take (Suc i) cs) = updateStatsCache (publishAll h (take i cs)) (cs ! i)"
  by (simp add: publishAll_def take_Suc_conv_app_nth)

lemma updateStatsCache_installs:
  "version (h_statsCache h) \<le> version c \<Longrightarrow> h_statsCache (updateStatsCache h c) = c"
  by (simp add: updateStatsCache_def Let_def)

lemma updateStatsCache_rejects:
  "version c < version (h_statsCache h) \<Longrightarrow> updateStatsCache h c = h"
  by (simp add: updateStatsCache_def Let_def)

text \<open>
  C3. A call of \<open>updateStatsCache\<close> on handle \<open>g\<close> installs the candidate \<open>c\<close> if and
  only if the candidate's version is at least the current snapshot's version, and
  otherwise leaves the handle as it is. In a run of publications \<open>cs\<close> from handle \<open>h\<close>,
  if the publications number \<open>i\<close> and \<open>j\<close> (\<open>i\<close> before \<open>j\<close>) both succeed, then the
  snapshots they install are \<open>cs ! i\<close> and \<open>cs ! j\<close>, and the version of the later is at
  least the version of the earlier.
\<close>

theorem publication_monotone:
  assumes "i < j" and "j < length cs"
    and "version (h_statsCache (publishAll h (take i cs))) \<le> version (cs ! i)"
    and "version (h_statsCache (publishAll h (take j cs))) \<le> version (cs ! j)"
  shows "(h_statsCache (updateStatsCache g c) = c \<longleftrightarrow> version (h_statsCache g) \<le> version c)
       \<and> (\<not> version (h_statsCache g) \<le> version c \<longrightarrow> updateStatsCache g c = g)
       \<and> h_statsCache (publishAll h (take (Suc i) cs)) = cs ! i
       \<and> h_statsCache (publishAll h (take (Suc j) cs)) = cs ! j
       \<and> version (cs ! i) \<le> version (cs ! j)"
proof -
  have iff: "h_statsCache (updateStatsCache g c) = c \<longleftrightarrow> version (h_statsCache g) \<le> version c"
  proof
    assume "h_statsCache (updateStatsCache g c) = c"
    then show "version (h_statsCache g) \<le> version c"
      by (cases "version (h_statsCache g) \<le> version c") (auto simp: updateStatsCache_def Let_def)
  next
    assume "version (h_statsCache g) \<le> version c"
    then show "h_statsCache (updateStatsCache g c) = c" by (rule updateStatsCache_installs)
  qed
  have rej: "\<not> version (h_statsCache g) \<le> version c \<longrightarrow> updateStatsCache g c = g"
    by (simp add: updateStatsCache_def Let_def)
  from assms have i_len: "i < length cs" by simp
  have at_i: "h_statsCache (publishAll h (take (Suc i) cs)) = cs ! i"
    using assms(3) by (simp add: publishAll_take_Suc [OF i_len] updateStatsCache_installs)
  have at_j: "h_statsCache (publishAll h (take (Suc j) cs)) = cs ! j"
    using assms(4) by (simp add: publishAll_take_Suc [OF assms(2)] updateStatsCache_installs)
  have split: "take j cs = take (Suc i) cs @ drop (Suc i) (take j cs)"
    using assms(1) by (metis Suc_leI append_take_drop_id min.absorb2 take_take min.commute)
  have "version (cs ! i) = version (h_statsCache (publishAll h (take (Suc i) cs)))"
    by (simp add: at_i)
  also have "\<dots> \<le> version (h_statsCache (publishAll (publishAll h (take (Suc i) cs))
                          (drop (Suc i) (take j cs))))"
    by (rule version_publishAll_mono)
  also have "\<dots> = version (h_statsCache (publishAll h (take j cs)))"
    using split publishAll_append by metis
  also have "\<dots> \<le> version (cs ! j)" by (rule assms(4))
  finally have "version (cs ! i) \<le> version (cs ! j)" .
  with iff rej at_i at_j show ?thesis by blast
qed

theorem publication_monotone_witness:
  "version (cacheAt 5) \<le> version (cacheAt 7)
   \<and> h_statsCache (publishAll (NewHandle 0) (take 3 [cacheAt 5, cacheAt 3, cacheAt 7])) = cacheAt 7
   \<and> h_statsCache (updateStatsCache (NewHandle 0) (cacheAt 5)) = cacheAt 5"
  using publication_monotone [of 0 2 "[cacheAt 5, cacheAt 3, cacheAt 7]" "NewHandle 0"
      "NewHandle 0" "cacheAt 5"]
  by (simp add: publishAll_def updateStatsCache_def cacheAt_def NewHandle_def emptyCache_def)

text \<open>
  C10. If \<open>SetLastUpdateVersion\<close> is called with a version strictly below the current
  snapshot's version, the candidate is rejected by the version check of
  \<open>updateStatsCache\<close>: the handle, and so the tables and the version of the installed
  snapshot, are unchanged.
\<close>

theorem SetLastUpdateVersion_lower_is_noop:
  assumes "v < version (h_statsCache h)"
  shows "SetLastUpdateVersion h v = h
       \<and> tables (h_statsCache (SetLastUpdateVersion h v)) = tables (h_statsCache h)
       \<and> version (h_statsCache (SetLastUpdateVersion h v)) = version (h_statsCache h)
       \<and> LastUpdateVersion (SetLastUpdateVersion h v) = LastUpdateVersion h"
proof -
  have "version (update (h_statsCache h) [] [] v) = v" by (simp add: update_def)
  with assms have "SetLastUpdateVersion h v = h"
    by (simp add: SetLastUpdateVersion_def Let_def updateStatsCache_rejects)
  then show ?thesis by simp
qed

theorem SetLastUpdateVersion_lower_is_noop_witness:
  "(3::uint64) < version (h_statsCache (NewHandle 0\<lparr>h_statsCache := cacheAt 8\<rparr>))
   \<and> LastUpdateVersion (SetLastUpdateVersion (NewHandle 0\<lparr>h_statsCache := cacheAt 8\<rparr>) 3) = 8"
  using SetLastUpdateVersion_lower_is_noop [of 3 "NewHandle 0\<lparr>h_statsCache := cacheAt 8\<rparr>"]
  by (simp add: cacheAt_def LastUpdateVersion_def)

subsection \<open>Pseudo statistics\<close>

text \<open>
  C9. When the current snapshot has no entry for the physical ID \<open>pid\<close>,
  \<open>GetPartitionStats\<close> returns the pseudo table synthesized from the table metadata with
  its physical ID set to \<open>pid\<close>, and publishes it: the new snapshot is the old one
  updated with that table at the old version, so its version is unchanged, it holds the
  returned table (with \<open>Pseudo\<close> true and physical ID \<open>pid\<close>) under \<open>pid\<close>, and every
  other entry is as before.
\<close>

theorem GetPartitionStats_pseudo:
  assumes "tables (h_statsCache h) pid = None"
  shows "fst (GetPartitionStats d h tblInfo pid) = (PseudoTable d tblInfo)\<lparr>tbl_PhysicalID := pid\<rparr>
       \<and> tbl_Pseudo (fst (GetPartitionStats d h tblInfo pid))
       \<and> tbl_PhysicalID (fst (GetPartitionStats d h tblInfo pid)) = pid
       \<and> h_statsCache (snd (GetPartitionStats d h tblInfo pid)) =
           update (h_statsCache h) [fst (GetPartitionStats d h tblInfo pid)] []
             (version (h_statsCache h))
       \<and> version (h_statsCache (snd (GetPartitionStats d h tblInfo pid))) = version (h_statsCache h)
       \<and> tables (h_statsCache (snd (GetPartitionStats d h tblInfo pid))) pid =
           Some (fst (GetPartitionStats d h tblInfo pid))
       \<and> (\<forall>k. k \<noteq> pid \<longrightarrow>
             tables (h_statsCache (snd (GetPartitionStats d h tblInfo pid))) k =
             tables (h_statsCache h) k)"
  using assms
  by (simp add: GetPartitionStats_def Let_def PseudoTable_def updateStatsCache_def update_def)

theorem GetPartitionStats_pseudo_witness:
  "tables (h_statsCache (NewHandle 0)) 7 = None
   \<and> tbl_Pseudo (fst (GetPartitionStats exampleDeps (NewHandle 0) (exampleTableInfo 5) 7))
   \<and> tbl_PhysicalID (fst (GetPartitionStats exampleDeps (NewHandle 0) (exampleTableInfo 5) 7)) = 7
   \<and> version (h_statsCache (snd (GetPartitionStats exampleDeps (NewHandle 0) (exampleTableInfo 5) 7)))
       = version (h_statsCache (NewHandle 0))"
proof -
  have absent: "tables (h_statsCache (NewHandle 0)) 7 = None"
    by (simp add: NewHandle_def emptyCache_def)
  from GetPartitionStats_pseudo [OF absent, of exampleDeps "exampleTableInfo 5"] absent
  show ?thesis by blast
qed

subsection \<open>The on-demand loader and unknown tables\<close>

text \<open>
  C8, as stated, fails: with an empty snapshot and the request (table 7, column 1) in the
  needed-histogram set, \<open>LoadNeededHistograms\<close> returns with the request still in the
  set.
\<close>

theorem LoadNeededHistograms_keeps_request_counterexample:
  "tables (h_statsCache (NewHandle 0)) 7 = None
   \<and> LoadNeededHistograms exampleDeps emptyExec
        (NewHandle 0, [\<lparr>TableID = 7, ColumnID = 1\<rparr>])
      = (None, NewHandle 0, [\<lparr>TableID = 7, ColumnID = 1\<rparr>])"
  by (simp add: LoadNeededHistograms_def AllCols_def NewHandle_def emptyCache_def)

text \<open>
  C8, amended. When the current snapshot has no entry for the table of a request, the
  loop of \<open>LoadNeededHistograms\<close> goes on to the next request with the handle and the
  needed-histogram set as they were: the request is not dropped, it stays in the set. A
  call whose only request is such a one returns no error and changes nothing.
\<close>

theorem LoadNeededHistograms_unknown_table:
  assumes "tables (h_statsCache h) (TableID col) = None"
  shows "loadNeededLoop d ex (col # cols) (h, needed) = loadNeededLoop d ex cols (h, needed)
       \<and> LoadNeededHistograms d ex (h, [col]) = (None, h, [col])"
  using assms by (simp add: LoadNeededHistograms_def AllCols_def)

theorem LoadNeededHistograms_unknown_table_witness:
  "tables (h_statsCache (NewHandle 0)) (TableID \<lparr>TableID = 7, ColumnID = 1\<rparr>) = None
   \<and> LoadNeededHistograms exampleDeps emptyExec (NewHandle 0, [\<lparr>TableID = 7, ColumnID = 1\<rparr>])
       = (None, NewHandle 0, [\<lparr>TableID = 7, ColumnID = 1\<rparr>])"
proof -
  have absent: "tables (h_statsCache (NewHandle 0)) (TableID \<lparr>TableID = 7, ColumnID = 1\<rparr>) = None"
    by (simp add: NewHandle_def emptyCache_def)
  from LoadNeededHistograms_unknown_table [OF absent, of exampleDeps emptyExec] absent
  show ?thesis by blast
qed

subsection \<open>The look-back window of the refresh\<close>

lemma lookback_as_max:
  fixes high offset :: uint64
  shows "uint (if offset \<le> high then high - offset else 0) = max (uint high - uint offset) 0"
proof (cases "offset \<le> high")
  case True
  then have "uint offset \<le> uint high" by (simp add: word_le_def)
  then have "uint (high - offset) = uint high - uint offset"
    by (simp add: uint_sub_lem)
  with True \<open>uint offset \<le> uint high\<close> show ?thesis by simp
next
  case False
  then have "uint high < uint offset" by (simp add: word_le_def)
  with False show ?thesis by simp
qed

lemma cmSketchFromStorage_meta_indep:
  "cmSketchFromStorage d (ex\<lparr>selectStatsMeta := f\<rparr>) t i c he = cmSketchFromStorage d ex t i c he"
  by (cases he) (simp_all add: cmSketchFromStorage_def)

lemma histogramFromStorage_meta_indep:
  "histogramFromStorage d (ex\<lparr>selectStatsMeta := f\<rparr>) t c tp n i v nc ts co he =
   histogramFromStorage d ex t c tp n i v nc ts co he"
  by (cases he) (simp_all add: histogramFromStorage_def)

lemma columnCountFromStorage_meta_indep:
  "columnCountFromStorage (ex\<lparr>selectStatsMeta := f\<rparr>) t c = columnCountFromStorage ex t c"
  by (simp add: columnCountFromStorage_def)

lemma indexLoop_meta_indep:
  "indexLoop d (ex\<lparr>selectStatsMeta := f\<rparr>) row table he infos idx =
   indexLoop d ex row table he infos idx"
  by (induction infos)
     (simp_all add: Let_def histogramFromStorage_meta_indep cmSketchFromStorage_meta_indep
        cong: sum.case_cong)

lemma indexStatsFromStorage_meta_indep:
  "indexStatsFromStorage d (ex\<lparr>selectStatsMeta := f\<rparr>) row table tblInfo he =
   indexStatsFromStorage d ex row table tblInfo he"
  by (simp add: indexStatsFromStorage_def indexLoop_meta_indep)

lemma columnLoop_meta_indep:
  "columnLoop d (ex\<lparr>selectStatsMeta := f\<rparr>) h row table tblInfo loadAll he infos col =
   columnLoop d ex h row table tblInfo loadAll he infos col"
  by (induction infos)
     (simp_all add: Let_def histogramFromStorage_meta_indep cmSketchFromStorage_meta_indep
        columnCountFromStorage_meta_indep cong: sum.case_cong)

lemma columnStatsFromStorage_meta_indep:
  "columnStatsFromStorage d (ex\<lparr>selectStatsMeta := f\<rparr>) h row table tblInfo loadAll he =
   columnStatsFromStorage d ex h row table tblInfo loadAll he"
  by (simp add: columnStatsFromStorage_def columnLoop_meta_indep)

lemma histRowsLoop_meta_indep:
  "histRowsLoop d (ex\<lparr>selectStatsMeta := f\<rparr>) h tblInfo loadAll he rows table =
   histRowsLoop d ex h tblInfo loadAll he rows table"
  by (induction rows arbitrary: table)
     (simp_all add: indexStatsFromStorage_meta_indep columnStatsFromStorage_meta_indep
        cong: sum.case_cong)

lemma tableStatsFromStorage_meta_indep:
  "tableStatsFromStorage d (ex\<lparr>selectStatsMeta := f\<rparr>) h tblInfo pid loadAll he =
   tableStatsFromStorage d ex h tblInfo pid loadAll he"
  by (cases he)
     (simp_all add: tableStatsFromStorage_def Let_def histRowsLoop_meta_indep
        del: histRowsLoop.simps cong: sum.case_cong list.case_cong)

lemma updateRows_meta_indep:
  "updateRows d (ex\<lparr>selectStatsMeta := f\<rparr>) isch rows st = updateRows d ex isch rows st"
proof (induction rows arbitrary: st)
  case Nil
  show ?case by simp
next
  case (Cons row rows)
  obtain h tbls del lv where st: "st = (h, tbls, del, lv)" by (cases st)
  show ?case
    unfolding st
    by (simp add: Let_def tableStatsFromStorage_meta_indep Cons.IH
             split: prod.splits option.splits sum.splits)
qed

text \<open>
  C6. With \<open>high\<close> the version of the current snapshot, the offset that \<open>Update\<close>
  computes is \<open>ComposeTS\<close> of three times the lease in whole milliseconds and 0, that is
  \<open>((3 * lease) / 1000000) << 18 | 0\<close> in 64-bit arithmetic with Go's truncating
  division, and the bound \<open>since\<close> is \<open>high - offset\<close> when \<open>high \<ge> offset\<close> and 0
  otherwise, which as a number is \<open>max (high - offset) 0\<close>. \<open>Update\<close> queries
  \<^verbatim>\<open>stats_meta\<close> for the rows with version greater than \<open>since\<close>: an error of that query
  is returned, its rows are the ones processed, and the answers that the executor would
  give for any other bound do not matter.
\<close>

theorem Update_lookback_window:
  assumes "high = version (h_statsCache h)"
    and "offset = DurationToTS (3 * Lease h)"
    and "since = (if offset \<le> high then high - offset else 0)"
  shows "offset = ComposeTS (int64_div (3 * lease h) 1000000) 0
       \<and> offset = (push_bit 18 (word_of_int (sint (3 * lease h) sdiv 1000000))) OR 0
       \<and> uint since = max (uint high - uint offset) 0
       \<and> (\<forall>err. selectStatsMeta ex since = Inl err \<longrightarrow> Update d ex h isch = (Some err, h))
       \<and> (\<forall>rows. selectStatsMeta ex since = Inr rows \<longrightarrow>
            Update d ex h isch =
              (case updateRows d ex isch rows (h, [], [], since) of
                 (h1, tbls, deletedTableIDs, lastVersion1) \<Rightarrow>
                   (None, updateStatsCache h1
                            (update (h_statsCache h) tbls deletedTableIDs lastVersion1))))
       \<and> (\<forall>f. f since = selectStatsMeta ex since \<longrightarrow>
            Update d (ex\<lparr>selectStatsMeta := f\<rparr>) h isch = Update d ex h isch)"
proof -
  have o1: "offset = ComposeTS (int64_div (3 * lease h) 1000000) 0"
    by (simp add: assms(2) DurationToTS_def Lease_def)
  have o2: "offset = (push_bit 18 (word_of_int (sint (3 * lease h) sdiv 1000000))) OR 0"
    by (simp add: o1 ComposeTS_def int64_div_def)
  have m: "uint since = max (uint high - uint offset) 0"
    unfolding assms(3) by (rule lookback_as_max)
  have e: "\<forall>err. selectStatsMeta ex since = Inl err \<longrightarrow> Update d ex h isch = (Some err, h)"
    using assms by (simp add: Update_def Let_def)
  have r: "\<forall>rows. selectStatsMeta ex since = Inr rows \<longrightarrow>
            Update d ex h isch =
              (case updateRows d ex isch rows (h, [], [], since) of
                 (h1, tbls, deletedTableIDs, lastVersion1) \<Rightarrow>
                   (None, updateStatsCache h1
                            (update (h_statsCache h) tbls deletedTableIDs lastVersion1)))"
    using assms by (simp add: Update_def Let_def)
  have i: "\<forall>f. f since = selectStatsMeta ex since \<longrightarrow>
            Update d (ex\<lparr>selectStatsMeta := f\<rparr>) h isch = Update d ex h isch"
    using assms by (simp add: Update_def Let_def updateRows_meta_indep cong: sum.case_cong)
  from o1 o2 m e r i show ?thesis by blast
qed

theorem Update_lookback_window_witness:
  "(10000000::uint64) = version (h_statsCache leaseHandle)
   \<and> (2359296::uint64) = DurationToTS (3 * Lease leaseHandle)
   \<and> (7640704::uint64) = (if (2359296::uint64) \<le> 10000000 then 10000000 - 2359296 else 0)
   \<and> uint (7640704::uint64) = max (uint (10000000::uint64) - uint (2359296::uint64)) 0
   \<and> Update exampleDeps (emptyExec\<lparr>selectStatsMeta := (\<lambda>v. if v = 7640704 then Inr [] else Inl (Error []))\<rparr>) leaseHandle
        emptySchema
       = Update exampleDeps emptyExec leaseHandle emptySchema"
proof -
  have a: "(10000000::uint64) = version (h_statsCache leaseHandle)"
    by (simp add: leaseHandle_def cacheAt_def)
  have b: "(2359296::uint64) = DurationToTS (3 * Lease leaseHandle)"
    by (simp add: leaseHandle_def NewHandle_def Lease_def DurationToTS_def ComposeTS_def
          int64_div_def signed_divide_int_def)
  have c: "(7640704::uint64) = (if (2359296::uint64) \<le> 10000000 then 10000000 - 2359296 else 0)"
    by simp
  have e: "(\<lambda>v. if v = 7640704 then Inr [] else Inl (Error [])) (7640704::uint64) = selectStatsMeta emptyExec 7640704"
    by (simp add: emptyExec_def)
  note T = Update_lookback_window [OF a b c, of emptyExec exampleDeps emptySchema]
  from T have m: "uint (7640704::uint64) = max (uint (10000000::uint64) - uint (2359296::uint64)) 0"
    by blast
  from T have ind: "\<And>f. f 7640704 = selectStatsMeta emptyExec 7640704 \<Longrightarrow>
      Update exampleDeps (emptyExec\<lparr>selectStatsMeta := f\<rparr>) leaseHandle emptySchema
       = Update exampleDeps emptyExec leaseHandle emptySchema"
    by blast
  from a b c m ind [of "\<lambda>v. if v = 7640704 then Inr [] else Inl (Error [])", OF e] show ?thesis by blast
qed

subsection \<open>The refresh: tables without histogram rows, and read errors\<close>

lemma statsCache_getTableByPhysicalID:
  "h_statsCache (snd (getTableByPhysicalID h isch pid)) = h_statsCache h"
  by (simp add: getTableByPhysicalID_def Let_def split: option.splits)

lemma lease_getTableByPhysicalID:
  "lease (snd (getTableByPhysicalID h isch pid)) = lease h"
  by (simp add: getTableByPhysicalID_def Let_def split: option.splits)

lemma tableStatsFromStorage_no_rows:
  "selectStatsHistograms ex pid = Inr [] \<Longrightarrow>
   tableStatsFromStorage d ex h tblInfo pid loadAll None = Inr None"
  by (simp add: tableStatsFromStorage_def Let_def)

lemma tableStatsFromStorage_query_error:
  "selectStatsHistograms ex pid = Inl err \<Longrightarrow>
   tableStatsFromStorage d ex h tblInfo pid loadAll None = Inr None"
  by (simp add: tableStatsFromStorage_def Let_def)

lemma updateRows_no_histogram_rows:
  assumes "selectStatsHistograms ex (mr_table_id row) = Inr []"
  shows "updateRows d ex isch (row # rows) (h, tbls, del, lv) =
         updateRows d ex isch rows
           (snd (getTableByPhysicalID h isch (mr_table_id row)), tbls,
            del @ [mr_table_id row], mr_version row)"
proof (cases "getTableByPhysicalID h isch (mr_table_id row)")
  case (Pair t h1)
  then show ?thesis
    using assms by (cases t) (simp_all add: tableStatsFromStorage_no_rows)
qed

lemma updateRows_read_error_skips:
  assumes "getTableByPhysicalID h isch (mr_table_id row) = (Some tblInfo, h1)"
    and "tableStatsFromStorage d ex h1 tblInfo (mr_table_id row) False None = Inl err"
  shows "updateRows d ex isch (row # rows) (h, tbls, del, lv) =
         updateRows d ex isch rows (h1, tbls, del, mr_version row)"
  using assms by simp

text \<open>
  C1, as stated, fails: from an empty snapshot, with \<^verbatim>\<open>stats_meta\<close> rows (version 100,
  table 7) and (version 200, table 9), both tables known to the schema and no row in the
  histogram catalog, the snapshot after \<open>Update\<close> has no entry for table 7.
\<close>

theorem Update_cold_start_counterexample:
  "tables (h_statsCache (snd (Update exampleDeps coldStartExec (NewHandle 0) twoTableSchema))) 7
     = None"
  by (simp add: Update_def Let_def NewHandle_def emptyCache_def Lease_def DurationToTS_def
        ComposeTS_def int64_div_def coldStartExec_def emptyExec_def metaRowAt_def
        twoTableSchema_def getTableByPhysicalID_def buildPartitionID2TableID_def
        exampleTableInfo_def tableStatsFromStorage_def updateStatsCache_def update_def)

text \<open>
  C1, amended. From an empty snapshot, with \<^verbatim>\<open>stats_meta\<close> holding one row for table 7
  at version 100 and one for table 9 at version 200, and no rows in the histogram catalog
  for either table, \<open>Update\<close> returns no error and leaves the snapshot at version 200 with
  no entry for table 7 and none for table 9 (the snapshot has no entry at all): a table
  without histogram rows is treated as deleted.
\<close>

theorem Update_cold_start:
  assumes "h_statsCache h = emptyCache"
    and "selectStatsMeta ex 0 = Inr [r7, r9]"
    and "mr_table_id r7 = 7" and "mr_version r7 = 100"
    and "mr_table_id r9 = 9" and "mr_version r9 = 200"
    and "selectStatsHistograms ex 7 = Inr []"
    and "selectStatsHistograms ex 9 = Inr []"
  shows "fst (Update d ex h isch) = None
       \<and> version (h_statsCache (snd (Update d ex h isch))) = 200
       \<and> tables (h_statsCache (snd (Update d ex h isch))) 7 = None
       \<and> tables (h_statsCache (snd (Update d ex h isch))) 9 = None
       \<and> tables (h_statsCache (snd (Update d ex h isch))) = Map.empty"
proof -
  let ?offset = "DurationToTS (3 * Lease h)"
  have since: "(if ?offset \<le> version (h_statsCache h) then version (h_statsCache h) - ?offset else 0) = 0"
    by (simp add: assms(1) emptyCache_def)
  let ?h1 = "snd (getTableByPhysicalID h isch 7)"
  let ?h2 = "snd (getTableByPhysicalID ?h1 isch 9)"
  have rows: "updateRows d ex isch [r7, r9] (h, [], [], 0) = (?h2, [], [7, 9], 200)"
    using assms by (simp add: updateRows_no_histogram_rows del: updateRows.simps(2))
  have cache: "h_statsCache ?h2 = emptyCache"
    by (simp add: statsCache_getTableByPhysicalID assms(1))
  have upd: "Update d ex h isch =
      (None, updateStatsCache ?h2 (update (h_statsCache h) [] [7, 9] 200))"
    unfolding Update_def Let_def since using assms(2) rows by simp
  have "h_statsCache (updateStatsCache ?h2 (update (h_statsCache h) [] [7, 9] 200)) =
        \<lparr>tables = Map.empty, version = 200\<rparr>"
    by (simp add: updateStatsCache_def Let_def cache assms(1) emptyCache_def update_def)
  with upd show ?thesis by simp
qed

theorem Update_cold_start_witness:
  "fst (Update exampleDeps coldStartExec (NewHandle 0) twoTableSchema) = None
   \<and> version (h_statsCache (snd (Update exampleDeps coldStartExec (NewHandle 0) twoTableSchema))) = 200
   \<and> tables (h_statsCache (snd (Update exampleDeps coldStartExec (NewHandle 0) twoTableSchema))) 9 = None"
proof -
  have a: "h_statsCache (NewHandle 0) = emptyCache" by (simp add: NewHandle_def)
  have b: "selectStatsMeta coldStartExec 0 = Inr [metaRowAt 100 7, metaRowAt 200 9]"
    by (simp add: coldStartExec_def metaRowAt_def)
  have c: "mr_table_id (metaRowAt 100 7) = 7" "mr_version (metaRowAt 100 7) = 100"
    "mr_table_id (metaRowAt 200 9) = 9" "mr_version (metaRowAt 200 9) = 200"
    by (simp_all add: metaRowAt_def)
  have e: "selectStatsHistograms coldStartExec 7 = Inr []"
    "selectStatsHistograms coldStartExec 9 = Inr []"
    by (simp_all add: coldStartExec_def emptyExec_def)
  from Update_cold_start [OF a b c e, of exampleDeps twoTableSchema] show ?thesis by blast
qed

text \<open>
  C2, at a failing input. The claim: a row of \<^verbatim>\<open>stats_meta\<close> whose table-stats load
  fails with a read error, a failure of the query on the histogram catalog included, is
  skipped, and the table's entry is neither updated nor removed from the published
  snapshot. The input: the snapshot holds an entry for table 7 at version 50,
  \<^verbatim>\<open>stats_meta\<close> has the row (version 300, table 7), the schema knows table 7, and the
  query on the histogram catalog fails. What the code does: \<open>tableStatsFromStorage\<close>
  returns \<^verbatim>\<open>nil, nil\<close> for the failed query (its guard
  \<^verbatim>\<open>err != nil || len(rows) == 0\<close> drops the error, where the same guard of
  \<open>cmSketchFromStorage\<close> returns it), so the error branch of \<open>Update\<close>, whose comment
  says that such a table is not updated, is not taken: \<open>Update\<close> takes the table for
  deleted, and the snapshot it publishes, at version 300, has no entry for table 7.
\<close>

theorem Update_query_error_evicts_entry:
  "tables (h_statsCache warmHandle) 7 = Some ((newStatsTable 7)\<lparr>tbl_Version := 50\<rparr>)
   \<and> selectStatsHistograms failingCatalogExec 7 = Inl (Error ''read failed'')
   \<and> fst (Update exampleDeps failingCatalogExec warmHandle twoTableSchema) = None
   \<and> version (h_statsCache (snd (Update exampleDeps failingCatalogExec warmHandle twoTableSchema))) = 300
   \<and> tables (h_statsCache (snd (Update exampleDeps failingCatalogExec warmHandle twoTableSchema))) 7
       = None"
  by (simp add: Update_def Let_def warmHandle_def NewHandle_def emptyCache_def Lease_def
        DurationToTS_def ComposeTS_def int64_div_def failingCatalogExec_def emptyExec_def
        metaRowAt_def twoTableSchema_def getTableByPhysicalID_def buildPartitionID2TableID_def
        exampleTableInfo_def tableStatsFromStorage_def updateStatsCache_def update_def)

lemma getTableByPhysicalID_again:
  "getTableByPhysicalID (snd (getTableByPhysicalID h isch q)) isch p =
   (fst (getTableByPhysicalID h isch p), snd (getTableByPhysicalID h isch q))"
  by (simp add: getTableByPhysicalID_def Let_def split: option.splits)

lemma columnLoop_handle:
  "lease h1 = lease h \<Longrightarrow>
   columnLoop d ex h1 row table tblInfo loadAll he infos col =
   columnLoop d ex h row table tblInfo loadAll he infos col"
  by (induction infos) (simp_all add: Let_def Lease_def cong: sum.case_cong)

lemma columnStatsFromStorage_handle:
  "lease h1 = lease h \<Longrightarrow>
   columnStatsFromStorage d ex h1 row table tblInfo loadAll he =
   columnStatsFromStorage d ex h row table tblInfo loadAll he"
  by (simp add: columnStatsFromStorage_def columnLoop_handle [of h1 h])

lemma histRowsLoop_handle:
  "lease h1 = lease h \<Longrightarrow>
   histRowsLoop d ex h1 tblInfo loadAll he rows table =
   histRowsLoop d ex h tblInfo loadAll he rows table"
  by (induction rows arbitrary: table)
     (simp_all add: columnStatsFromStorage_handle [of h1 h] cong: sum.case_cong)

lemma tableStatsFromStorage_handle:
  "h_statsCache h1 = h_statsCache h \<Longrightarrow> lease h1 = lease h \<Longrightarrow>
   tableStatsFromStorage d ex h1 tblInfo pid loadAll he =
   tableStatsFromStorage d ex h tblInfo pid loadAll he"
  by (simp add: tableStatsFromStorage_def Let_def histRowsLoop_handle [of h1 h]
        del: histRowsLoop.simps cong: sum.case_cong list.case_cong)

lemma indexStatsFromStorage_PhysicalID:
  "indexStatsFromStorage d ex row table tblInfo he = Inr t \<Longrightarrow>
   tbl_PhysicalID t = tbl_PhysicalID table"
  by (auto simp: indexStatsFromStorage_def Let_def split: sum.splits option.splits)

lemma columnStatsFromStorage_PhysicalID:
  "columnStatsFromStorage d ex h row table tblInfo loadAll he = Inr t \<Longrightarrow>
   tbl_PhysicalID t = tbl_PhysicalID table"
  by (auto simp: columnStatsFromStorage_def Let_def split: sum.splits option.splits)

lemma histRowsLoop_PhysicalID:
  "histRowsLoop d ex h tblInfo loadAll he rows table = Inr t \<Longrightarrow>
   tbl_PhysicalID t = tbl_PhysicalID table"
proof (induction rows arbitrary: table)
  case Nil
  then show ?case by simp
next
  case (Cons row rows)
  from Cons.prems obtain t1 where
    step: "(if 0 <s hr_is_index row
            then indexStatsFromStorage d ex row table tblInfo he
            else columnStatsFromStorage d ex h row table tblInfo loadAll he) = Inr t1"
    and rest: "histRowsLoop d ex h tblInfo loadAll he rows t1 = Inr t"
    by (auto split: sum.splits)
  from step have "tbl_PhysicalID t1 = tbl_PhysicalID table"
    by (auto dest: indexStatsFromStorage_PhysicalID columnStatsFromStorage_PhysicalID
             split: if_splits)
  with Cons.IH [OF rest] show ?case by simp
qed

lemma tableStatsFromStorage_PhysicalID:
  assumes "wfCache (h_statsCache h)"
    and "tableStatsFromStorage d ex h tblInfo pid loadAll None = Inr (Some t)"
  shows "tbl_PhysicalID t = pid"
proof -
  let ?t0 = "(case tables (h_statsCache h) pid of
               None \<Rightarrow> newStatsTable pid | Some t \<Rightarrow> t)\<lparr>tbl_Pseudo := False\<rparr>"
  have p0: "tbl_PhysicalID ?t0 = pid"
    using assms(1) by (auto simp: wfCache_def newStatsTable_def split: option.splits)
  from assms(2) obtain rows where
    "histRowsLoop d ex h tblInfo loadAll None rows ?t0 = Inr t"
    by (auto simp: tableStatsFromStorage_def Let_def simp del: histRowsLoop.simps
             split: sum.splits list.splits option.splits)
  from histRowsLoop_PhysicalID [OF this] p0 show ?thesis by simp
qed

lemma putTables_other:
  "filter (\<lambda>t. tbl_PhysicalID t = p) tbls = [] \<Longrightarrow> putTables m tbls p = m p"
  by (induction tbls arbitrary: m) (auto split: if_splits)

lemma deleteIDs_other: "p \<notin> set ids \<Longrightarrow> deleteIDs m ids p = m p"
  by (induction ids arbitrary: m) auto

lemma deleteIDs_member: "p \<in> set ids \<Longrightarrow> deleteIDs m ids p = None"
proof (induction ids arbitrary: m)
  case Nil
  then show ?case by simp
next
  case (Cons i ids)
  show ?case
  proof (cases "p \<in> set ids")
    case True
    then show ?thesis by (simp add: Cons.IH)
  next
    case False
    with Cons.prems have "p = i" by simp
    with False show ?thesis by (simp add: deleteIDs_other)
  qed
qed

lemma updateRows_failing_id:
  assumes bad1: "fst (getTableByPhysicalID h isch p) = Some ti"
    and bad2: "tableStatsFromStorage d ex h ti p False None = Inl err"
    and wf: "wfCache (h_statsCache h)"
  shows "(\<forall>q. fst (getTableByPhysicalID h1 isch q) = fst (getTableByPhysicalID h isch q)) \<Longrightarrow>
         h_statsCache h1 = h_statsCache h \<Longrightarrow> lease h1 = lease h \<Longrightarrow>
         updateRows d ex isch rows (h1, tbls, del, lv) = (h2, tbls2, del2, lv2) \<Longrightarrow>
         h_statsCache h2 = h_statsCache h
         \<and> (p \<in> set del2 \<longleftrightarrow> p \<in> set del)
         \<and> filter (\<lambda>t. tbl_PhysicalID t = p) tbls2 = filter (\<lambda>t. tbl_PhysicalID t = p) tbls"
proof (induction rows arbitrary: h1 tbls del lv)
  case Nil
  then show ?case by simp
next
  case (Cons row rows)
  let ?q = "mr_table_id row"
  let ?h1' = "snd (getTableByPhysicalID h1 isch ?q)"
  let ?tb = "fst (getTableByPhysicalID h1 isch ?q)"
  have g: "getTableByPhysicalID h1 isch ?q = (?tb, ?h1')" by simp
  have tb: "?tb = fst (getTableByPhysicalID h isch ?q)" using Cons.prems(1) by simp
  have view: "\<forall>q. fst (getTableByPhysicalID ?h1' isch q) = fst (getTableByPhysicalID h isch q)"
    using Cons.prems(1) by (simp add: getTableByPhysicalID_again)
  have cache: "h_statsCache ?h1' = h_statsCache h"
    using Cons.prems(2) by (simp add: statsCache_getTableByPhysicalID)
  have ls: "lease ?h1' = lease h"
    using Cons.prems(3) by (simp add: lease_getTableByPhysicalID)
  have load: "\<And>tinfo. tableStatsFromStorage d ex ?h1' tinfo ?q False None =
                        tableStatsFromStorage d ex h tinfo ?q False None"
    by (rule tableStatsFromStorage_handle [OF cache ls])
  show ?case
  proof (cases ?tb)
    case None
    then have qp: "?q \<noteq> p" using tb bad1 by auto
    from None Cons.prems(4) g
    have run: "updateRows d ex isch rows (?h1', tbls, del @ [?q], mr_version row) =
               (h2, tbls2, del2, lv2)"
      by (simp add: Let_def split: prod.splits)
    from Cons.IH [OF view cache ls run] qp show ?thesis by auto
  next
    case (Some tinfo)
    show ?thesis
    proof (cases "tableStatsFromStorage d ex h tinfo ?q False None")
      case (Inl e)
      from Some Inl load Cons.prems(4) g
      have run: "updateRows d ex isch rows (?h1', tbls, del, mr_version row) =
                 (h2, tbls2, del2, lv2)"
        by (simp add: Let_def split: prod.splits)
      from Cons.IH [OF view cache ls run] show ?thesis by auto
    next
      case (Inr r)
      have qp: "?q \<noteq> p"
      proof
        assume "?q = p"
        with Some tb bad1 have "tinfo = ti" by simp
        with \<open>?q = p\<close> Inr bad2 show False by simp
      qed
      show ?thesis
      proof (cases r)
        case None
        from Some Inr None load Cons.prems(4) g
        have run: "updateRows d ex isch rows (?h1', tbls, del @ [?q], mr_version row) =
                   (h2, tbls2, del2, lv2)"
          by (simp add: Let_def split: prod.splits)
        from Cons.IH [OF view cache ls run] qp show ?thesis by auto
      next
        case (Some t)
        let ?t = "t\<lparr>tbl_Version := mr_version row, tbl_Count := mr_count row,
                     tbl_ModifyCount := mr_modify_count row,
                     tbl_Name := getFullTableName isch tinfo\<rparr>"
        have "tbl_PhysicalID t = ?q"
          by (rule tableStatsFromStorage_PhysicalID [OF wf]) (use Inr Some in simp)
        then have tp: "tbl_PhysicalID ?t \<noteq> p" using qp by simp
        from \<open>?tb = Some tinfo\<close> Inr Some load Cons.prems(4) g
        have run: "updateRows d ex isch rows (?h1', tbls @ [?t], del, mr_version row) =
                   (h2, tbls2, del2, lv2)"
          by (simp add: Let_def split: prod.splits)
        from Cons.IH [OF view cache ls run] tp show ?thesis by auto
      qed
    qed
  qed
qed

lemma update_entry_kept:
  assumes "p \<notin> set del" and "filter (\<lambda>t. tbl_PhysicalID t = p) tbls = []"
  shows "tables (update sc tbls del v) p = tables sc p"
  using assms by (simp add: update_def deleteIDs_other putTables_other)

lemma updateStatsCache_entry:
  assumes "tables c p = tables (h_statsCache g) p"
  shows "tables (h_statsCache (updateStatsCache g c)) p = tables (h_statsCache g) p"
  using assms by (simp add: updateStatsCache_def Let_def)

lemma Update_failing_id_kept:
  assumes bad1: "fst (getTableByPhysicalID h isch p) = Some ti"
    and bad2: "tableStatsFromStorage d ex h ti p False None = Inl err"
    and wf: "wfCache (h_statsCache h)"
  shows "tables (h_statsCache (snd (Update d ex h isch))) p = tables (h_statsCache h) p"
proof -
  let ?since = "if DurationToTS (3 * Lease h) \<le> version (h_statsCache h)
                then version (h_statsCache h) - DurationToTS (3 * Lease h) else 0"
  show ?thesis
  proof (cases "selectStatsMeta ex ?since")
    case (Inl e)
    then show ?thesis by (simp add: Update_def Let_def)
  next
    case (Inr rows)
    obtain h2 tbls2 del2 lv2 where
      run: "updateRows d ex isch rows (h, [], [], ?since) = (h2, tbls2, del2, lv2)"
      by (metis prod.exhaust)
    from updateRows_failing_id [OF bad1 bad2 wf _ refl refl run]
    have c2: "h_statsCache h2 = h_statsCache h" and d2: "p \<notin> set del2"
      and t2: "filter (\<lambda>t. tbl_PhysicalID t = p) tbls2 = []"
      by simp_all
    have upd: "Update d ex h isch =
               (None, updateStatsCache h2 (update (h_statsCache h) tbls2 del2 lv2))"
      using Inr run by (simp add: Update_def Let_def)
    have "tables (update (h_statsCache h) tbls2 del2 lv2) p = tables (h_statsCache h2) p"
      unfolding c2 by (rule update_entry_kept [OF d2 t2])
    from updateStatsCache_entry [OF this] show ?thesis unfolding upd by (simp add: c2)
  qed
qed

lemma updateRows_step:
  "\<exists>tbls' del'.
     updateRows d ex isch (row # rows) (h1, tbls, del, lv) =
     updateRows d ex isch rows
       (snd (getTableByPhysicalID h1 isch (mr_table_id row)), tbls', del', mr_version row)
     \<and> set del \<subseteq> set del'
     \<and> ((\<exists>err. selectStatsHistograms ex (mr_table_id row) = Inl err) \<longrightarrow>
          tbls' = tbls \<and> del' = del @ [mr_table_id row])"
proof -
  let ?q = "mr_table_id row"
  obtain tb h1' where g: "getTableByPhysicalID h1 isch ?q = (tb, h1')"
    by (cases "getTableByPhysicalID h1 isch ?q")
  show ?thesis
  proof (cases tb)
    case None
    with g have "updateRows d ex isch (row # rows) (h1, tbls, del, lv) =
        updateRows d ex isch rows (snd (getTableByPhysicalID h1 isch ?q), tbls, del @ [?q],
          mr_version row)"
      by simp
    then show ?thesis by (intro exI [of _ tbls] exI [of _ "del @ [?q]"]) auto
  next
    case (Some tinfo)
    show ?thesis
    proof (cases "tableStatsFromStorage d ex h1' tinfo ?q False None")
      case (Inl e)
      with g Some have "updateRows d ex isch (row # rows) (h1, tbls, del, lv) =
          updateRows d ex isch rows (snd (getTableByPhysicalID h1 isch ?q), tbls, del,
            mr_version row)"
        by simp
      moreover have "\<not> (\<exists>err. selectStatsHistograms ex ?q = Inl err)"
        using Inl by (auto simp: tableStatsFromStorage_query_error)
      ultimately show ?thesis by (intro exI [of _ tbls] exI [of _ del]) auto
    next
      case (Inr r)
      show ?thesis
      proof (cases r)
        case None
        with g Some Inr have "updateRows d ex isch (row # rows) (h1, tbls, del, lv) =
            updateRows d ex isch rows (snd (getTableByPhysicalID h1 isch ?q), tbls, del @ [?q],
              mr_version row)"
          by simp
        then show ?thesis by (intro exI [of _ tbls] exI [of _ "del @ [?q]"]) auto
      next
        case (Some t)
        let ?t = "t\<lparr>tbl_Version := mr_version row, tbl_Count := mr_count row,
                     tbl_ModifyCount := mr_modify_count row,
                     tbl_Name := getFullTableName isch tinfo\<rparr>"
        from g \<open>tb = Some tinfo\<close> Inr Some
        have "updateRows d ex isch (row # rows) (h1, tbls, del, lv) =
            updateRows d ex isch rows (snd (getTableByPhysicalID h1 isch ?q), tbls @ [?t], del,
              mr_version row)"
          by (simp add: Let_def)
        moreover have "\<not> (\<exists>err. selectStatsHistograms ex ?q = Inl err)"
          using Inr Some by (auto simp: tableStatsFromStorage_query_error)
        ultimately show ?thesis by (intro exI [of _ "tbls @ [?t]"] exI [of _ del]) auto
      qed
    qed
  qed
qed

lemma updateRows_deleted_mono:
  "updateRows d ex isch rows (h1, tbls, del, lv) = (h2, tbls2, del2, lv2) \<Longrightarrow>
   set del \<subseteq> set del2"
proof (induction rows arbitrary: h1 tbls del lv)
  case Nil
  then show ?case by simp
next
  case (Cons row rows)
  from updateRows_step [of d ex isch row rows h1 tbls del lv] Cons.prems obtain h1' tbls' del'
    where run: "updateRows d ex isch rows (h1', tbls', del', mr_version row) =
                (h2, tbls2, del2, lv2)"
    and sub: "set del \<subseteq> set del'"
    by auto
  from Cons.IH [OF run] sub show ?case by blast
qed

lemma updateRows_query_failure_deleted:
  assumes "selectStatsHistograms ex p = Inl err"
  shows "row \<in> set rows \<Longrightarrow> mr_table_id row = p \<Longrightarrow>
         updateRows d ex isch rows (h1, tbls, del, lv) = (h2, tbls2, del2, lv2) \<Longrightarrow>
         p \<in> set del2"
proof (induction rows arbitrary: h1 tbls del lv)
  case Nil
  then show ?case by simp
next
  case (Cons r rows)
  from updateRows_step [of d ex isch r rows h1 tbls del lv] Cons.prems(3) obtain h1' tbls' del'
    where run: "updateRows d ex isch rows (h1', tbls', del', mr_version r) =
                (h2, tbls2, del2, lv2)"
    and fail: "(\<exists>err. selectStatsHistograms ex (mr_table_id r) = Inl err) \<longrightarrow>
               del' = del @ [mr_table_id r]"
    by auto
  show ?case
  proof (cases "mr_table_id r = p")
    case True
    with fail assms have "p \<in> set del'" by auto
    with updateRows_deleted_mono [OF run] show ?thesis by blast
  next
    case False
    with Cons.prems(1,2) have mem: "row \<in> set rows" by auto
    from Cons.IH [OF mem Cons.prems(2) run] show ?thesis .
  qed
qed

lemma updateRows_lastVersion:
  "rows \<noteq> [] \<Longrightarrow>
   updateRows d ex isch rows (h1, tbls, del, lv) = (h2, tbls2, del2, lv2) \<Longrightarrow>
   lv2 = mr_version (last rows)"
proof (induction rows arbitrary: h1 tbls del lv)
  case Nil
  then show ?case by simp
next
  case (Cons r rows)
  from updateRows_step [of d ex isch r rows h1 tbls del lv] Cons.prems(2) obtain h1' tbls' del'
    where run: "updateRows d ex isch rows (h1', tbls', del', mr_version r) =
                (h2, tbls2, del2, lv2)"
    by auto
  show ?case
  proof (cases "rows = []")
    case True
    with run show ?thesis by simp
  next
    case False
    from Cons.IH [OF False run] False show ?thesis by simp
  qed
qed

lemma updateRows_statsCache:
  "updateRows d ex isch rows (h1, tbls, del, lv) = (h2, tbls2, del2, lv2) \<Longrightarrow>
   h_statsCache h2 = h_statsCache h1"
proof (induction rows arbitrary: h1 tbls del lv)
  case Nil
  then show ?case by simp
next
  case (Cons r rows)
  from updateRows_step [of d ex isch r rows h1 tbls del lv] Cons.prems obtain tbls' del'
    where run: "updateRows d ex isch rows
            (snd (getTableByPhysicalID h1 isch (mr_table_id r)), tbls', del', mr_version r) =
          (h2, tbls2, del2, lv2)"
    by auto
  from Cons.IH [OF run] show ?case by (simp add: statsCache_getTableByPhysicalID)
qed

lemma Update_query_failure_removed:
  assumes q: "selectStatsHistograms ex p = Inl err"
    and since: "since = (if DurationToTS (3 * Lease h) \<le> version (h_statsCache h)
                         then version (h_statsCache h) - DurationToTS (3 * Lease h) else 0)"
    and rows: "selectStatsMeta ex since = Inr rows"
    and mem: "row \<in> set rows" and id: "mr_table_id row = p"
    and ver: "version (h_statsCache h) \<le> mr_version (last rows)"
  shows "tables (h_statsCache (snd (Update d ex h isch))) p = None"
proof -
  obtain h2 tbls2 del2 lv2 where
    run: "updateRows d ex isch rows (h, [], [], since) = (h2, tbls2, del2, lv2)"
    by (metis prod.exhaust)
  have ne: "rows \<noteq> []" using mem by auto
  have lv: "lv2 = mr_version (last rows)" by (rule updateRows_lastVersion [OF ne run])
  have del: "p \<in> set del2" by (rule updateRows_query_failure_deleted [OF q mem id run])
  have c2: "h_statsCache h2 = h_statsCache h" by (rule updateRows_statsCache [OF run])
  have upd: "Update d ex h isch =
             (None, updateStatsCache h2 (update (h_statsCache h) tbls2 del2 lv2))"
    using rows run since by (simp add: Update_def Let_def)
  have inst: "h_statsCache (updateStatsCache h2 (update (h_statsCache h) tbls2 del2 lv2)) =
              update (h_statsCache h) tbls2 del2 lv2"
    by (rule updateStatsCache_installs) (simp add: c2 update_def lv ver)
  have gone: "tables (update (h_statsCache h) tbls2 del2 lv2) p = None"
    using del by (simp add: update_def deleteIDs_member)
  show ?thesis unfolding upd by (simp add: inst gone)
qed

text \<open>Well-formedness is an invariant: it holds of the empty snapshot and every
  publication of the refresh keeps it.\<close>

lemma wfCache_emptyCache: "wfCache emptyCache"
  by (simp add: wfCache_def emptyCache_def)

lemma putTables_wf:
  assumes "\<And>k t. m k = Some t \<Longrightarrow> tbl_PhysicalID t = k"
    and "putTables m tbls k = Some t"
  shows "tbl_PhysicalID t = k"
  using assms
proof (induction tbls arbitrary: m)
  case Nil
  then show ?case by simp
next
  case (Cons a tbls)
  have step: "\<And>k t. (m(tbl_PhysicalID a \<mapsto> a)) k = Some t \<Longrightarrow> tbl_PhysicalID t = k"
    using Cons.prems(1) by (simp split: if_splits)
  from Cons.prems(2) have "putTables (m(tbl_PhysicalID a \<mapsto> a)) tbls k = Some t" by simp
  from Cons.IH [OF step this] show ?case .
qed

lemma deleteIDs_wf:
  assumes "\<And>k t. m k = Some t \<Longrightarrow> tbl_PhysicalID t = k"
    and "deleteIDs m ids k = Some t"
  shows "tbl_PhysicalID t = k"
  using assms
proof (induction ids arbitrary: m)
  case Nil
  then show ?case by simp
next
  case (Cons i ids)
  have step: "\<And>k t. (m(i := None)) k = Some t \<Longrightarrow> tbl_PhysicalID t = k"
    using Cons.prems(1) by (simp split: if_splits)
  from Cons.prems(2) have "deleteIDs (m(i := None)) ids k = Some t" by simp
  from Cons.IH [OF step this] show ?case .
qed

lemma wfCache_update:
  assumes "wfCache sc"
  shows "wfCache (update sc tbls del v)"
proof -
  have base: "\<And>k t. tables sc k = Some t \<Longrightarrow> tbl_PhysicalID t = k"
    using assms unfolding wfCache_def by blast
  have put: "\<And>k t. putTables (tables sc) tbls k = Some t \<Longrightarrow> tbl_PhysicalID t = k"
    by (rule putTables_wf [OF base])
  have "\<And>k t. deleteIDs (putTables (tables sc) tbls) del k = Some t \<Longrightarrow> tbl_PhysicalID t = k"
    by (rule deleteIDs_wf [OF put])
  then show ?thesis unfolding wfCache_def update_def by simp
qed

lemma wfCache_updateStatsCache:
  "wfCache (h_statsCache h) \<Longrightarrow> wfCache c \<Longrightarrow> wfCache (h_statsCache (updateStatsCache h c))"
  by (simp add: updateStatsCache_def Let_def)

lemma wfCache_Update:
  assumes "wfCache (h_statsCache h)"
  shows "wfCache (h_statsCache (snd (Update d ex h isch)))"
proof -
  let ?since = "if DurationToTS (3 * Lease h) \<le> version (h_statsCache h)
                then version (h_statsCache h) - DurationToTS (3 * Lease h) else 0"
  show ?thesis
  proof (cases "selectStatsMeta ex ?since")
    case (Inl e)
    then have "Update d ex h isch = (Some e, h)" by (simp add: Update_def Let_def)
    then show ?thesis using assms by simp
  next
    case (Inr rows)
    obtain h2 tbls2 del2 lv2 where
      run: "updateRows d ex isch rows (h, [], [], ?since) = (h2, tbls2, del2, lv2)"
      by (metis prod.exhaust)
    have c2: "h_statsCache h2 = h_statsCache h" by (rule updateRows_statsCache [OF run])
    have upd: "Update d ex h isch =
               (None, updateStatsCache h2 (update (h_statsCache h) tbls2 del2 lv2))"
      using Inr run by (simp add: Update_def Let_def)
    have w2: "wfCache (h_statsCache h2)" using assms by (simp add: c2)
    have "wfCache (h_statsCache (updateStatsCache h2 (update (h_statsCache h) tbls2 del2 lv2)))"
      by (rule wfCache_updateStatsCache [OF w2 wfCache_update [OF assms]])
    then show ?thesis unfolding upd by simp
  qed
qed

text \<open>
  Read errors in a refresh, in general. In a refresh from a well-formed snapshot, with
  \<open>since\<close> the bound of the look-back window:

  \<^item> a row whose table-stats load returns an error (an error in decoding one of the
    table's index or column rows: the bucket query, the sketch query or its decoding, a
    bound conversion, the count query) is skipped, and the loop goes on with the
    remaining rows, with the tables and deleted IDs collected so far unchanged;
  \<^item> for a table whose load returns such an error, the entry of the published snapshot
    is the entry of the old snapshot, neither updated nor removed, however many rows
    name the table;
  \<^item> a failure of the query on the histogram catalog itself does not reach \<open>Update\<close>
    as an error: \<open>tableStatsFromStorage\<close> answers it with no table and no error, as it
    does for a table without rows;
  \<^item> so the loss of the entry at the input above is not particular to that input: for
    every table named by a row of the refresh whose histogram catalog query fails, the
    snapshot has no entry once the candidate is published (the version of the last row
    is at least the old version).
\<close>

theorem Update_read_error:
  assumes wf: "wfCache (h_statsCache h)"
    and since: "since = (if DurationToTS (3 * Lease h) \<le> version (h_statsCache h)
                         then version (h_statsCache h) - DurationToTS (3 * Lease h) else 0)"
  shows "(\<forall>(row::metaRow) rows h0 h1 tbls del lv tblInfo err.
            getTableByPhysicalID h0 isch (mr_table_id row) = (Some tblInfo, h1)
            \<and> tableStatsFromStorage d ex h1 tblInfo (mr_table_id row) False None = Inl err
            \<longrightarrow> updateRows d ex isch (row # rows) (h0, tbls, del, lv) =
                 updateRows d ex isch rows (h1, tbls, del, mr_version row))
       \<and> (\<forall>p tblInfo err.
            fst (getTableByPhysicalID h isch p) = Some tblInfo
            \<and> tableStatsFromStorage d ex h tblInfo p False None = Inl err
            \<longrightarrow> tables (h_statsCache (snd (Update d ex h isch))) p = tables (h_statsCache h) p)
       \<and> (\<forall>p tblInfo err.
            selectStatsHistograms ex p = Inl err
            \<longrightarrow> tableStatsFromStorage d ex h tblInfo p False None = Inr None)
       \<and> (\<forall>p err rows (row::metaRow).
            selectStatsHistograms ex p = Inl err \<and> selectStatsMeta ex since = Inr rows
            \<and> row \<in> set rows \<and> mr_table_id row = p
            \<and> version (h_statsCache h) \<le> mr_version (last rows)
            \<longrightarrow> tables (h_statsCache (snd (Update d ex h isch))) p = None)"
proof (intro conjI allI impI)
  fix row :: metaRow and rows h0 h1 tbls del lv tblInfo err
  assume "getTableByPhysicalID h0 isch (mr_table_id row) = (Some tblInfo, h1)
            \<and> tableStatsFromStorage d ex h1 tblInfo (mr_table_id row) False None = Inl err"
  then show "updateRows d ex isch (row # rows) (h0, tbls, del, lv) =
                 updateRows d ex isch rows (h1, tbls, del, mr_version row)"
    by (simp add: updateRows_read_error_skips)
next
  fix p tblInfo err
  assume "fst (getTableByPhysicalID h isch p) = Some tblInfo
            \<and> tableStatsFromStorage d ex h tblInfo p False None = Inl err"
  then have a: "fst (getTableByPhysicalID h isch p) = Some tblInfo"
    and b: "tableStatsFromStorage d ex h tblInfo p False None = Inl err"
    by simp_all
  show "tables (h_statsCache (snd (Update d ex h isch))) p = tables (h_statsCache h) p"
    by (rule Update_failing_id_kept [OF a b wf])
next
  fix p tblInfo err
  assume "selectStatsHistograms ex p = Inl err"
  then show "tableStatsFromStorage d ex h tblInfo p False None = Inr None"
    by (rule tableStatsFromStorage_query_error)
next
  fix p err rows and row :: metaRow
  assume "selectStatsHistograms ex p = Inl err \<and> selectStatsMeta ex since = Inr rows
            \<and> row \<in> set rows \<and> mr_table_id row = p
            \<and> version (h_statsCache h) \<le> mr_version (last rows)"
  then have a: "selectStatsHistograms ex p = Inl err" and b: "selectStatsMeta ex since = Inr rows"
    and c: "row \<in> set rows" and e: "mr_table_id row = p"
    and f: "version (h_statsCache h) \<le> mr_version (last rows)"
    by simp_all
  show "tables (h_statsCache (snd (Update d ex h isch))) p = None"
    by (rule Update_query_failure_removed [OF a since b c e f])
qed

lemma warmHandle_wf: "wfCache (h_statsCache warmHandle)"
  by (simp add: wfCache_def warmHandle_def newStatsTable_def)

lemma warmHandle_since:
  "(50::uint64) = (if DurationToTS (3 * Lease warmHandle) \<le> version (h_statsCache warmHandle)
                   then version (h_statsCache warmHandle) - DurationToTS (3 * Lease warmHandle)
                   else 0)"
  by (simp add: warmHandle_def NewHandle_def Lease_def DurationToTS_def ComposeTS_def
        int64_div_def)

lemma warmHandle_resolves:
  "fst (getTableByPhysicalID warmHandle twoTableSchema 7) = Some (exampleTableInfo 7)"
  by (simp add: getTableByPhysicalID_def Let_def warmHandle_def NewHandle_def twoTableSchema_def
        buildPartitionID2TableID_def exampleTableInfo_def)

lemma warmHandle_decode_error:
  "tableStatsFromStorage exampleDeps decodeErrorExec warmHandle (exampleTableInfo 7) 7 False None
   = Inl (Error ''read failed'')"
  by (simp add: tableStatsFromStorage_def Let_def warmHandle_def NewHandle_def emptyCache_def
        decodeErrorExec_def emptyExec_def exampleHistRow_def exampleTableInfo_def
        columnStatsFromStorage_def newStatsTable_def notNeedLoad_def Lease_def
        histogramFromStorage_def word_sless_alt)

theorem Update_read_error_witness:
  "wfCache (h_statsCache warmHandle)
   \<and> tableStatsFromStorage exampleDeps decodeErrorExec warmHandle (exampleTableInfo 7) 7 False
        None = Inl (Error ''read failed'')
   \<and> tables (h_statsCache (snd (Update exampleDeps decodeErrorExec warmHandle twoTableSchema))) 7
       = tables (h_statsCache warmHandle) 7
   \<and> tables (h_statsCache (snd (Update exampleDeps failingCatalogExec warmHandle
                                    twoTableSchema))) 7 = None"
proof -
  note kept = Update_read_error [OF warmHandle_wf warmHandle_since,
      of twoTableSchema exampleDeps decodeErrorExec, THEN conjunct2, THEN conjunct1, rule_format,
      of 7 "exampleTableInfo 7" "Error ''read failed''"]
  note removed = Update_read_error [OF warmHandle_wf warmHandle_since,
      of twoTableSchema exampleDeps failingCatalogExec, THEN conjunct2, THEN conjunct2,
      THEN conjunct2, rule_format,
      of 7 "Error ''read failed''" "[metaRowAt 300 7]" "metaRowAt 300 7"]
  from kept warmHandle_resolves warmHandle_decode_error
  have a: "tables (h_statsCache (snd (Update exampleDeps decodeErrorExec warmHandle
                                        twoTableSchema))) 7
           = tables (h_statsCache warmHandle) 7"
    by blast
  have q: "selectStatsHistograms failingCatalogExec 7 = Inl (Error ''read failed'')"
    and m: "selectStatsMeta failingCatalogExec 50 = Inr [metaRowAt 300 7]"
    and i: "mr_table_id (metaRowAt 300 7) = 7"
    and v: "version (h_statsCache warmHandle) \<le> mr_version (last [metaRowAt 300 7])"
    by (simp_all add: failingCatalogExec_def metaRowAt_def warmHandle_def)
  from removed q m i v
  have b: "tables (h_statsCache (snd (Update exampleDeps failingCatalogExec warmHandle
                                        twoTableSchema))) 7 = None"
    by simp
  from warmHandle_wf warmHandle_decode_error a b show ?thesis by (intro conjI)
qed

subsection \<open>The save path and its transaction\<close>

lemma Execute_logging:
  "Execute (logging X) (s, l) q =
     (case Execute X s q of (e, s1) \<Rightarrow> (e, (s1, l @ [(q, e)])))"
  by (simp add: logging_def)

lemma Txn_logging: "Txn (logging X) (s, l) = Txn X s"
  by (simp add: logging_def)

lemma execSQLs_logging_step_fail:
  "Execute X s q = (Some err, s0) \<Longrightarrow>
   execSQLs (logging X) (s, l) (q # sqls) = (Some err, (s0, l @ [(q, Some err)]))"
  by (simp add: Execute_logging)

lemma execSQLs_logging_step_ok:
  "Execute X s q = (None, s0) \<Longrightarrow>
   execSQLs (logging X) (s, l) (q # sqls) = execSQLs (logging X) (s0, l @ [(q, None)]) sqls"
  by (simp add: Execute_logging)

lemma execSQLs_logging:
  "execSQLs (logging X) (s, l) sqls = (e, (s1, l1)) \<Longrightarrow>
   execSQLs X s sqls = (e, s1) \<and>
   (\<exists>ext. l1 = l @ ext \<and> fst ` set ext \<subseteq> set sqls
      \<and> (\<forall>q e1. (q, Some e1) \<in> set ext \<longrightarrow> e = Some e1)
      \<and> (e = None \<longrightarrow> ext = map (\<lambda>q. (q, None)) sqls))"
proof (induction sqls arbitrary: s l)
  case Nil
  then show ?case by simp
next
  case (Cons q sqls)
  obtain e0 s0 where ex: "Execute X s q = (e0, s0)" by (cases "Execute X s q")
  show ?case
  proof (cases e0)
    case (Some err)
    have "execSQLs (logging X) (s, l) (q # sqls) = (Some err, (s0, l @ [(q, Some err)]))"
      by (rule execSQLs_logging_step_fail) (use ex Some in simp)
    with Cons.prems have r: "e = Some err" "s1 = s0" "l1 = l @ [(q, Some err)]"
      by simp_all
    have plain: "execSQLs X s (q # sqls) = (e, s1)" using ex Some r by simp
    have "l1 = l @ [(q, Some err)] \<and> fst ` set [(q, Some err)] \<subseteq> set (q # sqls)
        \<and> (\<forall>q' e1. (q', Some e1) \<in> set [(q, Some err)] \<longrightarrow> e = Some e1)
        \<and> (e = None \<longrightarrow> [(q, Some err)] = map (\<lambda>q. (q, None)) (q # sqls))"
      using r by simp
    then have "\<exists>ext. l1 = l @ ext \<and> fst ` set ext \<subseteq> set (q # sqls)
        \<and> (\<forall>q' e1. (q', Some e1) \<in> set ext \<longrightarrow> e = Some e1)
        \<and> (e = None \<longrightarrow> ext = map (\<lambda>q. (q, None)) (q # sqls))"
      by (rule exI)
    with plain show ?thesis by (rule conjI)
  next
    case None
    have "execSQLs (logging X) (s, l) (q # sqls) =
          execSQLs (logging X) (s0, l @ [(q, None)]) sqls"
      by (rule execSQLs_logging_step_ok) (use ex None in simp)
    with Cons.prems have rest: "execSQLs (logging X) (s0, l @ [(q, None)]) sqls = (e, (s1, l1))"
      by simp
    from Cons.IH [OF rest] obtain ext where
      run: "execSQLs X s0 sqls = (e, s1)" and
      l1: "l1 = (l @ [(q, None)]) @ ext" and
      sub: "fst ` set ext \<subseteq> set sqls" and
      errs: "\<forall>q e1. (q, Some e1) \<in> set ext \<longrightarrow> e = Some e1" and
      ok: "e = None \<longrightarrow> ext = map (\<lambda>q. (q, None)) sqls"
      by blast
    have plain: "execSQLs X s (q # sqls) = (e, s1)" using ex None run by simp
    have "l1 = l @ ((q, None) # ext)" using l1 by simp
    moreover have "fst ` set ((q, None) # ext) \<subseteq> set (q # sqls)" using sub by auto
    moreover have "\<forall>q' e1. (q', Some e1) \<in> set ((q, None) # ext) \<longrightarrow> e = Some e1"
      using errs by auto
    moreover have "e = None \<longrightarrow> (q, None) # ext = map (\<lambda>q. (q, None)) (q # sqls)"
      using ok by simp
    ultimately have "\<exists>ext. l1 = l @ ext \<and> fst ` set ext \<subseteq> set (q # sqls)
        \<and> (\<forall>q' e1. (q', Some e1) \<in> set ext \<longrightarrow> e = Some e1)
        \<and> (e = None \<longrightarrow> ext = map (\<lambda>q. (q, None)) (q # sqls))"
      by (intro exI [of _ "(q, None) # ext"] conjI)
    with plain show ?thesis by (rule conjI)
  qed
qed

lemma bucketLoop_no_control:
  "bucketLoop d t i hg js sqls = Inr sqls1 \<Longrightarrow> \<forall>q\<in>set sqls. \<not> isControl q \<Longrightarrow>
   \<forall>q\<in>set sqls1. \<not> isControl q"
proof (induction js arbitrary: sqls)
  case Nil
  then show ?case by simp
next
  case (Cons j js)
  from Cons.prems(1) obtain ub lb where
    rest: "bucketLoop d t i hg js
             (sqls @ [InsertBucket t i (hg_ID hg) (int j)
                        (if 0 < j then bk_Count (hg_Buckets hg ! j) - bk_Count (hg_Buckets hg ! (j - 1))
                         else bk_Count (hg_Buckets hg ! j))
                        (bk_Repeat (hg_Buckets hg ! j)) (GetBytes lb) (GetBytes ub)]) = Inr sqls1"
    by (auto simp: Let_def split: sum.splits)
  show ?case
    by (rule Cons.IH [OF rest]) (use Cons.prems(2) in \<open>auto simp: isControl_def\<close>)
qed

lemma saveStatsBody_logging:
  assumes "saveStatsBody d (logging X) (s, l) t c i hg cms = (berr, (s2, l2))"
  shows "saveStatsBody d X s t c i hg cms = (berr, s2) \<and>
         (\<exists>ext. l2 = l @ ext \<and> (\<forall>q\<in>fst ` set ext. \<not> isControl q)
            \<and> (\<forall>q e1. (q, Some e1) \<in> set ext \<longrightarrow> berr = Some e1))"
proof (cases "Txn X s")
  case (Inl e)
  with assms show ?thesis by (simp add: saveStatsBody_def Txn_logging)
next
  case (Inr ver)
  note txn = this
  show ?thesis
  proof (cases "EncodeCMSketch d cms")
    case (Inl e)
    with assms txn show ?thesis by (simp add: saveStatsBody_def Txn_logging Let_def)
  next
    case (Inr data)
    note enc = this
    let ?sqls = "[if 0 \<le>s c then ReplaceMeta ver t c else UpdateMetaVersion ver t,
                  ReplaceHistogram t i (hg_ID hg) (hg_NDV hg) ver (hg_NullCount hg) data
                    (hg_TotColSize hg) 0 0 (hg_Correlation hg),
                  DeleteBuckets t i (hg_ID hg)]"
    show ?thesis
    proof (cases "bucketLoop d t i hg [0..<length (hg_Buckets hg)] ?sqls")
      case (Inl e)
      with assms txn enc show ?thesis by (simp add: saveStatsBody_def Txn_logging Let_def)
    next
      case (Inr sqls1)
      have nc: "\<forall>q\<in>set sqls1. \<not> isControl q"
        by (rule bucketLoop_no_control [OF Inr]) (simp add: isControl_def)
      from assms txn enc Inr
      have run: "execSQLs (logging X) (s, l) sqls1 = (berr, (s2, l2))"
        by (simp add: saveStatsBody_def Txn_logging Let_def)
      from execSQLs_logging [OF run] obtain ext where
        r: "execSQLs X s sqls1 = (berr, s2)" and l2: "l2 = l @ ext"
        and sub: "fst ` set ext \<subseteq> set sqls1"
        and errs: "\<forall>q e1. (q, Some e1) \<in> set ext \<longrightarrow> berr = Some e1"
        by blast
      have "saveStatsBody d X s t c i hg cms = (berr, s2)"
        using txn enc Inr r by (simp add: saveStatsBody_def Let_def)
      moreover have "\<forall>q\<in>fst ` set ext. \<not> isControl q" using sub nc by blast
      ultimately show ?thesis using l2 errs by blast
    qed
  qed
qed

lemma bucketLoop_result:
  assumes "\<forall>j\<in>set js. (\<exists>y. ConvertToBlob d (GetLower hg j) = Inr y)
                     \<and> (\<exists>y. ConvertToBlob d (GetUpper hg j) = Inr y)"
  shows "bucketLoop d t i hg js sqls = Inr (sqls @ map (bucketInsert d t i hg) js)"
  using assms
proof (induction js arbitrary: sqls)
  case Nil
  show ?case by simp
next
  case (Cons j js)
  from Cons.prems obtain lb ub where
    lb: "ConvertToBlob d (GetLower hg j) = Inr lb" and
    ub: "ConvertToBlob d (GetUpper hg j) = Inr ub"
    by auto
  have rest: "\<forall>j\<in>set js. (\<exists>y. ConvertToBlob d (GetLower hg j) = Inr y)
                     \<and> (\<exists>y. ConvertToBlob d (GetUpper hg j) = Inr y)"
    using Cons.prems by simp
  show ?case
    by (simp add: Let_def lb ub Cons.IH [OF rest] bucketInsert_def)
qed

lemma execSQLs_logging_trace:
  "execSQLs (logging X) (s, l) sqls = (e, (s1, l1)) \<Longrightarrow>
   \<exists>ext. l1 = l @ ext \<and> (\<exists>k\<le>length sqls. map fst ext = take k sqls)
      \<and> (e \<noteq> None \<longrightarrow> (\<exists>q. (q, e) \<in> set ext))"
proof (induction sqls arbitrary: s l)
  case Nil
  then show ?case by simp
next
  case (Cons q sqls)
  obtain e0 s0 where ex: "Execute X s q = (e0, s0)" by (cases "Execute X s q")
  show ?case
  proof (cases e0)
    case (Some err)
    have "execSQLs (logging X) (s, l) (q # sqls) = (Some err, (s0, l @ [(q, Some err)]))"
      by (rule execSQLs_logging_step_fail) (use ex Some in simp)
    with Cons.prems have r: "e = Some err" "l1 = l @ [(q, Some err)]"
      by simp_all
    have a: "l1 = l @ [(q, e)]" using r by simp
    have b: "\<exists>k\<le>length (q # sqls). map fst [(q, e)] = take k (q # sqls)"
      by (rule exI [of _ 1]) simp
    have c: "e \<noteq> None \<longrightarrow> (\<exists>q'. (q', e) \<in> set [(q, e)])" by simp
    from a b c show ?thesis by blast
  next
    case None
    have "execSQLs (logging X) (s, l) (q # sqls) =
          execSQLs (logging X) (s0, l @ [(q, None)]) sqls"
      by (rule execSQLs_logging_step_ok) (use ex None in simp)
    with Cons.prems have rest: "execSQLs (logging X) (s0, l @ [(q, None)]) sqls = (e, (s1, l1))"
      by simp
    from Cons.IH [OF rest] obtain ext k where
      l1: "l1 = (l @ [(q, None)]) @ ext" and k: "k \<le> length sqls"
      and pre: "map fst ext = take k sqls"
      and err: "e \<noteq> None \<longrightarrow> (\<exists>q. (q, e) \<in> set ext)"
      by blast
    have a: "l1 = l @ ((q, None) # ext)" using l1 by simp
    have "Suc k \<le> length (q # sqls) \<and> map fst ((q, None) # ext) = take (Suc k) (q # sqls)"
      using k pre by simp
    then have b: "\<exists>k\<le>length (q # sqls). map fst ((q, None) # ext) = take k (q # sqls)"
      by blast
    have c: "e \<noteq> None \<longrightarrow> (\<exists>q'. (q', e) \<in> set ((q, None) # ext))"
      using err by auto
    from a b c show ?thesis by blast
  qed
qed

lemma upt_split_at:
  assumes "[0..<n] = pre @ j # post"
  shows "j < n \<and> set pre = {0..<j}"
proof -
  have len: "length pre < n"
    using arg_cong [OF assms, of length] by simp
  have "[0..<n] ! length pre = j" unfolding assms by simp
  with len have j: "j = length pre" by simp
  have "take (length pre) [0..<n] = pre" unfolding assms by simp
  with len have "pre = [0..<length pre]" by (simp add: take_upt)
  then have "set pre = {0..<length pre}" by (metis atLeastLessThan_upt)
  with j len show ?thesis by simp
qed

lemma bucketLoop_first_failure:
  assumes "\<exists>j\<in>set js. (\<exists>e. ConvertToBlob d (GetUpper hg j) = Inl e)
                     \<or> (\<exists>e. ConvertToBlob d (GetLower hg j) = Inl e)"
  shows "\<exists>pre j post e. js = pre @ j # post
           \<and> bucketLoop d t i hg js sqls = Inl e
           \<and> (\<forall>k\<in>set pre. (\<exists>y. ConvertToBlob d (GetUpper hg k) = Inr y)
                          \<and> (\<exists>y. ConvertToBlob d (GetLower hg k) = Inr y))
           \<and> (ConvertToBlob d (GetUpper hg j) = Inl e
              \<or> (\<exists>y. ConvertToBlob d (GetUpper hg j) = Inr y)
                \<and> ConvertToBlob d (GetLower hg j) = Inl e)"
  using assms
proof (induction js arbitrary: sqls)
  case Nil
  then show ?case by simp
next
  case (Cons j js)
  show ?case
  proof (cases "ConvertToBlob d (GetUpper hg j)")
    case (Inl e)
    then have "bucketLoop d t i hg (j # js) sqls = Inl e" by (simp add: Let_def)
    with Inl show ?thesis
      by (intro exI [of _ "[]"] exI [of _ j] exI [of _ js] exI [of _ e]) simp
  next
    case (Inr ub)
    note up = this
    show ?thesis
    proof (cases "ConvertToBlob d (GetLower hg j)")
      case (Inl e)
      with up have "bucketLoop d t i hg (j # js) sqls = Inl e" by (simp add: Let_def)
      with Inl up show ?thesis
        by (intro exI [of _ "[]"] exI [of _ j] exI [of _ js] exI [of _ e]) simp
    next
      case (Inr lb)
      with up Cons.prems
      have rest: "\<exists>j\<in>set js. (\<exists>e. ConvertToBlob d (GetUpper hg j) = Inl e)
                     \<or> (\<exists>e. ConvertToBlob d (GetLower hg j) = Inl e)"
        by auto
      let ?sqls = "sqls @ [InsertBucket t i (hg_ID hg) (int j)
                        (if 0 < j then bk_Count (hg_Buckets hg ! j) - bk_Count (hg_Buckets hg ! (j - 1))
                         else bk_Count (hg_Buckets hg ! j))
                        (bk_Repeat (hg_Buckets hg ! j)) (GetBytes lb) (GetBytes ub)]"
      have step: "bucketLoop d t i hg (j # js) sqls = bucketLoop d t i hg js ?sqls"
        using up Inr by (simp add: Let_def)
      from Cons.IH [OF rest, of ?sqls] obtain pre j' post e where
        js: "js = pre @ j' # post" and
        res: "bucketLoop d t i hg js ?sqls = Inl e" and
        ok: "\<forall>k\<in>set pre. (\<exists>y. ConvertToBlob d (GetUpper hg k) = Inr y)
                          \<and> (\<exists>y. ConvertToBlob d (GetLower hg k) = Inr y)" and
        bad: "ConvertToBlob d (GetUpper hg j') = Inl e
              \<or> (\<exists>y. ConvertToBlob d (GetUpper hg j') = Inr y)
                \<and> ConvertToBlob d (GetLower hg j') = Inl e"
        by blast
      have a: "j # js = (j # pre) @ j' # post" using js by simp
      have b: "bucketLoop d t i hg (j # js) sqls = Inl e" using step res by simp
      have c: "\<forall>k\<in>set (j # pre). (\<exists>y. ConvertToBlob d (GetUpper hg k) = Inr y)
                          \<and> (\<exists>y. ConvertToBlob d (GetLower hg k) = Inr y)"
        using ok up Inr by simp
      from a b c bad show ?thesis
        by (intro exI [of _ "j # pre"] exI [of _ j'] exI [of _ post] exI [of _ e] conjI)
    qed
  qed
qed

lemma bucketLoop_upt_first_failure:
  assumes "\<exists>j<n. (\<exists>e. ConvertToBlob d (GetUpper hg j) = Inl e)
                \<or> (\<exists>e. ConvertToBlob d (GetLower hg j) = Inl e)"
  shows "\<exists>j e. j < n \<and> bucketLoop d t i hg [0..<n] sqls = Inl e
           \<and> (\<forall>k<j. (\<exists>y. ConvertToBlob d (GetUpper hg k) = Inr y)
                    \<and> (\<exists>y. ConvertToBlob d (GetLower hg k) = Inr y))
           \<and> (ConvertToBlob d (GetUpper hg j) = Inl e
              \<or> (\<exists>y. ConvertToBlob d (GetUpper hg j) = Inr y)
                \<and> ConvertToBlob d (GetLower hg j) = Inl e)"
proof -
  from assms
  have "\<exists>j\<in>set [0..<n]. (\<exists>e. ConvertToBlob d (GetUpper hg j) = Inl e)
                     \<or> (\<exists>e. ConvertToBlob d (GetLower hg j) = Inl e)"
    by auto
  from bucketLoop_first_failure [OF this, of t i sqls] obtain pre j post e where
    js: "[0..<n] = pre @ j # post" and
    res: "bucketLoop d t i hg [0..<n] sqls = Inl e" and
    ok: "\<forall>k\<in>set pre. (\<exists>y. ConvertToBlob d (GetUpper hg k) = Inr y)
                      \<and> (\<exists>y. ConvertToBlob d (GetLower hg k) = Inr y)" and
    bad: "ConvertToBlob d (GetUpper hg j) = Inl e
          \<or> (\<exists>y. ConvertToBlob d (GetUpper hg j) = Inr y)
            \<and> ConvertToBlob d (GetLower hg j) = Inl e"
    by blast
  from upt_split_at [OF js] have j: "j < n" and pre: "set pre = {0..<j}" by simp_all
  have ok': "\<forall>k<j. (\<exists>y. ConvertToBlob d (GetUpper hg k) = Inr y)
                    \<and> (\<exists>y. ConvertToBlob d (GetLower hg k) = Inr y)"
    using ok pre by simp
  from j res ok' bad show ?thesis by (intro exI [of _ j] exI [of _ e] conjI)
qed


lemma saveStatsBody_Txn_fails:
  assumes "saveStatsBody d (logging X) (s, l) t c i hg cms = (berr, (s2, l @ ext))"
    and "Txn X s = Inl e"
  shows "berr = Some e \<and> ext = []"
  using assms by (simp add: saveStatsBody_def Txn_logging)

lemma saveStatsBody_Encode_fails:
  assumes "saveStatsBody d (logging X) (s, l) t c i hg cms = (berr, (s2, l @ ext))"
    and "Txn X s = Inr ver" and "EncodeCMSketch d cms = Inl e"
  shows "berr = Some e \<and> ext = []"
  using assms by (simp add: saveStatsBody_def Txn_logging Let_def)

lemma saveStatsBody_Convert_fails:
  assumes "saveStatsBody d (logging X) (s, l) t c i hg cms = (berr, (s2, l @ ext))"
    and "Txn X s = Inr ver" and "EncodeCMSketch d cms = Inr data"
    and "\<exists>j<length (hg_Buckets hg). (\<exists>e. ConvertToBlob d (GetUpper hg j) = Inl e)
                                  \<or> (\<exists>e. ConvertToBlob d (GetLower hg j) = Inl e)"
  shows "ext = [] \<and>
         (\<exists>j e. j < length (hg_Buckets hg) \<and> berr = Some e
            \<and> (\<forall>k<j. (\<exists>y. ConvertToBlob d (GetUpper hg k) = Inr y)
                     \<and> (\<exists>y. ConvertToBlob d (GetLower hg k) = Inr y))
            \<and> (ConvertToBlob d (GetUpper hg j) = Inl e
               \<or> (\<exists>y. ConvertToBlob d (GetUpper hg j) = Inr y)
                 \<and> ConvertToBlob d (GetLower hg j) = Inl e))"
proof -
  let ?sqls = "[if 0 \<le>s c then ReplaceMeta ver t c else UpdateMetaVersion ver t,
                ReplaceHistogram t i (hg_ID hg) (hg_NDV hg) ver (hg_NullCount hg) data
                  (hg_TotColSize hg) 0 0 (hg_Correlation hg),
                DeleteBuckets t i (hg_ID hg)]"
  from bucketLoop_upt_first_failure [OF assms(4), of t i ?sqls] obtain j e where
    j: "j < length (hg_Buckets hg)" and
    res: "bucketLoop d t i hg [0..<length (hg_Buckets hg)] ?sqls = Inl e" and
    ok: "\<forall>k<j. (\<exists>y. ConvertToBlob d (GetUpper hg k) = Inr y)
              \<and> (\<exists>y. ConvertToBlob d (GetLower hg k) = Inr y)" and
    bad: "ConvertToBlob d (GetUpper hg j) = Inl e
          \<or> (\<exists>y. ConvertToBlob d (GetUpper hg j) = Inr y)
            \<and> ConvertToBlob d (GetLower hg j) = Inl e"
    by blast
  from assms(1-3) res have r: "berr = Some e" "ext = []"
    by (simp_all add: saveStatsBody_def Txn_logging Let_def)
  from j r(1) ok bad
  have "\<exists>j e. j < length (hg_Buckets hg) \<and> berr = Some e
            \<and> (\<forall>k<j. (\<exists>y. ConvertToBlob d (GetUpper hg k) = Inr y)
                     \<and> (\<exists>y. ConvertToBlob d (GetLower hg k) = Inr y))
            \<and> (ConvertToBlob d (GetUpper hg j) = Inl e
               \<or> (\<exists>y. ConvertToBlob d (GetUpper hg j) = Inr y)
                 \<and> ConvertToBlob d (GetLower hg j) = Inl e)"
    by (intro exI [of _ j] exI [of _ e] conjI)
  with r(2) show ?thesis by (rule conjI)
qed

lemma saveStatsBody_statements:
  assumes "saveStatsBody d (logging X) (s, l) t c i hg cms = (berr, (s2, l @ ext))"
    and "Txn X s = Inr ver" and "EncodeCMSketch d cms = Inr data"
    and "\<forall>j<length (hg_Buckets hg). (\<exists>y. ConvertToBlob d (GetLower hg j) = Inr y)
                                  \<and> (\<exists>y. ConvertToBlob d (GetUpper hg j) = Inr y)"
    and "batch = [if 0 \<le>s c then ReplaceMeta ver t c else UpdateMetaVersion ver t,
                  ReplaceHistogram t i (hg_ID hg) (hg_NDV hg) ver (hg_NullCount hg) data
                    (hg_TotColSize hg) 0 0 (hg_Correlation hg),
                  DeleteBuckets t i (hg_ID hg)]
                 @ map (bucketInsert d t i hg) [0..<length (hg_Buckets hg)]"
  shows "(\<exists>k\<le>length batch. map fst ext = take k batch)
       \<and> (berr = None \<longleftrightarrow> ext = map (\<lambda>q. (q, None)) batch)
       \<and> (berr \<noteq> None \<longrightarrow> (\<exists>q. (q, berr) \<in> set ext))"
proof -
  let ?sqls = "[if 0 \<le>s c then ReplaceMeta ver t c else UpdateMetaVersion ver t,
                ReplaceHistogram t i (hg_ID hg) (hg_NDV hg) ver (hg_NullCount hg) data
                  (hg_TotColSize hg) 0 0 (hg_Correlation hg),
                DeleteBuckets t i (hg_ID hg)]"
  have conv: "\<forall>j\<in>set [0..<length (hg_Buckets hg)].
                (\<exists>y. ConvertToBlob d (GetLower hg j) = Inr y)
              \<and> (\<exists>y. ConvertToBlob d (GetUpper hg j) = Inr y)"
    using assms(4) by simp
  have loop: "bucketLoop d t i hg [0..<length (hg_Buckets hg)] ?sqls = Inr batch"
    unfolding assms(5) by (rule bucketLoop_result [OF conv])
  from assms(1-3) loop
  have run: "execSQLs (logging X) (s, l) batch = (berr, (s2, l @ ext))"
    by (simp add: saveStatsBody_def Txn_logging Let_def)
  from execSQLs_logging_trace [OF run]
  have pre: "\<exists>k\<le>length batch. map fst ext = take k batch"
    and bad: "berr \<noteq> None \<longrightarrow> (\<exists>q. (q, berr) \<in> set ext)"
    by auto
  from execSQLs_logging [OF run]
  have ok: "berr = None \<longrightarrow> ext = map (\<lambda>q. (q, None)) batch"
    by auto
  have "ext = map (\<lambda>q. (q, None)) batch \<longrightarrow> berr = None"
  proof
    assume all: "ext = map (\<lambda>q. (q, None)) batch"
    show "berr = None"
    proof (rule ccontr)
      assume "berr \<noteq> None"
      with bad obtain q where "(q, berr) \<in> set ext" by blast
      with all have "berr = None" by auto
      with \<open>berr \<noteq> None\<close> show False by simp
    qed
  qed
  with ok have iff: "berr = None \<longleftrightarrow> ext = map (\<lambda>q. (q, None)) batch" by blast
  from pre iff bad show ?thesis by (intro conjI)
qed

lemma failBeginExecutor_Begin:
  "Execute (logging failBeginExecutor) ((), []) Begin =
     (Some (Error ''begin failed''), ((), [(Begin, Some (Error ''begin failed''))]))"
  by (simp add: logging_def failBeginExecutor_def)

text \<open>
  C7, as stated, fails: when the BEGIN statement itself fails, \<open>SaveStatsToStorage\<close>
  returns its error before the deferred call is registered, and neither COMMIT nor
  ROLLBACK is executed: BEGIN is the only statement the executor is given.
\<close>

theorem SaveStatsToStorage_begin_fails_counterexample:
  "SaveStatsToStorage exampleDeps (logging failBeginExecutor) ((), []) 5 1000 0
     exampleHistogram None
   = (Some (Error ''begin failed''), ((), [(Begin, Some (Error ''begin failed''))]))"
  by (simp add: SaveStatsToStorage_def failBeginExecutor_Begin)

text \<open>
  C7, amended. Take a call of \<open>SaveStatsToStorage\<close> on an executor \<open>X\<close> whose statements
  are recorded; \<open>e0\<close> is the result of BEGIN and \<open>berr\<close> the error of the steps between
  BEGIN and the deferred exit (reading the transaction, encoding the sketch, converting
  the bounds, running the statements). The recording changes nothing in the result. If
  BEGIN fails, its error is returned and BEGIN is the only statement executed. If BEGIN
  succeeds, the statements executed are BEGIN, then statements none of which opens or
  closes a transaction, then exactly one closing statement: COMMIT if and only if no
  step failed, ROLLBACK if and only if one did. A statement of the body that failed is
  the step that failed, with that error. After COMMIT the call returns what COMMIT
  returned; after ROLLBACK it returns the error of the failed step, whatever ROLLBACK
  returned.

  Each kind of failure closes the transaction with ROLLBACK and is the error returned:
  \<^item> if the transaction cannot be read, no statement runs between BEGIN and ROLLBACK and
    the error of \<open>Txn\<close> is returned;
  \<^item> if the transaction is read and the sketch cannot be encoded, no statement runs
    between BEGIN and ROLLBACK and the error of \<open>EncodeCMSketch\<close> is returned;
  \<^item> if both succeed and some bucket bound cannot be converted, no statement runs
    between BEGIN and ROLLBACK and the error returned is that of the first conversion that
    fails, in the order of the loop (bucket by bucket, the upper bound before the lower);
  \<^item> if all three succeed, the statements between BEGIN and the closing statement are an
    initial part of the batch (the row of \<^verbatim>\<open>stats_meta\<close>, the row of
    \<^verbatim>\<open>stats_histograms\<close>, the deletion of the old buckets, one insertion for each
    bucket); the closing statement is COMMIT if and only if the whole batch ran without
    error, and if it is ROLLBACK then a statement of the batch failed and its error is
    returned.
\<close>

theorem SaveStatsToStorage_finishes_transaction:
  assumes "SaveStatsToStorage d (logging X) (s, []) tableID count isIndex hg cms = (err, (s3, log))"
    and "Execute X s Begin = (e0, s1)"
    and "saveStatsBody d X s1 tableID count isIndex hg cms = (berr, s2)"
  shows "SaveStatsToStorage d X s tableID count isIndex hg cms = (err, s3)
       \<and> (e0 \<noteq> None \<longrightarrow> err = e0 \<and> log = [(Begin, e0)])
       \<and> (e0 = None \<longrightarrow>
            (\<exists>body fin e1.
                log = (Begin, None) # body @ [(fin, e1)]
              \<and> (\<forall>q\<in>fst ` set body. \<not> isControl q)
              \<and> (\<forall>q e. (q, Some e) \<in> set body \<longrightarrow> berr = Some e)
              \<and> (fin = Commit \<longleftrightarrow> berr = None)
              \<and> (fin = Rollback \<longleftrightarrow> berr \<noteq> None)
              \<and> (berr = None \<longrightarrow> err = e1 \<and> (e1, s3) = Execute X s2 Commit)
              \<and> (berr \<noteq> None \<longrightarrow> err = berr \<and> (e1, s3) = Execute X s2 Rollback)
              \<and> (\<forall>e. Txn X s1 = Inl e \<longrightarrow> body = [] \<and> fin = Rollback \<and> err = Some e)
              \<and> (\<forall>ver e. Txn X s1 = Inr ver \<and> EncodeCMSketch d cms = Inl e \<longrightarrow>
                    body = [] \<and> fin = Rollback \<and> err = Some e)
              \<and> (\<forall>ver data.
                    Txn X s1 = Inr ver \<and> EncodeCMSketch d cms = Inr data
                  \<and> (\<exists>j<length (hg_Buckets hg).
                         (\<exists>e. ConvertToBlob d (GetUpper hg j) = Inl e)
                       \<or> (\<exists>e. ConvertToBlob d (GetLower hg j) = Inl e)) \<longrightarrow>
                    body = [] \<and> fin = Rollback
                  \<and> (\<exists>j e. j < length (hg_Buckets hg) \<and> err = Some e
                        \<and> (\<forall>k<j. (\<exists>y. ConvertToBlob d (GetUpper hg k) = Inr y)
                                 \<and> (\<exists>y. ConvertToBlob d (GetLower hg k) = Inr y))
                        \<and> (ConvertToBlob d (GetUpper hg j) = Inl e
                           \<or> (\<exists>y. ConvertToBlob d (GetUpper hg j) = Inr y)
                             \<and> ConvertToBlob d (GetLower hg j) = Inl e)))
              \<and> (\<forall>ver data batch.
                    Txn X s1 = Inr ver \<and> EncodeCMSketch d cms = Inr data
                  \<and> (\<forall>j<length (hg_Buckets hg).
                         (\<exists>y. ConvertToBlob d (GetLower hg j) = Inr y)
                       \<and> (\<exists>y. ConvertToBlob d (GetUpper hg j) = Inr y))
                  \<and> batch = [if 0 \<le>s count then ReplaceMeta ver tableID count
                              else UpdateMetaVersion ver tableID,
                             ReplaceHistogram tableID isIndex (hg_ID hg) (hg_NDV hg) ver
                               (hg_NullCount hg) data (hg_TotColSize hg) 0 0 (hg_Correlation hg),
                             DeleteBuckets tableID isIndex (hg_ID hg)]
                            @ map (bucketInsert d tableID isIndex hg) [0..<length (hg_Buckets hg)]
                  \<longrightarrow>
                    (\<exists>k\<le>length batch. map fst body = take k batch)
                  \<and> (fin = Commit \<longleftrightarrow> body = map (\<lambda>q. (q, None)) batch)
                  \<and> (fin = Rollback \<longrightarrow> (\<exists>q e. (q, Some e) \<in> set body \<and> err = Some e)))))"
    (is "?plain \<and> (e0 \<noteq> None \<longrightarrow> ?failed) \<and> (e0 = None \<longrightarrow> ?finished)")
proof (cases e0)
  case (Some e)
  from assms(1,2) Some have "err = e0 \<and> log = [(Begin, e0)] \<and> s3 = s1"
    by (auto simp: SaveStatsToStorage_def Execute_logging)
  moreover have "SaveStatsToStorage d X s tableID count isIndex hg cms = (e0, s1)"
    using Some assms(2) by (simp add: SaveStatsToStorage_def)
  ultimately have ?plain and ?failed by blast+
  moreover have "e0 \<noteq> None" using Some by blast
  ultimately show ?thesis by blast
next
  case None
  obtain berr' s2' l2 where
    b0: "saveStatsBody d (logging X) (s1, [(Begin, None)]) tableID count isIndex hg cms
          = (berr', (s2', l2))"
    by (metis prod.exhaust)
  from saveStatsBody_logging [OF b0] assms(3) obtain body where
    same: "berr' = berr" "s2' = s2" and l2: "l2 = [(Begin, None)] @ body"
    and nc: "\<forall>q\<in>fst ` set body. \<not> isControl q"
    and errs: "\<forall>q e1. (q, Some e1) \<in> set body \<longrightarrow> berr = Some e1"
    by auto
  have b: "saveStatsBody d (logging X) (s1, [(Begin, None)]) tableID count isIndex hg cms
          = (berr, (s2, [(Begin, None)] @ body))"
    using b0 same l2 by simp
  note T = saveStatsBody_Txn_fails [OF b]
  note E = saveStatsBody_Encode_fails [OF b]
  note C = saveStatsBody_Convert_fails [OF b]
  note S = saveStatsBody_statements [OF b]
  from assms(1,2) None b
  have fin: "finishTransaction (logging X) (s2, l2) berr = (err, (s3, log))"
    by (simp add: SaveStatsToStorage_def Execute_logging l2)
  have plain: "SaveStatsToStorage d X s tableID count isIndex hg cms
                 = finishTransaction X s2 berr"
    using None assms(2,3) by (simp add: SaveStatsToStorage_def)
  have "?plain \<and> ?finished"
  proof (cases berr)
    case None
    obtain e1 sc where c: "Execute X s2 Commit = (e1, sc)" by (cases "Execute X s2 Commit")
    with fin None have r: "err = e1 \<and> s3 = sc \<and> log = l2 @ [(Commit, e1)]"
      by (auto simp: finishTransaction_def Execute_logging)
    have lg: "log = (Begin, None) # body @ [(Commit, e1)]" using r l2 by simp
    have p: ?plain using plain None c r by (simp add: finishTransaction_def)
    have x: "(e1, s3) = Execute X s2 Commit" using c r by simp
    have y: "err = e1" using r by simp
    have t: "\<forall>e. Txn X s1 = Inl e \<longrightarrow> body = [] \<and> Commit = Rollback \<and> err = Some e"
      using T None by auto
    have e: "\<forall>ver e. Txn X s1 = Inr ver \<and> EncodeCMSketch d cms = Inl e \<longrightarrow>
                    body = [] \<and> Commit = Rollback \<and> err = Some e"
      using E None by auto
    have cv: "\<forall>ver data.
                    Txn X s1 = Inr ver \<and> EncodeCMSketch d cms = Inr data
                  \<and> (\<exists>j<length (hg_Buckets hg).
                         (\<exists>e. ConvertToBlob d (GetUpper hg j) = Inl e)
                       \<or> (\<exists>e. ConvertToBlob d (GetLower hg j) = Inl e)) \<longrightarrow>
                    body = [] \<and> Commit = Rollback
                  \<and> (\<exists>j e. j < length (hg_Buckets hg) \<and> err = Some e
                        \<and> (\<forall>k<j. (\<exists>y. ConvertToBlob d (GetUpper hg k) = Inr y)
                                 \<and> (\<exists>y. ConvertToBlob d (GetLower hg k) = Inr y))
                        \<and> (ConvertToBlob d (GetUpper hg j) = Inl e
                           \<or> (\<exists>y. ConvertToBlob d (GetUpper hg j) = Inr y)
                             \<and> ConvertToBlob d (GetLower hg j) = Inl e))"
    proof (intro allI impI)
      fix ver data
      assume h: "Txn X s1 = Inr ver \<and> EncodeCMSketch d cms = Inr data
                  \<and> (\<exists>j<length (hg_Buckets hg).
                         (\<exists>e. ConvertToBlob d (GetUpper hg j) = Inl e)
                       \<or> (\<exists>e. ConvertToBlob d (GetLower hg j) = Inl e))"
      from C [of ver data] h None have False by auto
      then show "body = [] \<and> Commit = Rollback
                  \<and> (\<exists>j e. j < length (hg_Buckets hg) \<and> err = Some e
                        \<and> (\<forall>k<j. (\<exists>y. ConvertToBlob d (GetUpper hg k) = Inr y)
                                 \<and> (\<exists>y. ConvertToBlob d (GetLower hg k) = Inr y))
                        \<and> (ConvertToBlob d (GetUpper hg j) = Inl e
                           \<or> (\<exists>y. ConvertToBlob d (GetUpper hg j) = Inr y)
                             \<and> ConvertToBlob d (GetLower hg j) = Inl e))" ..
    qed
    have st: "\<forall>ver data batch.
                    Txn X s1 = Inr ver \<and> EncodeCMSketch d cms = Inr data
                  \<and> (\<forall>j<length (hg_Buckets hg).
                         (\<exists>y. ConvertToBlob d (GetLower hg j) = Inr y)
                       \<and> (\<exists>y. ConvertToBlob d (GetUpper hg j) = Inr y))
                  \<and> batch = [if 0 \<le>s count then ReplaceMeta ver tableID count
                              else UpdateMetaVersion ver tableID,
                             ReplaceHistogram tableID isIndex (hg_ID hg) (hg_NDV hg) ver
                               (hg_NullCount hg) data (hg_TotColSize hg) 0 0 (hg_Correlation hg),
                             DeleteBuckets tableID isIndex (hg_ID hg)]
                            @ map (bucketInsert d tableID isIndex hg) [0..<length (hg_Buckets hg)]
                  \<longrightarrow>
                    (\<exists>k\<le>length batch. map fst body = take k batch)
                  \<and> (Commit = Commit \<longleftrightarrow> body = map (\<lambda>q. (q, None)) batch)
                  \<and> (Commit = Rollback \<longrightarrow> (\<exists>q e. (q, Some e) \<in> set body \<and> err = Some e))"
    proof (intro allI impI)
      fix ver data batch
      assume h: "Txn X s1 = Inr ver \<and> EncodeCMSketch d cms = Inr data
                  \<and> (\<forall>j<length (hg_Buckets hg).
                         (\<exists>y. ConvertToBlob d (GetLower hg j) = Inr y)
                       \<and> (\<exists>y. ConvertToBlob d (GetUpper hg j) = Inr y))
                  \<and> batch = [if 0 \<le>s count then ReplaceMeta ver tableID count
                              else UpdateMetaVersion ver tableID,
                             ReplaceHistogram tableID isIndex (hg_ID hg) (hg_NDV hg) ver
                               (hg_NullCount hg) data (hg_TotColSize hg) 0 0 (hg_Correlation hg),
                             DeleteBuckets tableID isIndex (hg_ID hg)]
                            @ map (bucketInsert d tableID isIndex hg) [0..<length (hg_Buckets hg)]"
      from h have h1: "Txn X s1 = Inr ver" and h2: "EncodeCMSketch d cms = Inr data"
        and h3: "\<forall>j<length (hg_Buckets hg).
                         (\<exists>y. ConvertToBlob d (GetLower hg j) = Inr y)
                       \<and> (\<exists>y. ConvertToBlob d (GetUpper hg j) = Inr y)"
        and h4: "batch = [if 0 \<le>s count then ReplaceMeta ver tableID count
                              else UpdateMetaVersion ver tableID,
                             ReplaceHistogram tableID isIndex (hg_ID hg) (hg_NDV hg) ver
                               (hg_NullCount hg) data (hg_TotColSize hg) 0 0 (hg_Correlation hg),
                             DeleteBuckets tableID isIndex (hg_ID hg)]
                            @ map (bucketInsert d tableID isIndex hg) [0..<length (hg_Buckets hg)]"
        by blast+
      note S' = S [OF h1 h2 h3 h4]
      from S' have a: "\<exists>k\<le>length batch. map fst body = take k batch" by (rule conjunct1)
      from S' None have b: "body = map (\<lambda>q. (q, None)) batch" by blast
      from a b
      show "(\<exists>k\<le>length batch. map fst body = take k batch)
                  \<and> (Commit = Commit \<longleftrightarrow> body = map (\<lambda>q. (q, None)) batch)
                  \<and> (Commit = Rollback \<longrightarrow> (\<exists>q e. (q, Some e) \<in> set body \<and> err = Some e))"
        by blast
    qed
    have f4: "Commit = Commit \<longleftrightarrow> berr = None" using None by simp
    have f5: "Commit = Rollback \<longleftrightarrow> berr \<noteq> None" using None by simp
    have f6: "berr = None \<longrightarrow> err = e1 \<and> (e1, s3) = Execute X s2 Commit"
      using x y by simp
    have f7: "berr \<noteq> None \<longrightarrow> err = berr \<and> (e1, s3) = Execute X s2 Rollback"
      using None by simp
    have ?finished
      by (rule exI [of _ body], rule exI [of _ Commit], rule exI [of _ e1])
         (intro conjI lg nc errs f4 f5 f6 f7 t e cv st)
    with p show ?thesis by blast
  next
    case (Some er)
    obtain e1 sc where c: "Execute X s2 Rollback = (e1, sc)" by (cases "Execute X s2 Rollback")
    with fin Some have r: "err = Some er \<and> s3 = sc \<and> log = l2 @ [(Rollback, e1)]"
      by (auto simp: finishTransaction_def Execute_logging)
    have lg: "log = (Begin, None) # body @ [(Rollback, e1)]" using r l2 by simp
    have p: ?plain using plain Some c r by (simp add: finishTransaction_def)
    have x: "(e1, s3) = Execute X s2 Rollback" using c r by simp
    have y: "err = berr" using r Some by simp
    have t: "\<forall>e. Txn X s1 = Inl e \<longrightarrow> body = [] \<and> Rollback = Rollback \<and> err = Some e"
      using T y by auto
    have e: "\<forall>ver e. Txn X s1 = Inr ver \<and> EncodeCMSketch d cms = Inl e \<longrightarrow>
                    body = [] \<and> Rollback = Rollback \<and> err = Some e"
      using E y by auto
    have cv: "\<forall>ver data.
                    Txn X s1 = Inr ver \<and> EncodeCMSketch d cms = Inr data
                  \<and> (\<exists>j<length (hg_Buckets hg).
                         (\<exists>e. ConvertToBlob d (GetUpper hg j) = Inl e)
                       \<or> (\<exists>e. ConvertToBlob d (GetLower hg j) = Inl e)) \<longrightarrow>
                    body = [] \<and> Rollback = Rollback
                  \<and> (\<exists>j e. j < length (hg_Buckets hg) \<and> err = Some e
                        \<and> (\<forall>k<j. (\<exists>y. ConvertToBlob d (GetUpper hg k) = Inr y)
                                 \<and> (\<exists>y. ConvertToBlob d (GetLower hg k) = Inr y))
                        \<and> (ConvertToBlob d (GetUpper hg j) = Inl e
                           \<or> (\<exists>y. ConvertToBlob d (GetUpper hg j) = Inr y)
                             \<and> ConvertToBlob d (GetLower hg j) = Inl e))"
    proof (intro allI impI)
      fix ver data
      assume h: "Txn X s1 = Inr ver \<and> EncodeCMSketch d cms = Inr data
                  \<and> (\<exists>j<length (hg_Buckets hg).
                         (\<exists>e. ConvertToBlob d (GetUpper hg j) = Inl e)
                       \<or> (\<exists>e. ConvertToBlob d (GetLower hg j) = Inl e))"
      from h have h1: "Txn X s1 = Inr ver" and h2: "EncodeCMSketch d cms = Inr data"
        and h3: "\<exists>j<length (hg_Buckets hg).
                         (\<exists>e. ConvertToBlob d (GetUpper hg j) = Inl e)
                       \<or> (\<exists>e. ConvertToBlob d (GetLower hg j) = Inl e)"
        by blast+
      from C [OF h1 h2 h3]
      show "body = [] \<and> Rollback = Rollback
                  \<and> (\<exists>j e. j < length (hg_Buckets hg) \<and> err = Some e
                        \<and> (\<forall>k<j. (\<exists>y. ConvertToBlob d (GetUpper hg k) = Inr y)
                                 \<and> (\<exists>y. ConvertToBlob d (GetLower hg k) = Inr y))
                        \<and> (ConvertToBlob d (GetUpper hg j) = Inl e
                           \<or> (\<exists>y. ConvertToBlob d (GetUpper hg j) = Inr y)
                             \<and> ConvertToBlob d (GetLower hg j) = Inl e))"
        unfolding y by simp
    qed
    have st: "\<forall>ver data batch.
                    Txn X s1 = Inr ver \<and> EncodeCMSketch d cms = Inr data
                  \<and> (\<forall>j<length (hg_Buckets hg).
                         (\<exists>y. ConvertToBlob d (GetLower hg j) = Inr y)
                       \<and> (\<exists>y. ConvertToBlob d (GetUpper hg j) = Inr y))
                  \<and> batch = [if 0 \<le>s count then ReplaceMeta ver tableID count
                              else UpdateMetaVersion ver tableID,
                             ReplaceHistogram tableID isIndex (hg_ID hg) (hg_NDV hg) ver
                               (hg_NullCount hg) data (hg_TotColSize hg) 0 0 (hg_Correlation hg),
                             DeleteBuckets tableID isIndex (hg_ID hg)]
                            @ map (bucketInsert d tableID isIndex hg) [0..<length (hg_Buckets hg)]
                  \<longrightarrow>
                    (\<exists>k\<le>length batch. map fst body = take k batch)
                  \<and> (Rollback = Commit \<longleftrightarrow> body = map (\<lambda>q. (q, None)) batch)
                  \<and> (Rollback = Rollback \<longrightarrow> (\<exists>q e. (q, Some e) \<in> set body \<and> err = Some e))"
    proof (intro allI impI)
      fix ver data batch
      assume h: "Txn X s1 = Inr ver \<and> EncodeCMSketch d cms = Inr data
                  \<and> (\<forall>j<length (hg_Buckets hg).
                         (\<exists>y. ConvertToBlob d (GetLower hg j) = Inr y)
                       \<and> (\<exists>y. ConvertToBlob d (GetUpper hg j) = Inr y))
                  \<and> batch = [if 0 \<le>s count then ReplaceMeta ver tableID count
                              else UpdateMetaVersion ver tableID,
                             ReplaceHistogram tableID isIndex (hg_ID hg) (hg_NDV hg) ver
                               (hg_NullCount hg) data (hg_TotColSize hg) 0 0 (hg_Correlation hg),
                             DeleteBuckets tableID isIndex (hg_ID hg)]
                            @ map (bucketInsert d tableID isIndex hg) [0..<length (hg_Buckets hg)]"
      from h have h1: "Txn X s1 = Inr ver" and h2: "EncodeCMSketch d cms = Inr data"
        and h3: "\<forall>j<length (hg_Buckets hg).
                         (\<exists>y. ConvertToBlob d (GetLower hg j) = Inr y)
                       \<and> (\<exists>y. ConvertToBlob d (GetUpper hg j) = Inr y)"
        and h4: "batch = [if 0 \<le>s count then ReplaceMeta ver tableID count
                              else UpdateMetaVersion ver tableID,
                             ReplaceHistogram tableID isIndex (hg_ID hg) (hg_NDV hg) ver
                               (hg_NullCount hg) data (hg_TotColSize hg) 0 0 (hg_Correlation hg),
                             DeleteBuckets tableID isIndex (hg_ID hg)]
                            @ map (bucketInsert d tableID isIndex hg) [0..<length (hg_Buckets hg)]"
        by blast+
      note S' = S [OF h1 h2 h3 h4]
      from S' have a: "\<exists>k\<le>length batch. map fst body = take k batch" by (rule conjunct1)
      from S' Some have b: "body \<noteq> map (\<lambda>q. (q, None)) batch" by simp
      from S' Some have "\<exists>q. (q, Some er) \<in> set body" by simp
      with r have c: "\<exists>q e. (q, Some e) \<in> set body \<and> err = Some e" by blast
      from a b c
      show "(\<exists>k\<le>length batch. map fst body = take k batch)
                  \<and> (Rollback = Commit \<longleftrightarrow> body = map (\<lambda>q. (q, None)) batch)
                  \<and> (Rollback = Rollback \<longrightarrow> (\<exists>q e. (q, Some e) \<in> set body \<and> err = Some e))"
        by blast
    qed
    have f4: "Rollback = Commit \<longleftrightarrow> berr = None" using Some by simp
    have f5: "Rollback = Rollback \<longleftrightarrow> berr \<noteq> None" using Some by simp
    have f6: "berr = None \<longrightarrow> err = e1 \<and> (e1, s3) = Execute X s2 Commit"
      using Some by simp
    have f7: "berr \<noteq> None \<longrightarrow> err = berr \<and> (e1, s3) = Execute X s2 Rollback"
      using x y by simp
    have ?finished
      by (rule exI [of _ body], rule exI [of _ Rollback], rule exI [of _ e1])
         (intro conjI lg nc errs f4 f5 f6 f7 t e cv st)
    with p show ?thesis by blast
  qed
  then show ?thesis using None by blast
qed

lemma failInsert_logged:
  "SaveStatsToStorage exampleDeps (logging failInsertExecutor) ((), []) 5 1000 0
     exampleHistogram None
   = (Some (Error ''insert failed''),
      ((), [(Begin, None), (ReplaceMeta 42 5 1000, None),
            (ReplaceHistogram 5 0 1 3 42 0 [] 0 0 0 (Float64 0), None),
            (DeleteBuckets 5 0 1, None), (InsertBucket 5 0 1 0 10 1 [1] [2], None),
            (InsertBucket 5 0 1 1 15 2 [3] [4], Some (Error ''insert failed'')),
            (Rollback, Some (Error ''rollback failed''))]))"
  by code_simp

lemma failInsert_body:
  "saveStatsBody exampleDeps failInsertExecutor () 5 1000 0 exampleHistogram None
   = (Some (Error ''insert failed''), ())"
  by code_simp

lemma failTxn_logged:
  "SaveStatsToStorage exampleDeps (logging failTxnExecutor) ((), []) 5 1000 0
     exampleHistogram None
   = (Some (Error ''no transaction''), ((), [(Begin, None), (Rollback, None)]))"
  by code_simp

lemma failTxn_body:
  "saveStatsBody exampleDeps failTxnExecutor () 5 1000 0 exampleHistogram None
   = (Some (Error ''no transaction''), ())"
  by code_simp

lemma failEncode_logged:
  "SaveStatsToStorage failEncodeDeps (logging failInsertExecutor) ((), []) 5 1000 0
     exampleHistogram None
   = (Some (Error ''encode failed''),
      ((), [(Begin, None), (Rollback, Some (Error ''rollback failed''))]))"
  by code_simp

lemma failEncode_body:
  "saveStatsBody failEncodeDeps failInsertExecutor () 5 1000 0 exampleHistogram None
   = (Some (Error ''encode failed''), ())"
  by code_simp

lemma failConvert_logged:
  "SaveStatsToStorage failConvertDeps (logging failInsertExecutor) ((), []) 5 1000 0
     exampleHistogram None
   = (Some (Error ''convert failed''),
      ((), [(Begin, None), (Rollback, Some (Error ''rollback failed''))]))"
  by code_simp

lemma failConvert_body:
  "saveStatsBody failConvertDeps failInsertExecutor () 5 1000 0 exampleHistogram None
   = (Some (Error ''convert failed''), ())"
  by code_simp

lemma okExecutor_logged:
  "SaveStatsToStorage exampleDeps (logging okExecutor) ((), []) 5 1000 0
     exampleHistogram None
   = (None,
      ((), [(Begin, None), (ReplaceMeta 42 5 1000, None),
            (ReplaceHistogram 5 0 1 3 42 0 [] 0 0 0 (Float64 0), None),
            (DeleteBuckets 5 0 1, None), (InsertBucket 5 0 1 0 10 1 [1] [2], None),
            (InsertBucket 5 0 1 1 15 2 [3] [4], None),
            (InsertBucket 5 0 1 2 15 3 [5] [6], None),
            (Commit, None)]))"
  by code_simp

lemma okExecutor_body:
  "saveStatsBody exampleDeps okExecutor () 5 1000 0 exampleHistogram None = (None, ())"
  by code_simp

theorem SaveStatsToStorage_finishes_transaction_witness:
  "(Execute failInsertExecutor () Begin = (None, ())
    \<and> saveStatsBody exampleDeps failInsertExecutor () 5 1000 0 exampleHistogram None
        = (Some (Error ''insert failed''), ())
    \<and> SaveStatsToStorage exampleDeps failInsertExecutor () 5 1000 0 exampleHistogram None
        = (Some (Error ''insert failed''), ()))
   \<and> (Txn failTxnExecutor () = Inl (Error ''no transaction'')
    \<and> SaveStatsToStorage exampleDeps failTxnExecutor () 5 1000 0 exampleHistogram None
        = (Some (Error ''no transaction''), ()))
   \<and> (EncodeCMSketch failEncodeDeps None = Inl (Error ''encode failed'')
    \<and> SaveStatsToStorage failEncodeDeps failInsertExecutor () 5 1000 0 exampleHistogram None
        = (Some (Error ''encode failed''), ()))
   \<and> (ConvertToBlob failConvertDeps (GetLower exampleHistogram 1) = Inl (Error ''convert failed'')
    \<and> SaveStatsToStorage failConvertDeps failInsertExecutor () 5 1000 0 exampleHistogram None
        = (Some (Error ''convert failed''), ()))
   \<and> SaveStatsToStorage exampleDeps okExecutor () 5 1000 0 exampleHistogram None = (None, ())"
proof -
  have began: "Execute failInsertExecutor () Begin = (None, ())"
    by (simp add: failInsertExecutor_def)
  have began_txn: "Execute failTxnExecutor () Begin = (None, ())"
    by (simp add: failTxnExecutor_def)
  have began_ok: "Execute okExecutor () Begin = (None, ())"
    by (simp add: okExecutor_def)
  have txn: "Txn failTxnExecutor () = Inl (Error ''no transaction'')"
    by (simp add: failTxnExecutor_def)
  have enc: "EncodeCMSketch failEncodeDeps None = Inl (Error ''encode failed'')"
    by (simp add: failEncodeDeps_def)
  have conv: "ConvertToBlob failConvertDeps (GetLower exampleHistogram 1)
                = Inl (Error ''convert failed'')"
    by (simp add: failConvertDeps_def GetLower_def exampleHistogram_def)
  from SaveStatsToStorage_finishes_transaction [OF failInsert_logged began failInsert_body]
  have a: "SaveStatsToStorage exampleDeps failInsertExecutor () 5 1000 0 exampleHistogram None
          = (Some (Error ''insert failed''), ())"
    by (rule conjunct1)
  from SaveStatsToStorage_finishes_transaction [OF failTxn_logged began_txn failTxn_body]
  have b: "SaveStatsToStorage exampleDeps failTxnExecutor () 5 1000 0 exampleHistogram None
          = (Some (Error ''no transaction''), ())"
    by (rule conjunct1)
  from SaveStatsToStorage_finishes_transaction [OF failEncode_logged began failEncode_body]
  have c: "SaveStatsToStorage failEncodeDeps failInsertExecutor () 5 1000 0 exampleHistogram None
          = (Some (Error ''encode failed''), ())"
    by (rule conjunct1)
  from SaveStatsToStorage_finishes_transaction [OF failConvert_logged began failConvert_body]
  have d: "SaveStatsToStorage failConvertDeps failInsertExecutor () 5 1000 0 exampleHistogram None
          = (Some (Error ''convert failed''), ())"
    by (rule conjunct1)
  from SaveStatsToStorage_finishes_transaction [OF okExecutor_logged began_ok okExecutor_body]
  have e: "SaveStatsToStorage exampleDeps okExecutor () 5 1000 0 exampleHistogram None
          = (None, ())"
    by (rule conjunct1)
  from began failInsert_body a txn b enc c conv d e show ?thesis by (intro conjI)
qed

subsection \<open>The bucket delta round trip\<close>

lemma execSQLs_session_pending:
  assumes "\<forall>q\<in>set sqls. \<not> isControl q" and "pending s = Some rows"
  shows "execSQLs sessionExecutor s sqls =
         (None, s\<lparr>pending := Some (foldl (\<lambda>r q. applyStmt q r) rows sqls)\<rparr>)"
  using assms
proof (induction sqls arbitrary: s rows)
  case Nil
  then show ?case by simp
next
  case (Cons q sqls)
  from Cons.prems(1) have nq: "\<not> isControl q" and rest: "\<forall>q\<in>set sqls. \<not> isControl q"
    by simp_all
  have step: "sessionExecute s q = (None, s\<lparr>pending := Some (applyStmt q rows)\<rparr>)"
    using nq Cons.prems(2) by (cases q) (simp_all add: isControl_def)
  have p: "pending (s\<lparr>pending := Some (applyStmt q rows)\<rparr>) = Some (applyStmt q rows)"
    by simp
  show ?case
    using Cons.IH [OF rest p] step by (simp add: sessionExecutor_def)
qed

lemma foldl_inserts:
  "foldl (\<lambda>r q. applyStmt q r) rows (map (bucketInsert d t i hg) js) =
   rows @ map (storedOf d t i hg) js"
  by (induction js arbitrary: rows) (simp_all add: bucketInsert_def storedOf_def)

lemma ofHistogram_storedOf: "ofHistogram t i (hg_ID hg) (storedOf d t i hg j)"
  by (simp add: ofHistogram_def storedOf_def)

lemma filter_stored:
  "filter (ofHistogram t i (hg_ID hg))
     (filter (\<lambda>r. \<not> ofHistogram t i (hg_ID hg) r) rows @ map (storedOf d t i hg) js) =
   map (storedOf d t i hg) js"
proof -
  have a: "filter (ofHistogram t i (hg_ID hg))
             (filter (\<lambda>r. \<not> ofHistogram t i (hg_ID hg) r) rows) = []"
    by (induction rows) simp_all
  have b: "filter (ofHistogram t i (hg_ID hg)) (map (storedOf d t i hg) js) =
           map (storedOf d t i hg) js"
    by (induction js) (simp_all add: ofHistogram_storedOf)
  show ?thesis by (simp add: a b)
qed

lemma sort_stored:
  "sort_key sb_bucket_id (map (storedOf d t i hg) [0..<n]) = map (storedOf d t i hg) [0..<n]"
proof -
  have m: "map sb_bucket_id (map (storedOf d t i hg) [0..<n]) = map int [0..<n]"
    by (simp add: storedOf_def)
  have "sorted (map int [0..<n])"
    by (simp add: sorted_map sorted_wrt_iff_nth_less)
  then have "sorted (map sb_bucket_id (map (storedOf d t i hg) [0..<n]))"
    by (simp only: m)
  then show ?thesis by (rule sort_key_id_if_sorted)
qed

text \<open>Reading back: the running total over the rows of the buckets \<open>k..<n\<close>.\<close>

lemma bucketsFromRows_stored:
  assumes "n \<le> length (hg_Buckets hg)"
    and "isIndex \<noteq> 1 \<longrightarrow> (\<forall>j<n.
           (\<exists>z. ConvertTo d tp (BytesDatum (sb_lower_bound (storedOf d t isIndex hg j))) = Inr z)
         \<and> (\<exists>z. ConvertTo d tp (BytesDatum (sb_upper_bound (storedOf d t isIndex hg j))) = Inr z))"
    and "k \<le> n"
    and "acc = (if 0 < k then bk_Count (hg_Buckets hg ! (k - 1)) else 0)"
  shows "\<exists>hg1. bucketsFromRows d tp isIndex
                  (map toBucketRow (map (storedOf d t isIndex hg) [k..<n])) acc hg0 = Inr hg1
             \<and> map bk_Count (hg_Buckets hg1) =
                 map bk_Count (hg_Buckets hg0) @ map (\<lambda>j. bk_Count (hg_Buckets hg ! j)) [k..<n]
             \<and> map bk_Repeat (hg_Buckets hg1) =
                 map bk_Repeat (hg_Buckets hg0) @ map (\<lambda>j. bk_Repeat (hg_Buckets hg ! j)) [k..<n]"
  using assms(3,4)
proof (induction "n - k" arbitrary: k acc hg0)
  case 0
  then have "k = n" by simp
  then show ?case by simp
next
  case (Suc m)
  then have kn: "k < n" by simp
  have upt: "[k..<n] = k # [Suc k..<n]" using kn by (simp add: upt_conv_Cons)
  let ?row = "toBucketRow (storedOf d t isIndex hg k)"
  have cnt: "acc + br_count ?row = bk_Count (hg_Buckets hg ! k)"
    using Suc.prems(2) by (simp add: toBucketRow_def storedOf_def)
  have rep: "br_repeats ?row = bk_Repeat (hg_Buckets hg ! k)"
    by (simp add: toBucketRow_def storedOf_def)
  have m: "m = n - Suc k" using Suc.hyps(2) by simp
  have le: "Suc k \<le> n" using kn by simp
  have nxt: "bk_Count (hg_Buckets hg ! k) =
             (if 0 < Suc k then bk_Count (hg_Buckets hg ! (Suc k - 1)) else 0)"
    by simp
  show ?case
  proof (cases "isIndex = 1")
    case True
    let ?hg' = "AppendBucket hg0 (BytesDatum (br_lower_bound ?row))
                  (BytesDatum (br_upper_bound ?row)) (bk_Count (hg_Buckets hg ! k))
                  (bk_Repeat (hg_Buckets hg ! k))"
    from Suc.hyps(1) [OF m le nxt, of ?hg'] obtain hg1 where
      r: "bucketsFromRows d tp isIndex
            (map toBucketRow (map (storedOf d t isIndex hg) [Suc k..<n]))
            (bk_Count (hg_Buckets hg ! k)) ?hg' = Inr hg1"
      and c: "map bk_Count (hg_Buckets hg1) =
              map bk_Count (hg_Buckets ?hg') @ map (\<lambda>j. bk_Count (hg_Buckets hg ! j)) [Suc k..<n]"
      and p: "map bk_Repeat (hg_Buckets hg1) =
              map bk_Repeat (hg_Buckets ?hg') @ map (\<lambda>j. bk_Repeat (hg_Buckets hg ! j)) [Suc k..<n]"
      by blast
    have "bucketsFromRows d tp isIndex
            (map toBucketRow (map (storedOf d t isIndex hg) [k..<n])) acc hg0 = Inr hg1"
      using True r cnt rep by (simp add: upt Let_def)
    moreover have "map bk_Count (hg_Buckets hg1) =
        map bk_Count (hg_Buckets hg0) @ map (\<lambda>j. bk_Count (hg_Buckets hg ! j)) [k..<n]"
      using c by (simp add: upt AppendBucket_def)
    moreover have "map bk_Repeat (hg_Buckets hg1) =
        map bk_Repeat (hg_Buckets hg0) @ map (\<lambda>j. bk_Repeat (hg_Buckets hg ! j)) [k..<n]"
      using p by (simp add: upt AppendBucket_def)
    ultimately show ?thesis by blast
  next
    case False
    with assms(2) kn obtain lo up where
      lo: "ConvertTo d tp (BytesDatum (br_lower_bound ?row)) = Inr lo" and
      up: "ConvertTo d tp (BytesDatum (br_upper_bound ?row)) = Inr up"
      by (auto simp: toBucketRow_def)
    let ?hg' = "AppendBucket hg0 lo up (bk_Count (hg_Buckets hg ! k))
                  (bk_Repeat (hg_Buckets hg ! k))"
    from Suc.hyps(1) [OF m le nxt, of ?hg'] obtain hg1 where
      r: "bucketsFromRows d tp isIndex
            (map toBucketRow (map (storedOf d t isIndex hg) [Suc k..<n]))
            (bk_Count (hg_Buckets hg ! k)) ?hg' = Inr hg1"
      and c: "map bk_Count (hg_Buckets hg1) =
              map bk_Count (hg_Buckets ?hg') @ map (\<lambda>j. bk_Count (hg_Buckets hg ! j)) [Suc k..<n]"
      and p: "map bk_Repeat (hg_Buckets hg1) =
              map bk_Repeat (hg_Buckets ?hg') @ map (\<lambda>j. bk_Repeat (hg_Buckets hg ! j)) [Suc k..<n]"
      by blast
    have "bucketsFromRows d tp isIndex
            (map toBucketRow (map (storedOf d t isIndex hg) [k..<n])) acc hg0 = Inr hg1"
      using False r cnt rep lo up by (simp add: upt Let_def)
    moreover have "map bk_Count (hg_Buckets hg1) =
        map bk_Count (hg_Buckets hg0) @ map (\<lambda>j. bk_Count (hg_Buckets hg ! j)) [k..<n]"
      using c by (simp add: upt AppendBucket_def)
    moreover have "map bk_Repeat (hg_Buckets hg1) =
        map bk_Repeat (hg_Buckets hg0) @ map (\<lambda>j. bk_Repeat (hg_Buckets hg ! j)) [k..<n]"
      using p by (simp add: upt AppendBucket_def)
    ultimately show ?thesis by blast
  qed
qed

lemma SaveStatsToStorage_session:
  assumes blob: "\<forall>j<length (hg_Buckets hg).
                   (\<exists>y. ConvertToBlob d (GetLower hg j) = Inr y)
                 \<and> (\<exists>y. ConvertToBlob d (GetUpper hg j) = Inr y)"
    and enc: "EncodeCMSketch d cms = Inr data"
  shows "\<exists>s2. SaveStatsToStorage d sessionExecutor s t c i hg cms = (None, s2)
            \<and> committed s2 =
                filter (\<lambda>r. \<not> ofHistogram t i (hg_ID hg) r)
                  (case pending s of None \<Rightarrow> committed s | Some rows \<Rightarrow> rows)
                @ map (storedOf d t i hg) [0..<length (hg_Buckets hg)]"
proof -
  let ?R0 = "case pending s of None \<Rightarrow> committed s | Some rows \<Rightarrow> rows"
  let ?n = "length (hg_Buckets hg)"
  obtain s1 where b: "Execute sessionExecutor s Begin = (None, s1)"
    and p1: "pending s1 = Some ?R0" and ts: "startTS s1 = startTS s"
    by (cases "pending s") (simp_all add: sessionExecutor_def)
  let ?ver = "startTS s1"
  let ?sqls = "[if 0 \<le>s c then ReplaceMeta ?ver t c else UpdateMetaVersion ?ver t,
                ReplaceHistogram t i (hg_ID hg) (hg_NDV hg) ?ver (hg_NullCount hg) data
                  (hg_TotColSize hg) 0 0 (hg_Correlation hg),
                DeleteBuckets t i (hg_ID hg)]"
  have conv: "\<forall>j\<in>set [0..<?n]. (\<exists>y. ConvertToBlob d (GetLower hg j) = Inr y)
                     \<and> (\<exists>y. ConvertToBlob d (GetUpper hg j) = Inr y)"
    using blob by simp
  have loop: "bucketLoop d t i hg [0..<?n] ?sqls =
              Inr (?sqls @ map (bucketInsert d t i hg) [0..<?n])"
    by (rule bucketLoop_result [OF conv])
  have nc: "\<forall>q\<in>set (?sqls @ map (bucketInsert d t i hg) [0..<?n]). \<not> isControl q"
    by (auto simp: isControl_def bucketInsert_def)
  have run: "execSQLs sessionExecutor s1 (?sqls @ map (bucketInsert d t i hg) [0..<?n]) =
      (None, s1\<lparr>pending := Some (foldl (\<lambda>r q. applyStmt q r) ?R0
                                   (?sqls @ map (bucketInsert d t i hg) [0..<?n]))\<rparr>)"
    by (rule execSQLs_session_pending [OF nc p1])
  have pre: "foldl (\<lambda>r q. applyStmt q r) ?R0 ?sqls =
             filter (\<lambda>r. \<not> ofHistogram t i (hg_ID hg) r) ?R0"
    by simp
  have rows: "foldl (\<lambda>r q. applyStmt q r) ?R0 (?sqls @ map (bucketInsert d t i hg) [0..<?n]) =
      filter (\<lambda>r. \<not> ofHistogram t i (hg_ID hg) r) ?R0 @ map (storedOf d t i hg) [0..<?n]"
    unfolding foldl_append pre by (rule foldl_inserts)
  let ?rows = "filter (\<lambda>r. \<not> ofHistogram t i (hg_ID hg) r) ?R0 @ map (storedOf d t i hg) [0..<?n]"
  have body: "saveStatsBody d sessionExecutor s1 t c i hg cms =
              (None, s1\<lparr>pending := Some ?rows\<rparr>)"
  proof -
    have txn: "Txn sessionExecutor s1 = Inr ?ver" by (simp add: sessionExecutor_def)
    have "saveStatsBody d sessionExecutor s1 t c i hg cms =
          execSQLs sessionExecutor s1 (?sqls @ map (bucketInsert d t i hg) [0..<?n])"
      unfolding saveStatsBody_def txn Let_def using enc loop by simp
    then show ?thesis using run rows by simp
  qed
  have fin: "finishTransaction sessionExecutor (s1\<lparr>pending := Some ?rows\<rparr>) None =
             (None, s1\<lparr>committed := ?rows, pending := None\<rparr>)"
    by (simp add: finishTransaction_def sessionExecutor_def)
  have "SaveStatsToStorage d sessionExecutor s t c i hg cms =
        (None, s1\<lparr>committed := ?rows, pending := None\<rparr>)"
    unfolding SaveStatsToStorage_def b using body fin by simp
  then show ?thesis by simp
qed

lemma map_nth_upt: "map (\<lambda>j. f (xs ! j)) [0..<length xs] = map f xs"
  by (rule nth_equalityI) simp_all

lemma specDeltas_stored:
  "map sb_count (map (storedOf d t i hg) [0..<length (hg_Buckets hg)]) =
   specDeltas (map bk_Count (hg_Buckets hg))"
  by (auto simp: specDeltas_def storedOf_def)

text \<open>
  C4. Take a histogram whose bounds all convert to blobs and whose sketch encodes, and
  save it with \<open>SaveStatsToStorage\<close> in a session on the bucket catalog (whatever the
  catalog held before). The save succeeds and the rows of the histogram, ordered by
  bucket number, hold in their count column the deltas \<open>c1, c2 - c1, ..., cn - c(n-1)\<close> of
  the cumulative counts. \<open>histogramFromStorage\<close> on the committed catalog (for a column,
  provided the stored blobs convert to the column's type) returns a histogram whose
  buckets carry the original cumulative counts and the original repeat counts, in order.
  Counts are 64-bit values and the subtraction and the running total wrap around, so
  this holds for every sequence of counts.
\<close>

theorem bucket_delta_round_trip:
  assumes blob: "\<forall>b\<in>set (hg_Buckets hg).
                   (\<exists>y. ConvertToBlob d (bk_lower b) = Inr y)
                 \<and> (\<exists>y. ConvertToBlob d (bk_upper b) = Inr y)"
    and enc: "\<exists>data. EncodeCMSketch d cms = Inr data"
    and reconv: "isIndex \<noteq> 1 \<longrightarrow>
                 (\<forall>b\<in>set (hg_Buckets hg). \<forall>y.
                    ConvertToBlob d (bk_lower b) = Inr y \<or> ConvertToBlob d (bk_upper b) = Inr y
                    \<longrightarrow> (\<exists>z. ConvertTo d tp (BytesDatum (GetBytes y)) = Inr z))"
    and saved: "s2 = snd (SaveStatsToStorage d sessionExecutor s tableID count isIndex hg cms)"
  shows "fst (SaveStatsToStorage d sessionExecutor s tableID count isIndex hg cms) = None
       \<and> map sb_count (sort_key sb_bucket_id
            (filter (ofHistogram tableID isIndex (hg_ID hg)) (committed s2)))
          = specDeltas (map bk_Count (hg_Buckets hg))
       \<and> (\<exists>hg1. histogramFromStorage d (catalogExec base (committed s2)) tableID (hg_ID hg) tp
                    ndv isIndex ver nullCount totColSize corr None = Inr hg1
              \<and> map bk_Count (hg_Buckets hg1) = map bk_Count (hg_Buckets hg)
              \<and> map bk_Repeat (hg_Buckets hg1) = map bk_Repeat (hg_Buckets hg))"
proof -
  let ?n = "length (hg_Buckets hg)"
  let ?new = "map (storedOf d tableID isIndex hg) [0..<?n]"
  from enc obtain data where enc1: "EncodeCMSketch d cms = Inr data" by blast
  have blob1: "\<forall>j<?n. (\<exists>y. ConvertToBlob d (GetLower hg j) = Inr y)
                 \<and> (\<exists>y. ConvertToBlob d (GetUpper hg j) = Inr y)"
    using blob by (simp add: GetLower_def GetUpper_def)
  from SaveStatsToStorage_session [OF blob1 enc1, of s tableID count isIndex] saved
  have ok: "fst (SaveStatsToStorage d sessionExecutor s tableID count isIndex hg cms) = None"
    and com: "committed s2 =
                filter (\<lambda>r. \<not> ofHistogram tableID isIndex (hg_ID hg) r)
                  (case pending s of None \<Rightarrow> committed s | Some rows \<Rightarrow> rows) @ ?new"
    by auto
  have sel: "sort_key sb_bucket_id (filter (ofHistogram tableID isIndex (hg_ID hg)) (committed s2))
             = ?new"
    unfolding com filter_stored by (rule sort_stored)
  have deltas: "map sb_count (sort_key sb_bucket_id
            (filter (ofHistogram tableID isIndex (hg_ID hg)) (committed s2)))
          = specDeltas (map bk_Count (hg_Buckets hg))"
    unfolding sel by (rule specDeltas_stored)
  have reconv1: "isIndex \<noteq> 1 \<longrightarrow> (\<forall>j<?n.
           (\<exists>z. ConvertTo d tp (BytesDatum (sb_lower_bound (storedOf d tableID isIndex hg j))) = Inr z)
         \<and> (\<exists>z. ConvertTo d tp (BytesDatum (sb_upper_bound (storedOf d tableID isIndex hg j))) = Inr z))"
  proof (intro impI allI)
    fix j assume ni: "isIndex \<noteq> 1" and j: "j < ?n"
    then have mem: "hg_Buckets hg ! j \<in> set (hg_Buckets hg)" by simp
    from blob mem obtain yl yu where
      yl: "ConvertToBlob d (bk_lower (hg_Buckets hg ! j)) = Inr yl" and
      yu: "ConvertToBlob d (bk_upper (hg_Buckets hg ! j)) = Inr yu"
      by blast
    from reconv ni mem yl have "\<exists>z. ConvertTo d tp (BytesDatum (GetBytes yl)) = Inr z" by blast
    moreover from reconv ni mem yu have "\<exists>z. ConvertTo d tp (BytesDatum (GetBytes yu)) = Inr z"
      by blast
    ultimately show "(\<exists>z. ConvertTo d tp (BytesDatum (sb_lower_bound (storedOf d tableID isIndex hg j))) = Inr z)
         \<and> (\<exists>z. ConvertTo d tp (BytesDatum (sb_upper_bound (storedOf d tableID isIndex hg j))) = Inr z)"
      using yl yu by (simp add: storedOf_def GetLower_def GetUpper_def)
  qed
  let ?hg0 = "(NewHistogram (hg_ID hg) ndv nullCount ver tp ?n totColSize)\<lparr>hg_Correlation := corr\<rparr>"
  have z: "(0::int64) = (if 0 < (0::nat) then bk_Count (hg_Buckets hg ! (0 - 1)) else 0)" by simp
  from bucketsFromRows_stored [OF le_refl reconv1 le0 z, of ?hg0] obtain hg1 where
    r: "bucketsFromRows d tp isIndex (map toBucketRow ?new) 0 ?hg0 = Inr hg1"
    and c: "map bk_Count (hg_Buckets hg1) =
            map bk_Count (hg_Buckets ?hg0) @ map (\<lambda>j. bk_Count (hg_Buckets hg ! j)) [0..<?n]"
    and p: "map bk_Repeat (hg_Buckets hg1) =
            map bk_Repeat (hg_Buckets ?hg0) @ map (\<lambda>j. bk_Repeat (hg_Buckets hg ! j)) [0..<?n]"
    by blast
  have q: "selectStatsBuckets (catalogExec base (committed s2)) tableID isIndex (hg_ID hg) =
           Inr (map toBucketRow ?new)"
    by (simp add: catalogExec_def sel)
  have load: "histogramFromStorage d (catalogExec base (committed s2)) tableID (hg_ID hg) tp
                ndv isIndex ver nullCount totColSize corr None = Inr hg1"
    unfolding histogramFromStorage_def using q r by (simp add: Let_def)
  have c1: "map bk_Count (hg_Buckets hg1) = map bk_Count (hg_Buckets hg)"
    using c by (simp add: NewHistogram_def map_nth_upt)
  have p1: "map bk_Repeat (hg_Buckets hg1) = map bk_Repeat (hg_Buckets hg)"
    using p by (simp add: NewHistogram_def map_nth_upt)
  from ok deltas load c1 p1 show ?thesis by blast
qed

theorem bucket_delta_round_trip_witness:
  "specDeltas (map bk_Count (hg_Buckets exampleHistogram)) = [10, 15, 15]
   \<and> fst (SaveStatsToStorage exampleDeps sessionExecutor staleSession 5 1000 0
            exampleHistogram None) = None
   \<and> map sb_count (sort_key sb_bucket_id (filter (ofHistogram 5 0 (hg_ID exampleHistogram))
         (committed (snd (SaveStatsToStorage exampleDeps sessionExecutor staleSession 5 1000 0
                            exampleHistogram None)))))
       = [10, 15, 15]
   \<and> (\<exists>hg1. histogramFromStorage exampleDeps
                (catalogExec emptyExec
                   (committed (snd (SaveStatsToStorage exampleDeps sessionExecutor staleSession
                                      5 1000 0 exampleHistogram None))))
                5 (hg_ID exampleHistogram) \<lparr>ft_Tp = 8\<rparr> 3 0 42 0 0 (Float64 0) None = Inr hg1
          \<and> map bk_Count (hg_Buckets hg1) = [10, 25, 40]
          \<and> map bk_Repeat (hg_Buckets hg1) = [1, 2, 3])"
proof -
  have blob: "\<forall>b\<in>set (hg_Buckets exampleHistogram).
                   (\<exists>y. ConvertToBlob exampleDeps (bk_lower b) = Inr y)
                 \<and> (\<exists>y. ConvertToBlob exampleDeps (bk_upper b) = Inr y)"
    by (simp add: exampleDeps_def)
  have enc: "\<exists>data. EncodeCMSketch exampleDeps None = Inr data"
    by (simp add: exampleDeps_def)
  have reconv: "(0::int64) \<noteq> 1 \<longrightarrow>
                 (\<forall>b\<in>set (hg_Buckets exampleHistogram). \<forall>y.
                    ConvertToBlob exampleDeps (bk_lower b) = Inr y
                    \<or> ConvertToBlob exampleDeps (bk_upper b) = Inr y
                    \<longrightarrow> (\<exists>z. ConvertTo exampleDeps \<lparr>ft_Tp = 8\<rparr> (BytesDatum (GetBytes y)) = Inr z))"
    by (simp add: exampleDeps_def)
  have c: "map bk_Count (hg_Buckets exampleHistogram) = [10, 25, 40]"
    and r: "map bk_Repeat (hg_Buckets exampleHistogram) = [1, 2, 3]"
    by (simp_all add: exampleHistogram_def)
  have sd: "specDeltas [10, 25, 40] = [10, 15, 15]"
    by (simp add: specDeltas_def upt_rec)
  from bucket_delta_round_trip [OF blob enc reconv refl,
         of staleSession 5 1000 emptyExec 3 42 0 0 "Float64 0"]
  show ?thesis unfolding c r sd by blast
qed

subsection \<open>Lazy loading of column histograms\<close>
























end
